theory Spec2Isabelle
  imports Main "HOL-Library.AList" "HOL-Library.Multiset"
begin

section \<open>Strings\<close>

text \<open>
  Names are Python strings; the model keeps them as \<open>string\<close>. \<open>lower\<close> is
  \<^verbatim>\<open>str.lower()\<close> on the ASCII letters, which is all a netlist identifier is made of.
\<close>

definition lower_char :: "char \<Rightarrow> char" where
  "lower_char c =
     (case map_of (zip ''ABCDEFGHIJKLMNOPQRSTUVWXYZ'' ''abcdefghijklmnopqrstuvwxyz'') c of
        Some d \<Rightarrow> d
      | None \<Rightarrow> c)"

definition lower :: "string \<Rightarrow> string" where
  "lower s = map lower_char s"

text \<open>\<^verbatim>\<open>sep.join(xs)\<close>.\<close>

fun join :: "string \<Rightarrow> string list \<Rightarrow> string" where
  "join sep [] = []"
| "join sep [x] = x"
| "join sep (x # y # ys) = x @ sep @ join sep (y # ys)"

text \<open>
  \<open>contains needle hay\<close> is Python's \<^verbatim>\<open>needle in hay\<close> on strings: \<open>needle\<close> occurs
  in \<open>hay\<close> as a contiguous run.
\<close>

fun starts_with :: "string \<Rightarrow> string \<Rightarrow> bool" where
  "starts_with [] hay = True"
| "starts_with (n # ns) [] = False"
| "starts_with (n # ns) (h # hs) = (n = h \<and> starts_with ns hs)"

fun contains :: "string \<Rightarrow> string \<Rightarrow> bool" where
  "contains needle [] = (needle = [])"
| "contains needle (h # hs) = (starts_with needle (h # hs) \<or> contains needle hs)"

section \<open>Exceptions\<close>

text \<open>
  Every \<^verbatim>\<open>raise\<close> of the source is a value of \<open>exn\<close>, the constructor being the Python
  exception class and the argument its message. \<^verbatim>\<open>ParseError\<close> is the module's own
  class (a subclass of \<^verbatim>\<open>NameError\<close>); \<open>UnboundLocalError\<close>, \<open>IndexError\<close>,
  \<open>AttributeError\<close>, \<open>ZeroDivisionError\<close> and \<open>KeyError\<close> are what the interpreter
  raises where the source reads a local that no branch assigned, indexes an empty string,
  reads a missing attribute, divides by zero or looks a missing key up; \<open>OSError\<close> is
  what \<^verbatim>\<open>open\<close> raises, and \<open>TypeError\<close> what a call raises that gives a parameter of
  the callee twice, by position and by keyword. For the three that the interpreter
  raises on a name (\<open>UnboundLocalError\<close>, \<open>AttributeError\<close>, \<open>KeyError\<close>) the argument
  is that name, and for \<open>TypeError\<close> it is the name of the class that was called. Where
  a message of the source formats a node of the syntax tree, the model puts the text of
  the node there.
\<close>

datatype exn =
    ParseError string
  | ValueError string
  | NameError string
  | UnboundLocalError string
  | IndexError string
  | AttributeError string
  | ZeroDivisionError string
  | KeyError string
  | OSError string
  | TypeError string

fun is_ParseError :: "exn \<Rightarrow> bool" where
  "is_ParseError (ParseError m) = True"
| "is_ParseError e = False"

fun message :: "exn \<Rightarrow> string" where
  "message (ParseError m) = m"
| "message (ValueError m) = m"
| "message (NameError m) = m"
| "message (UnboundLocalError m) = m"
| "message (IndexError m) = m"
| "message (AttributeError m) = m"
| "message (ZeroDivisionError m) = m"
| "message (KeyError m) = m"
| "message (OSError m) = m"
| "message (TypeError m) = m"

section \<open>The intermediate representation\<close>

text \<open>
  The expression classes live in \<^verbatim>\<open>PySpice.Spice.Expressions\<close>, outside this file; the
  walkers below only build \<^verbatim>\<open>V(p, n) * value\<close> and \<^verbatim>\<open>I(device) * value\<close> from them, so
  an expression is a term over these constructors. \<open>Walked t\<close> is the result of walking
  a value or expression node whose source text is \<open>t\<close>.
\<close>

datatype expr =
    Walked string
  | V "string option" "string option"
  | I string
  | Mul expr expr

text \<open>
  \<^verbatim>\<open>int(value)\<close> and \<^verbatim>\<open>float(value)\<close> on a string. An integer is kept by value; a float
  is kept as the literal it was read from (its binary value plays no part here).
\<close>

datatype number = PyInt int | PyFloat string

datatype val = Str string | Num number | Expression expr | Values "expr list"

type_synonym kwargs = "(string \<times> val) list"

text \<open>The element classes of \<^verbatim>\<open>BasicElement\<close> that the walkers instantiate.\<close>

datatype device_class =
    BehavioralSource
  | BipolarJunctionTransistor
  | Mosfet
  | SubCircuitElement
  | VoltageControlledSwitch

text \<open>
  The statement classes take the parameters of a line as keyword arguments
  (\<^verbatim>\<open>**parameters\<close>). A key that is the name of a parameter the call gives by position,
  \<^verbatim>\<open>self\<close> among them, is an argument given twice: the call raises \<^verbatim>\<open>TypeError\<close> before
  the body of \<^verbatim>\<open>__init__\<close> runs. \<open>given_twice positional kwargs\<close> says that \<open>kwargs\<close>
  has such a key.
\<close>

definition given_twice :: "string list \<Rightarrow> (string \<times> 'v) list \<Rightarrow> bool" where
  "given_twice positional kwargs = (\<exists>key \<in> set (map fst kwargs). key \<in> set positional)"

text \<open>
  \<^verbatim>\<open>ElementStatement(statement, name, *nodes, **params)\<close>: \<^verbatim>\<open>_statement\<close> is the element
  class, \<^verbatim>\<open>_prefix\<close> and \<^verbatim>\<open>_name\<close> are \<^verbatim>\<open>name[0]\<close> and \<^verbatim>\<open>name[1:]\<close>.
\<close>

record element =
  el_statement :: device_class
  el_prefix :: char
  el_name :: string
  el_nodes :: "string list"
  el_params :: kwargs

definition ElementStatement ::
  "device_class \<Rightarrow> string \<Rightarrow> string list \<Rightarrow> kwargs \<Rightarrow> exn + element" where
  "ElementStatement statement name nodes params =
     (if given_twice [''self'', ''statement'', ''name''] params
      then Inl (TypeError ''ElementStatement'')
      else (case name of
              [] \<Rightarrow> Inl (IndexError ''string index out of range'')
            | c # cs \<Rightarrow> Inr \<lparr>el_statement = statement, el_prefix = c, el_name = cs,
                              el_nodes = nodes, el_params = params\<rparr>))"

text \<open>\<^verbatim>\<open>ModelStatement(name, device, **parameters)\<close>.\<close>

record model_statement =
  m_name :: string
  m_model_type :: string
  m_parameters :: kwargs

definition ModelStatement :: "string \<Rightarrow> string \<Rightarrow> kwargs \<Rightarrow> exn + model_statement" where
  "ModelStatement name device parameters =
     (if given_twice [''self'', ''name'', ''device''] parameters
      then Inl (TypeError ''ModelStatement'')
      else Inr \<lparr>m_name = name, m_model_type = device, m_parameters = parameters\<rparr>)"

text \<open>\<^verbatim>\<open>ParamStatement(**parameters)\<close>: the statement is the dict.\<close>

definition ParamStatement :: "kwargs \<Rightarrow> exn + kwargs" where
  "ParamStatement parameters =
     (if given_twice [''self''] parameters
      then Inl (TypeError ''ParamStatement'')
      else Inr parameters)"

text \<open>\<^verbatim>\<open>DataStatement(table, **parameters)\<close>.\<close>

record data_statement =
  d_table :: string
  d_parameters :: "(string \<times> expr list) list"

definition DataStatement :: "string \<Rightarrow> (string \<times> expr list) list \<Rightarrow> exn + data_statement" where
  "DataStatement table parameters =
     (if given_twice [''self'', ''table''] parameters
      then Inl (TypeError ''DataStatement'')
      else Inr \<lparr>d_table = table, d_parameters = parameters\<rparr>)"

text \<open>
  \<^verbatim>\<open>SubCircuitStatement\<close>. The two \<^verbatim>\<open>_required_*\<close> fields are Python sets of strings:
  a list of the members here, each once, read through \<open>set\<close> for membership. The order
  in which Python iterates a set is not the order of the list (see \<open>env_iterate\<close>
  below).
\<close>

datatype subckt = SubCircuitStatement
  (sc_name: string)
  (sc_nodes: "string list")
  (sc_parameters: kwargs)
  (sc_statements: "element list")
  (sc_subcircuits: "subckt list")
  (sc_models: "model_statement list")
  (sc_required_subcircuits: "string list")
  (sc_required_models: "string list")
  (sc_params: "kwargs list")

text \<open>
  The call \<^verbatim>\<open>SubCircuitStatement(name, *nodes, **parameters)\<close> of the walker: a new
  definition, with nothing in it yet.
\<close>

definition SubCircuitStatement_init :: "string \<Rightarrow> string list \<Rightarrow> kwargs \<Rightarrow> exn + subckt" where
  "SubCircuitStatement_init name nodes params =
     (if given_twice [''self'', ''name''] params
      then Inl (TypeError ''SubCircuitStatement'')
      else Inr (SubCircuitStatement name nodes params [] [] [] [] [] []))"

text \<open>
  \<^verbatim>\<open>LibraryStatement(entry)\<close>; it has neither \<^verbatim>\<open>_required_models\<close> nor
  \<^verbatim>\<open>_required_subcircuits\<close>.
\<close>

record library_statement =
  lib_entry :: string
  lib_statements :: "element list"
  lib_subcircuits :: "subckt list"
  lib_models :: "model_statement list"
  lib_params :: "kwargs list"

record libcall_statement =
  lc_library :: string
  lc_entry :: string

text \<open>\<^verbatim>\<open>CircuitStatement\<close>; \<^verbatim>\<open>_libraries\<close> and \<^verbatim>\<open>_data\<close> are dicts, in insertion order.\<close>

record circuit =
  c_path :: string
  c_title :: string
  c_library_calls :: "libcall_statement list"
  c_statements :: "element list"
  c_libraries :: "(string \<times> library_statement) list"
  c_subcircuits :: "subckt list"
  c_models :: "model_statement list"
  c_required_subcircuits :: "string list"
  c_required_models :: "string list"
  c_params :: "kwargs list"
  c_data :: "(string \<times> data_statement) list"

definition CircuitStatement :: "string \<Rightarrow> string \<Rightarrow> circuit" where
  "CircuitStatement title path =
     \<lparr>c_path = path, c_title = title, c_library_calls = [], c_statements = [],
      c_libraries = [], c_subcircuits = [], c_models = [], c_required_subcircuits = [],
      c_required_models = [], c_params = [], c_data = []\<rparr>"

text \<open>
  The two resolver passes are duck-typed: they read \<^verbatim>\<open>name\<close>, \<^verbatim>\<open>_models\<close>,
  \<^verbatim>\<open>_subcircuits\<close> and the \<^verbatim>\<open>_required_*\<close> sets, which \<^verbatim>\<open>CircuitStatement\<close> and
  \<^verbatim>\<open>SubCircuitStatement\<close> both have (\<^verbatim>\<open>CircuitStatement.name\<close> is the title). \<open>scope_of\<close>
  presents the root through those fields, so that one function serves both classes.
\<close>

definition scope_of :: "circuit \<Rightarrow> subckt" where
  "scope_of c =
     SubCircuitStatement (c_title c) [] [] (c_statements c) (c_subcircuits c) (c_models c)
       (c_required_subcircuits c) (c_required_models c) (c_params c)"

section \<open>The resolver: model check\<close>

text \<open>
  A \<^verbatim>\<open>for\<close> loop over a Python set meets the members in the order of their hashes, which
  for strings changes from one run of the interpreter to the next. The two resolver
  passes take that order as their first argument: \<open>iterate\<close> maps the members of a
  set, as the model keeps them, to the sequence in which a loop over the set meets
  them.
\<close>

type_synonym iteration = "string list \<Rightarrow> string list"

text \<open>
  \<^verbatim>\<open>SpiceParser._check_models\<close>. The subcircuits are checked first, each with the models
  accumulated so far, then the scope's own \<^verbatim>\<open>_required_models\<close>, in the order of the
  set: the error names the first missing model the loop meets.
\<close>

fun check_models :: "iteration \<Rightarrow> subckt \<Rightarrow> string list \<Rightarrow> exn + unit"
  and check_models_each :: "iteration \<Rightarrow> subckt list \<Rightarrow> string list \<Rightarrow> exn + unit" where
  "check_models iterate (SubCircuitStatement name nodes parameters statements subcircuits models
       required_subcircuits required_models params) available_models =
     (let p_available_models = map lower available_models @ map (\<lambda>model. lower (m_name model)) models
      in case check_models_each iterate subcircuits p_available_models of
           Inl e \<Rightarrow> Inl e
         | Inr u \<Rightarrow>
             (case find (\<lambda>model. model \<notin> set p_available_models) (iterate required_models) of
                Some model \<Rightarrow>
                  Inl (ValueError (''Model ('' @ model @ '') not available in ('' @ name @ '')''))
              | None \<Rightarrow> Inr ()))"
| "check_models_each iterate [] available_models = Inr ()"
| "check_models_each iterate (subcircuit # rest) available_models =
     (case check_models iterate subcircuit available_models of
        Inl e \<Rightarrow> Inl e
      | Inr u \<Rightarrow> check_models_each iterate rest available_models)"

section \<open>The resolver: subcircuit sort\<close>

text \<open>
  An item of \<^verbatim>\<open>dependencies.items()\<close>: a subcircuit and the set of names it waits for.
\<close>

type_synonym item = "subckt \<times> string list"

text \<open>
  One run of the \<^verbatim>\<open>for item in items\<close> loop. An item whose names are all in
  \<^verbatim>\<open>result_names\<close> is appended to \<^verbatim>\<open>result\<close> and put on the \<^verbatim>\<open>remove\<close> list (the inner
  loop over the set \<^verbatim>\<open>depends\<close> breaks at a name that is not there, so the order in which
  it meets the names makes no difference); the items are distinct objects, so taking the
  \<^verbatim>\<open>remove\<close> list out of \<^verbatim>\<open>items\<close> afterwards leaves the items that were not appended,
  in order: the first component returned.
\<close>

fun sort_pass :: "item list \<Rightarrow> subckt list \<Rightarrow> string list \<Rightarrow> item list \<times> subckt list \<times> string list" where
  "sort_pass [] result result_names = ([], result, result_names)"
| "sort_pass ((subckt, depends) # items) result result_names =
     (if list_all (\<lambda>name. name \<in> set result_names) depends
      then sort_pass items (result @ [subckt]) (result_names @ [lower (sc_name subckt)])
      else (case sort_pass items result result_names of
              (kept, result', result_names') \<Rightarrow> ((subckt, depends) # kept, result', result_names')))"

text \<open>\<^verbatim>\<open>while 0 < len(items) < previous\<close>.\<close>

function sort_loop :: "item list \<Rightarrow> nat \<Rightarrow> subckt list \<Rightarrow> string list \<Rightarrow> item list \<times> subckt list" where
  "sort_loop items previous result result_names =
     (if 0 < length items \<and> length items < previous
      then (case sort_pass items result result_names of
              (items', result', result_names') \<Rightarrow>
                sort_loop items' (length items) result' result_names')
      else (items, result))"
  by pat_completeness auto
termination
  by (relation "measure (\<lambda>(items, previous, result, result_names). previous)") auto

text \<open>
  The text of \<^verbatim>\<open>[(key.name, value) for key, value in items]\<close> under \<^verbatim>\<open>%s\<close>, for names
  that \<^verbatim>\<open>repr\<close> prints between single quotes unescaped. The \<^verbatim>\<open>repr\<close> of a set lists
  the members in the order a loop meets them.
\<close>

definition repr_str :: "string \<Rightarrow> string" where
  "repr_str s = [CHR 0x27] @ s @ [CHR 0x27]"

definition repr_set :: "iteration \<Rightarrow> string list \<Rightarrow> string" where
  "repr_set iterate xs =
     (if xs = [] then ''set()'' else ''{'' @ join '', '' (map repr_str (iterate xs)) @ ''}'')"

definition repr_items :: "iteration \<Rightarrow> item list \<Rightarrow> string" where
  "repr_items iterate items =
     ''['' @ join '', '' (map (\<lambda>(key, value). ''('' @ repr_str (sc_name key) @ '', ''
                                   @ repr_set iterate value @ '')'') items) @ '']''"

text \<open>
  \<^verbatim>\<open>SpiceParser._sort_subcircuits\<close>. It returns the scope with its \<^verbatim>\<open>_subcircuits\<close>
  replaced by the sorted list (the source assigns the field in place) and the set
  \<^verbatim>\<open>circuit._required_subcircuits - set(names)\<close>. \<^verbatim>\<open>sorted\<close> is stable, as \<open>sort_key\<close> is;
  \<^verbatim>\<open>len\<close> of a set counts its members.
\<close>

fun sort_subcircuits :: "iteration \<Rightarrow> subckt \<Rightarrow> string list \<Rightarrow> exn + subckt \<times> string list"
  and sort_subcircuits_each :: "iteration \<Rightarrow> subckt list \<Rightarrow> string list \<Rightarrow> exn + item list" where
  "sort_subcircuits iterate (SubCircuitStatement name nodes parameters statements subcircuits models
       required_subcircuits required_models params) available_subcircuits =
     (let names = map (\<lambda>subcircuit. lower (sc_name subcircuit)) subcircuits;
          p_available_subcircuits = map lower available_subcircuits @ names
      in case sort_subcircuits_each iterate subcircuits p_available_subcircuits of
           Inl e \<Rightarrow> Inl e
         | Inr dependencies \<Rightarrow>
             (case find (\<lambda>subcircuit. subcircuit \<notin> set p_available_subcircuits)
                     (iterate required_subcircuits) of
                Some subcircuit \<Rightarrow>
                  Inl (ValueError (''Subcircuit ('' @ subcircuit @ '') not available in ('' @ name @ '')''))
              | None \<Rightarrow>
                  (let items = sort_key (\<lambda>item. length (remdups (snd item))) dependencies
                   in case sort_loop items (length items + 1) [] [] of
                        (items', result) \<Rightarrow>
                          if length items' > 0
                          then Inl (ValueError (''Crossed dependencies ('' @ repr_items iterate items' @ '')''))
                          else Inr (SubCircuitStatement name nodes parameters statements result
                                      models required_subcircuits required_models params,
                                    filter (\<lambda>n. n \<notin> set names) required_subcircuits))))"
| "sort_subcircuits_each iterate [] available_subcircuits = Inr []"
| "sort_subcircuits_each iterate (subcircuit # rest) available_subcircuits =
     (case sort_subcircuits iterate subcircuit available_subcircuits of
        Inl e \<Rightarrow> Inl e
      | Inr (subcircuit', required) \<Rightarrow>
          (case sort_subcircuits_each iterate rest available_subcircuits of
             Inl e \<Rightarrow> Inl e
           | Inr dependencies \<Rightarrow> Inr ((subcircuit', required) # dependencies)))"

declare sort_loop.simps [simp del]

section \<open>Numbers\<close>

text \<open>
  \<^verbatim>\<open>int(s)\<close> and \<^verbatim>\<open>float(s)\<close> on a string of ASCII characters: surrounding white space is
  dropped, a sign may lead, the digits may be grouped by single underscores, a float may
  have a fraction and an exponent or be one of \<^verbatim>\<open>inf\<close>, \<^verbatim>\<open>infinity\<close>, \<^verbatim>\<open>nan\<close> in any
  case. \<open>None\<close> is the \<^verbatim>\<open>ValueError\<close> of the conversion.
\<close>

definition is_digit :: "char \<Rightarrow> bool" where
  "is_digit c = (c \<in> set ''0123456789'')"

definition is_space :: "char \<Rightarrow> bool" where
  "is_space c = (c \<in> set [CHR '' '', CHR 0x09, CHR 0x0A, CHR 0x0B, CHR 0x0C, CHR 0x0D])"

definition digit_value :: "char \<Rightarrow> int" where
  "digit_value c =
     (case map_of (zip ''0123456789'' [0, 1, 2, 3, 4, 5, 6, 7, 8, 9]) c of
        Some d \<Rightarrow> d
      | None \<Rightarrow> 0)"

definition strip :: "string \<Rightarrow> string" where
  "strip s = rev (dropWhile is_space (rev (dropWhile is_space s)))"

fun grouped_digits :: "string \<Rightarrow> bool" where
  "grouped_digits [] = True"
| "grouped_digits [c] = is_digit c"
| "grouped_digits (c # d # ds) =
     (if is_digit c then grouped_digits (d # ds)
      else c = CHR ''_'' \<and> is_digit d \<and> grouped_digits ds)"

definition digitpart :: "string \<Rightarrow> bool" where
  "digitpart s = (case s of [] \<Rightarrow> False | c # cs \<Rightarrow> is_digit c \<and> grouped_digits cs)"

definition unsigned :: "string \<Rightarrow> int \<times> string" where
  "unsigned s =
     (case s of
        c # cs \<Rightarrow> (if c = CHR ''-'' then (- 1, cs) else if c = CHR ''+'' then (1, cs) else (1, s))
      | [] \<Rightarrow> (1, s))"

definition py_int :: "string \<Rightarrow> int option" where
  "py_int s =
     (case unsigned (strip s) of
        (sign, body) \<Rightarrow>
          if digitpart body
          then Some (sign * foldl (\<lambda>a c. 10 * a + digit_value c) 0 (filter is_digit body))
          else None)"

definition mantissa :: "string \<Rightarrow> bool" where
  "mantissa m =
     (let ip = takeWhile (\<lambda>c. c \<noteq> CHR ''.'') m; rest = dropWhile (\<lambda>c. c \<noteq> CHR ''.'') m
      in case rest of
           [] \<Rightarrow> digitpart ip
         | dot # fp \<Rightarrow> (ip = [] \<or> digitpart ip) \<and> (fp = [] \<or> digitpart fp) \<and> \<not> (ip = [] \<and> fp = []))"

definition py_float :: "string \<Rightarrow> string option" where
  "py_float s =
     (let t = strip s; body = snd (unsigned t);
          m = takeWhile (\<lambda>c. c \<noteq> CHR ''e'' \<and> c \<noteq> CHR ''E'') body;
          rest = dropWhile (\<lambda>c. c \<noteq> CHR ''e'' \<and> c \<noteq> CHR ''E'') body
      in if lower body \<in> set [''inf'', ''infinity'', ''nan''] then Some t
         else if mantissa m \<and> (case rest of [] \<Rightarrow> True | e # ex \<Rightarrow> digitpart (snd (unsigned ex)))
         then Some t
         else None)"

text \<open>
  \<^verbatim>\<open>SpiceModelWalker._to_number\<close> on a string (the \<^verbatim>\<open>UnitValue\<close> branch is for values
  already walked, which the callers below never pass).
\<close>

definition to_number :: "string \<Rightarrow> exn + number" where
  "to_number value =
     (case py_int value of
        Some i \<Rightarrow> Inr (PyInt i)
      | None \<Rightarrow>
          (case py_float value of
             Some f \<Rightarrow> Inr (PyFloat f)
           | None \<Rightarrow> Inl (ValueError (''could not convert string to float: '' @ repr_str value))))"

section \<open>Dictionaries and sets\<close>

text \<open>
  A dict is an association list in insertion order; \<^verbatim>\<open>d[k] = v\<close> is \<open>AList.update k v d\<close>.
  \<open>dict_update\<close> is \<^verbatim>\<open>d.update(other)\<close>, \<open>set_add\<close> is \<^verbatim>\<open>s.add(x)\<close>.
\<close>

definition dict_update :: "('k \<times> 'v) list \<Rightarrow> ('k \<times> 'v) list \<Rightarrow> ('k \<times> 'v) list" where
  "dict_update d other = fold (\<lambda>(k, v). AList.update k v) other d"

definition set_add :: "'a \<Rightarrow> 'a list \<Rightarrow> 'a list" where
  "set_add x s = (if x \<in> set s then s else s @ [x])"

section \<open>The syntax tree\<close>

text \<open>
  The grammar (\<^verbatim>\<open>SpiceGrammar\<close>, \<^verbatim>\<open>SpiceModel\<close>) is generated code outside this file. A
  node of the tree is a record of the fields its walker reads. A field the walker passes
  to \<^verbatim>\<open>self.walk\<close> holds the walked value: the text for a node, model, file or device
  name (\<^verbatim>\<open>walk_NetNode\<close>, \<^verbatim>\<open>walk_ModelName\<close>, \<^verbatim>\<open>walk_Filename\<close> return the text), an
  \<open>expr\<close> for a value or an expression, a dict for \<^verbatim>\<open>Parameters\<close>. \<open>None\<close> is Python's
  \<^verbatim>\<open>None\<close>: the optional part was not there.
\<close>

record bjt_node =
  bjt_dev :: string
  bjt_args :: "string list"
  bjt_collector :: string
  bjt_base :: string
  bjt_emitter :: string
  bjt_substrate :: "string option"
  bjt_area :: "expr option"
  bjt_parameters :: "kwargs option"

record switch_node =
  sw_dev :: string
  sw_model :: "string option"
  sw_initial_state :: "string option"
  sw_positive :: string
  sw_negative :: string
  sw_control_p :: "string option"
  sw_control_n :: "string option"

record vcvs_node =
  e_dev :: string
  e_controller :: "expr option"
  e_control_positive :: "string option"
  e_control_negative :: "string option"
  e_gain :: "expr option"
  e_positive :: string
  e_negative :: string

record vccs_node =
  g_dev :: string
  g_controller :: "expr option"
  g_control_positive :: "string option"
  g_control_negative :: "string option"
  g_transconductance :: "expr option"
  g_positive :: string
  g_negative :: string

record cccs_node =
  f_dev :: string
  f_controller :: "expr option"
  f_gain :: "expr option"
  f_positive :: string
  f_negative :: string

record ccvs_node =
  h_dev :: string
  h_controller :: "expr option"
  h_gain :: "expr option"
  h_transresistance :: "expr option"
  h_positive :: string
  h_negative :: string

text \<open>\<open>x_params\<close> tells whether \<^verbatim>\<open>node.params\<close> (the \<^verbatim>\<open>params:\<close> keyword) is there.\<close>

record subcircuit_node =
  x_dev :: string
  x_node :: "string list"
  x_params :: bool
  x_parameters :: "kwargs option"

text \<open>
  An entry of a MOSFET's \<^verbatim>\<open>param\<close> list is a list \<^verbatim>\<open>[name, '=', values]\<close> (\<open>Bracketed\<close>,
  with the values that \<^verbatim>\<open>parameter[2][::2]\<close> walks to) or a \<^verbatim>\<open>Parameter\<close> node.
\<close>

datatype mosfet_entry = Bracketed string "expr list" | Keyword kwargs

datatype mosfet_param = ParamList "mosfet_entry list" | ParamNode kwargs

record mosfet_node =
  mos_dev :: string
  mos_model :: "string option"
  mos_param :: "mosfet_param option"
  mos_drain :: string
  mos_gate :: string
  mos_source :: string
  mos_bulk :: string

record data_node =
  dc_table :: string
  dc_name :: "string list"
  dc_value :: "expr list"
  dc_line :: string

record model_node =
  mc_name :: string
  mc_type :: string
  mc_parameters :: "kwargs option"

text \<open>
  The name of a \<^verbatim>\<open>.subckt\<close> or the entry of a \<^verbatim>\<open>.lib\<close>: one name, or the list of the
  name after the opening keyword and the name after the closing one.
\<close>

datatype entry_names = Single string | Begin_End string string

record libcall_node =
  lcn_entry :: entry_names
  lcn_filename :: string

text \<open>
  A line of the tree, one constructor for each node class walked here: the \<^verbatim>\<open>Q\<close>, \<^verbatim>\<open>S\<close>,
  \<^verbatim>\<open>E\<close>, \<^verbatim>\<open>G\<close>, \<^verbatim>\<open>F\<close>, \<^verbatim>\<open>H\<close>, \<^verbatim>\<open>X\<close> and \<^verbatim>\<open>M\<close> lines and the directives \<^verbatim>\<open>.data\<close>,
  \<^verbatim>\<open>.model\<close>, \<^verbatim>\<open>.param\<close>, \<^verbatim>\<open>.lib\<close> and \<^verbatim>\<open>.subckt\<close>. The remaining device lines
  (\<^verbatim>\<open>R\<close>, \<^verbatim>\<open>L\<close>, \<^verbatim>\<open>C\<close>, \<^verbatim>\<open>K\<close>, \<^verbatim>\<open>D\<close>, \<^verbatim>\<open>J\<close>, \<^verbatim>\<open>V\<close>, \<^verbatim>\<open>I\<close>, \<^verbatim>\<open>B\<close>) append one element to
  \<^verbatim>\<open>_present\<close> in the same way, and \<^verbatim>\<open>.include\<close> reads another file; they are left out.
\<close>

datatype line =
    BJT bjt_node
  | Switch switch_node
  | VoltageControlledVoltageSource vcvs_node
  | VoltageControlledCurrentSource vccs_node
  | CurrentControlledCurrentSource cccs_node
  | CurrentControlledVoltageSource ccvs_node
  | Subcircuit subcircuit_node
  | MOSFET mosfet_node
  | DataCmd data_node
  | ModelCmd model_node
  | ParamCmd "kwargs option"
  | LibCall libcall_node
  | SubcktCmd (sk_name: entry_names) (sk_line: string) (sk_node: "string list option")
      (sk_parameters: "kwargs option") (sk_lines: "line list")
  | LibBlock (lb_entry: entry_names) (lb_lines: "line list")

record circuit_node =
  cn_title :: string
  cn_lines :: "line list"

section \<open>The walker's state\<close>

text \<open>
  \<^verbatim>\<open>_present\<close> and the members of \<^verbatim>\<open>_context\<close> are references. The root is the one object
  reachable twice (as \<^verbatim>\<open>_root\<close> and as \<^verbatim>\<open>_present\<close> or the bottom of \<^verbatim>\<open>_context\<close>), so it
  is kept once, in \<open>w_root\<close>, and \<open>Root\<close> is the reference to it; an open subcircuit or
  library is reachable from one place only and is kept there. \<open>w_context\<close> is the stack
  \<^verbatim>\<open>_context\<close>, its head the member appended last.
\<close>

datatype scope_ref = Root | Sub subckt | Lib library_statement

record walker =
  w_path :: string
  w_root :: circuit
  w_present :: scope_ref
  w_context :: "scope_ref list"

subsection \<open>The \<^verbatim>\<open>append*\<close> methods of the three scope classes\<close>

fun subckt_append :: "element \<Rightarrow> subckt \<Rightarrow> subckt" where
  "subckt_append statement (SubCircuitStatement name nodes parameters statements subcircuits
       models required_subcircuits required_models params) =
     SubCircuitStatement name nodes parameters (statements @ [statement]) subcircuits
       models required_subcircuits required_models params"

fun subckt_appendModel :: "model_statement \<Rightarrow> subckt \<Rightarrow> subckt" where
  "subckt_appendModel statement (SubCircuitStatement name nodes parameters statements subcircuits
       models required_subcircuits required_models params) =
     SubCircuitStatement name nodes parameters statements subcircuits
       (models @ [statement]) required_subcircuits required_models params"

fun subckt_appendParam :: "kwargs \<Rightarrow> subckt \<Rightarrow> subckt" where
  "subckt_appendParam statement (SubCircuitStatement name nodes parameters statements subcircuits
       models required_subcircuits required_models params) =
     SubCircuitStatement name nodes parameters statements subcircuits
       models required_subcircuits required_models (params @ [statement])"

fun subckt_appendSubCircuit :: "subckt \<Rightarrow> subckt \<Rightarrow> subckt" where
  "subckt_appendSubCircuit statement (SubCircuitStatement name nodes parameters statements subcircuits
       models required_subcircuits required_models params) =
     SubCircuitStatement name nodes parameters statements (subcircuits @ [statement])
       models required_subcircuits required_models params"

fun subckt_require_model :: "string \<Rightarrow> subckt \<Rightarrow> subckt" where
  "subckt_require_model model (SubCircuitStatement name nodes parameters statements subcircuits
       models required_subcircuits required_models params) =
     SubCircuitStatement name nodes parameters statements subcircuits
       models required_subcircuits (set_add model required_models) params"

fun subckt_require_subcircuit :: "string \<Rightarrow> subckt \<Rightarrow> subckt" where
  "subckt_require_subcircuit subcircuit (SubCircuitStatement name nodes parameters statements subcircuits
       models required_subcircuits required_models params) =
     SubCircuitStatement name nodes parameters statements subcircuits
       models (set_add subcircuit required_subcircuits) required_models params"

text \<open>
  \<^verbatim>\<open>scope.append(statement)\<close> and its siblings on a reference: the root is updated in
  \<open>w_root\<close>, an open subcircuit or library where it stands. All three classes have
  \<^verbatim>\<open>append\<close>, \<^verbatim>\<open>appendModel\<close>, \<^verbatim>\<open>appendParam\<close> and \<^verbatim>\<open>appendSubCircuit\<close>.
\<close>

fun scope_append :: "element \<Rightarrow> scope_ref \<Rightarrow> circuit \<Rightarrow> scope_ref \<times> circuit" where
  "scope_append statement Root root = (Root, root\<lparr>c_statements := c_statements root @ [statement]\<rparr>)"
| "scope_append statement (Sub s) root = (Sub (subckt_append statement s), root)"
| "scope_append statement (Lib l) root = (Lib (l\<lparr>lib_statements := lib_statements l @ [statement]\<rparr>), root)"

fun scope_appendModel :: "model_statement \<Rightarrow> scope_ref \<Rightarrow> circuit \<Rightarrow> scope_ref \<times> circuit" where
  "scope_appendModel statement Root root = (Root, root\<lparr>c_models := c_models root @ [statement]\<rparr>)"
| "scope_appendModel statement (Sub s) root = (Sub (subckt_appendModel statement s), root)"
| "scope_appendModel statement (Lib l) root = (Lib (l\<lparr>lib_models := lib_models l @ [statement]\<rparr>), root)"

fun scope_appendParam :: "kwargs \<Rightarrow> scope_ref \<Rightarrow> circuit \<Rightarrow> scope_ref \<times> circuit" where
  "scope_appendParam statement Root root = (Root, root\<lparr>c_params := c_params root @ [statement]\<rparr>)"
| "scope_appendParam statement (Sub s) root = (Sub (subckt_appendParam statement s), root)"
| "scope_appendParam statement (Lib l) root = (Lib (l\<lparr>lib_params := lib_params l @ [statement]\<rparr>), root)"

fun scope_appendSubCircuit :: "subckt \<Rightarrow> scope_ref \<Rightarrow> circuit \<Rightarrow> scope_ref \<times> circuit" where
  "scope_appendSubCircuit statement Root root = (Root, root\<lparr>c_subcircuits := c_subcircuits root @ [statement]\<rparr>)"
| "scope_appendSubCircuit statement (Sub s) root = (Sub (subckt_appendSubCircuit statement s), root)"
| "scope_appendSubCircuit statement (Lib l) root = (Lib (l\<lparr>lib_subcircuits := lib_subcircuits l @ [statement]\<rparr>), root)"

text \<open>
  Only \<^verbatim>\<open>CircuitStatement\<close> has \<^verbatim>\<open>appendLibrary\<close>, \<^verbatim>\<open>appendLibraryCall\<close> and \<^verbatim>\<open>appendData\<close>;
  \<^verbatim>\<open>LibraryStatement\<close> has no \<^verbatim>\<open>_required_models\<close> and no \<^verbatim>\<open>_required_subcircuits\<close>.
\<close>

fun scope_appendLibrary :: "library_statement \<Rightarrow> scope_ref \<Rightarrow> circuit \<Rightarrow> exn + scope_ref \<times> circuit" where
  "scope_appendLibrary statement Root root =
     Inr (Root, root\<lparr>c_libraries := AList.update (lib_entry statement) statement (c_libraries root)\<rparr>)"
| "scope_appendLibrary statement (Sub s) root = Inl (AttributeError ''appendLibrary'')"
| "scope_appendLibrary statement (Lib l) root = Inl (AttributeError ''appendLibrary'')"

fun scope_appendLibraryCall :: "libcall_statement \<Rightarrow> scope_ref \<Rightarrow> circuit \<Rightarrow> exn + scope_ref \<times> circuit" where
  "scope_appendLibraryCall statement Root root =
     Inr (Root, root\<lparr>c_library_calls := c_library_calls root @ [statement]\<rparr>)"
| "scope_appendLibraryCall statement (Sub s) root = Inl (AttributeError ''appendLibraryCall'')"
| "scope_appendLibraryCall statement (Lib l) root = Inl (AttributeError ''appendLibraryCall'')"

fun scope_require_model :: "string \<Rightarrow> scope_ref \<Rightarrow> circuit \<Rightarrow> exn + scope_ref \<times> circuit" where
  "scope_require_model model Root root =
     Inr (Root, root\<lparr>c_required_models := set_add model (c_required_models root)\<rparr>)"
| "scope_require_model model (Sub s) root = Inr (Sub (subckt_require_model model s), root)"
| "scope_require_model model (Lib l) root = Inl (AttributeError ''_required_models'')"

fun scope_require_subcircuit :: "string \<Rightarrow> scope_ref \<Rightarrow> circuit \<Rightarrow> exn + scope_ref \<times> circuit" where
  "scope_require_subcircuit subcircuit Root root =
     Inr (Root, root\<lparr>c_required_subcircuits := set_add subcircuit (c_required_subcircuits root)\<rparr>)"
| "scope_require_subcircuit subcircuit (Sub s) root = Inr (Sub (subckt_require_subcircuit subcircuit s), root)"
| "scope_require_subcircuit subcircuit (Lib l) root = Inl (AttributeError ''_required_subcircuits'')"

definition appendData :: "data_statement \<Rightarrow> circuit \<Rightarrow> circuit" where
  "appendData statement root = root\<lparr>c_data := AList.update (d_table statement) statement (c_data root)\<rparr>"

text \<open>The same on \<^verbatim>\<open>self._present\<close>.\<close>

definition on_present :: "(scope_ref \<Rightarrow> circuit \<Rightarrow> scope_ref \<times> circuit) \<Rightarrow> walker \<Rightarrow> walker" where
  "on_present method w =
     (case method (w_present w) (w_root w) of
        (present, root) \<Rightarrow> w\<lparr>w_root := root, w_present := present\<rparr>)"

definition try_on_present :: "(scope_ref \<Rightarrow> circuit \<Rightarrow> exn + scope_ref \<times> circuit) \<Rightarrow> walker \<Rightarrow> exn + walker" where
  "try_on_present method w =
     (case method (w_present w) (w_root w) of
        Inl e \<Rightarrow> Inl e
      | Inr (present, root) \<Rightarrow> Inr (w\<lparr>w_root := root, w_present := present\<rparr>))"

text \<open>
  \<^verbatim>\<open>self._present.append(ElementStatement(cls, device, *nodes, **kwargs))\<close>, the last
  statement of every element walker.
\<close>

definition append_element :: "device_class \<Rightarrow> string \<Rightarrow> string list \<Rightarrow> kwargs \<Rightarrow> walker \<Rightarrow> exn + walker" where
  "append_element cls device nodes kwargs w =
     (case ElementStatement cls device nodes kwargs of
        Inl e \<Rightarrow> Inl e
      | Inr statement \<Rightarrow> Inr (on_present (scope_append statement) w))"

section \<open>The walker\<close>

text \<open>
  \<^verbatim>\<open>walk_Device\<close>: the name of a controlled source gets the letter \<^verbatim>\<open>B\<close> in front. The
  argument is \<^verbatim>\<open>node.ast\<close>, the text of the device name.
\<close>

definition walk_Device :: "string \<Rightarrow> exn + string" where
  "walk_Device ast =
     (case ast of
        [] \<Rightarrow> Inl (IndexError ''string index out of range'')
      | c # cs \<Rightarrow> if c \<in> set ''EFGH'' then Inr (''B'' @ ast) else Inr ast)"

text \<open>
  The \<^verbatim>\<open>if l_args == 0 ... elif ... else\<close> chain of \<^verbatim>\<open>walk_BJT\<close>. It returns the locals
  \<^verbatim>\<open>nodes\<close>, \<^verbatim>\<open>kwargs\<close> and \<^verbatim>\<open>model_name\<close>; \<open>None\<close> for \<^verbatim>\<open>model_name\<close> says that no
  branch assigned it. \<^verbatim>\<open>_to_number\<close> raises nothing but the \<^verbatim>\<open>ValueError\<close> that the
  \<^verbatim>\<open>except\<close> clause takes.
\<close>

definition walk_BJT_args ::
  "string \<Rightarrow> string list \<Rightarrow> val option \<Rightarrow> string option \<Rightarrow> string list
     \<Rightarrow> exn + string list \<times> kwargs \<times> string option" where
  "walk_BJT_args dev args area substrate nodes =
     (let l_args = length args; kwargs = [] in
      if l_args = 0 then Inl (ValueError (''The device '' @ dev @ '' has no model''))
      else if l_args = 1 then Inr (nodes, kwargs, Some (args ! 0))
      else if l_args = 2 then
        (case (if area = None
               then (case to_number (args ! 1) of
                       Inr a \<Rightarrow> (Some (Num a), AList.update ''area'' (Num a) kwargs, Some (args ! 0))
                     | Inl e \<Rightarrow> (area, kwargs, None))
               else (area, kwargs, None)) of
           (area, kwargs, model_name) \<Rightarrow>
             if area = None then Inr (nodes @ [args ! 0], kwargs, Some (args ! 1))
             else Inr (nodes, kwargs, model_name))
      else if l_args = 3 then
        (case (if area = None
               then (case to_number (args ! 2) of
                       Inr a \<Rightarrow> (Some (Num a), AList.update ''area'' (Num a) kwargs, Some (args ! 1),
                                 nodes @ [args ! 0])
                     | Inl e \<Rightarrow> (area, kwargs, None, nodes))
               else (area, kwargs, None, nodes)) of
           (area, kwargs, model_name, nodes) \<Rightarrow>
             if area = None \<and> substrate = None
             then Inr (nodes @ [args ! 0, args ! 1], kwargs, Some (args ! 2))
             else Inl (ValueError (''Present device not compatible with BJT definition: '' @ dev)))
      else Inl (ValueError (''Present device not compatible with BJT definition: '' @ dev)))"

definition walk_BJT :: "bjt_node \<Rightarrow> walker \<Rightarrow> exn + walker" where
  "walk_BJT node w =
     (case walk_Device (bjt_dev node) of
        Inl e \<Rightarrow> Inl e
      | Inr device \<Rightarrow>
          (let nodes = [bjt_collector node, bjt_base node, bjt_emitter node];
               substrate = bjt_substrate node;
               nodes = (case substrate of Some s \<Rightarrow> nodes @ [s] | None \<Rightarrow> nodes);
               area = map_option Expression (bjt_area node)
           in case walk_BJT_args (bjt_dev node) (bjt_args node) area substrate nodes of
                Inl e \<Rightarrow> Inl e
              | Inr (nodes, kwargs, model_name) \<Rightarrow>
                  (let kwargs = (case bjt_parameters node of
                                   Some parameters \<Rightarrow> dict_update kwargs parameters
                                 | None \<Rightarrow> kwargs)
                   in case model_name of
                        None \<Rightarrow> Inl (UnboundLocalError ''model_name'')
                      | Some model_name \<Rightarrow>
                          (case try_on_present (scope_require_model (lower model_name)) w of
                             Inl e \<Rightarrow> Inl e
                           | Inr w \<Rightarrow>
                               append_element BipolarJunctionTransistor device nodes
                                 (AList.update ''model'' (Str model_name) kwargs) w))))"

text \<open>
  \<^verbatim>\<open>walk_Switch\<close>. With \<^verbatim>\<open>control_p\<close> absent and \<^verbatim>\<open>control_n\<close> there, no branch assigns
  \<^verbatim>\<open>nodes\<close>, and the call that reads it raises \<^verbatim>\<open>UnboundLocalError\<close>.
\<close>

definition walk_Switch :: "switch_node \<Rightarrow> walker \<Rightarrow> exn + walker" where
  "walk_Switch node w =
     (case walk_Device (sw_dev node) of
        Inl e \<Rightarrow> Inl e
      | Inr device \<Rightarrow>
          (case (case sw_model node of
                   Some model_name \<Rightarrow>
                     (case try_on_present (scope_require_model (lower model_name)) w of
                        Inl e \<Rightarrow> Inl e
                      | Inr w \<Rightarrow> Inr ([(''model'', Str model_name)], w))
                 | None \<Rightarrow> Inr ([], w)) of
             Inl e \<Rightarrow> Inl e
           | Inr (kwargs, w) \<Rightarrow>
               (let kwargs = (case sw_initial_state node of
                                Some initial_state \<Rightarrow> AList.update ''initial_state'' (Str initial_state) kwargs
                              | None \<Rightarrow> kwargs);
                    positive = sw_positive node;
                    negative = sw_negative node
                in case (case sw_control_p node of
                           Some control_p \<Rightarrow>
                             (case sw_control_n node of
                                Some control_n \<Rightarrow> Inr [positive, negative, control_p, control_n]
                              | None \<Rightarrow> Inl (ValueError ''Only one control node defined''))
                         | None \<Rightarrow>
                             (case sw_control_n node of
                                None \<Rightarrow> Inr [positive, negative]
                              | Some control_n \<Rightarrow> Inl (UnboundLocalError ''nodes''))) of
                     Inl e \<Rightarrow> Inl e
                   | Inr nodes \<Rightarrow> append_element VoltageControlledSwitch device nodes kwargs w)))"

text \<open>
  The four controlled sources. \<^verbatim>\<open>self.walk(None)\<close>, reached when neither the controller
  nor the gain is there, finds no walker but \<^verbatim>\<open>walk_object\<close>, which raises.
\<close>

definition walk_value :: "expr option \<Rightarrow> exn + expr" where
  "walk_value node =
     (case node of
        Some value \<Rightarrow> Inr value
      | None \<Rightarrow> Inl (ParseError ''No walker defined for the node: None''))"

definition walk_VoltageControlledVoltageSource :: "vcvs_node \<Rightarrow> walker \<Rightarrow> exn + walker" where
  "walk_VoltageControlledVoltageSource node w =
     (case walk_Device (e_dev node) of
        Inl e \<Rightarrow> Inl e
      | Inr device \<Rightarrow>
          if e_controller node = None \<and> e_control_positive node = None \<and>
             e_control_negative node = None \<and> e_gain node = None
          then Inl (ValueError (''Device '' @ e_dev node @ '' not properly defined''))
          else (case (case e_controller node of
                        Some controller \<Rightarrow> Inr [(''V'', Expression controller)]
                      | None \<Rightarrow>
                          (case walk_value (e_gain node) of
                             Inl e \<Rightarrow> Inl e
                           | Inr value \<Rightarrow>
                               Inr [(''V'', Expression (Mul (V (e_control_positive node)
                                                              (e_control_negative node)) value))])) of
                  Inl e \<Rightarrow> Inl e
                | Inr kwargs \<Rightarrow>
                    append_element BehavioralSource device [e_positive node, e_negative node] kwargs w))"

definition walk_VoltageControlledCurrentSource :: "vccs_node \<Rightarrow> walker \<Rightarrow> exn + walker" where
  "walk_VoltageControlledCurrentSource node w =
     (case walk_Device (g_dev node) of
        Inl e \<Rightarrow> Inl e
      | Inr device \<Rightarrow>
          if g_controller node = None \<and> g_control_positive node = None \<and>
             g_control_negative node = None \<and> g_transconductance node = None
          then Inl (ValueError (''Device '' @ g_dev node @ '' not properly defined''))
          else (case (case g_controller node of
                        Some controller \<Rightarrow> Inr [(''I'', Expression controller)]
                      | None \<Rightarrow>
                          (case walk_value (g_transconductance node) of
                             Inl e \<Rightarrow> Inl e
                           | Inr value \<Rightarrow>
                               Inr [(''I'', Expression (Mul (V (g_control_positive node)
                                                              (g_control_negative node)) value))])) of
                  Inl e \<Rightarrow> Inl e
                | Inr kwargs \<Rightarrow>
                    append_element BehavioralSource device [g_positive node, g_negative node] kwargs w))"

text \<open>
  In the two current-controlled walkers the guard also asks for \<^verbatim>\<open>node.dev is None\<close>,
  which never holds: the device name is there.
\<close>

definition walk_CurrentControlledCurrentSource :: "cccs_node \<Rightarrow> walker \<Rightarrow> exn + walker" where
  "walk_CurrentControlledCurrentSource node w =
     (case walk_Device (f_dev node) of
        Inl e \<Rightarrow> Inl e
      | Inr device \<Rightarrow>
          (case (case f_controller node of
                   Some controller \<Rightarrow> Inr [(''I'', Expression controller)]
                 | None \<Rightarrow>
                     (case walk_value (f_gain node) of
                        Inl e \<Rightarrow> Inl e
                      | Inr value \<Rightarrow> Inr [(''I'', Expression (Mul (I device) value))])) of
             Inl e \<Rightarrow> Inl e
           | Inr kwargs \<Rightarrow>
               append_element BehavioralSource device [f_positive node, f_negative node] kwargs w))"

definition walk_CurrentControlledVoltageSource :: "ccvs_node \<Rightarrow> walker \<Rightarrow> exn + walker" where
  "walk_CurrentControlledVoltageSource node w =
     (case walk_Device (h_dev node) of
        Inl e \<Rightarrow> Inl e
      | Inr device \<Rightarrow>
          (case (case h_controller node of
                   Some controller \<Rightarrow> Inr [(''V'', Expression controller)]
                 | None \<Rightarrow>
                     (case walk_value (h_transresistance node) of
                        Inl e \<Rightarrow> Inl e
                      | Inr value \<Rightarrow> Inr [(''V'', Expression (Mul (I device) value))])) of
             Inl e \<Rightarrow> Inl e
           | Inr kwargs \<Rightarrow>
               append_element BehavioralSource device [h_positive node, h_negative node] kwargs w))"

text \<open>
  \<^verbatim>\<open>walk_Subcircuit\<close>, an \<^verbatim>\<open>X\<close> line: \<^verbatim>\<open>node_node[-2]\<close> or \<^verbatim>\<open>node_node[-1]\<close> is the name
  of the subcircuit, what stands before it the nodes.
\<close>

definition walk_Subcircuit :: "subcircuit_node \<Rightarrow> walker \<Rightarrow> exn + walker" where
  "walk_Subcircuit node w =
     (case walk_Device (x_dev node) of
        Inl e \<Rightarrow> Inl e
      | Inr device \<Rightarrow>
          (let node_node = x_node node; k = (if x_params node then 2 else 1 :: nat) in
           if length node_node < k then Inl (IndexError ''list index out of range'')
           else
             (let subcircuit_name = node_node ! (length node_node - k);
                  nodes = take (length node_node - k) node_node;
                  kwargs = (case x_parameters node of
                              Some parameters \<Rightarrow> dict_update [] parameters
                            | None \<Rightarrow> [])
              in case try_on_present (scope_require_subcircuit (lower subcircuit_name)) w of
                   Inl e \<Rightarrow> Inl e
                 | Inr w \<Rightarrow> append_element SubCircuitElement device (subcircuit_name # nodes) kwargs w)))"

fun walk_MOSFET_entries :: "mosfet_entry list \<Rightarrow> kwargs \<Rightarrow> kwargs" where
  "walk_MOSFET_entries [] kwargs = kwargs"
| "walk_MOSFET_entries (Bracketed name values # rest) kwargs =
     walk_MOSFET_entries rest (AList.update name (Values values) kwargs)"
| "walk_MOSFET_entries (Keyword parameter # rest) kwargs =
     walk_MOSFET_entries rest (dict_update kwargs parameter)"

definition walk_MOSFET :: "mosfet_node \<Rightarrow> walker \<Rightarrow> exn + walker" where
  "walk_MOSFET node w =
     (case walk_Device (mos_dev node) of
        Inl e \<Rightarrow> Inl e
      | Inr device \<Rightarrow>
          (case mos_model node of
             None \<Rightarrow> Inl (ValueError (''The device '' @ mos_dev node @ '' has no model''))
           | Some model_name \<Rightarrow>
               (case try_on_present (scope_require_model (lower model_name)) w of
                  Inl e \<Rightarrow> Inl e
                | Inr w \<Rightarrow>
                    (let kwargs = [(''model'', Str model_name)];
                         kwargs = (case mos_param node of
                                     None \<Rightarrow> kwargs
                                   | Some (ParamList entries) \<Rightarrow> walk_MOSFET_entries entries kwargs
                                   | Some (ParamNode parameters) \<Rightarrow> dict_update kwargs parameters)
                     in append_element Mosfet device
                          [mos_drain node, mos_gate node, mos_source node, mos_bulk node] kwargs w))))"

text \<open>
  \<^verbatim>\<open>walk_DataCmd\<close>. \<open>stride n xs\<close> is \<^verbatim>\<open>xs[::n]\<close>, so \<^verbatim>\<open>values[idx::len(names)]\<close> is
  \<open>stride (length names) (drop idx values)\<close>; \<^verbatim>\<open>dict\<close> of a list of pairs keeps the last
  value of a repeated key. The statement goes to \<^verbatim>\<open>self._root\<close>, not to \<^verbatim>\<open>self._present\<close>.
\<close>

fun stride :: "nat \<Rightarrow> 'a list \<Rightarrow> 'a list" where
  "stride n [] = []"
| "stride n (x # xs) = x # stride n (drop (n - 1) xs)"

text \<open>
  \<^verbatim>\<open>dict([(name, [value for value in values[idx::len(names)]])
         for idx, name in enumerate(names)])\<close>.
\<close>

definition DataCmd_parameters :: "string list \<Rightarrow> expr list \<Rightarrow> (string \<times> expr list) list" where
  "DataCmd_parameters names values =
     dict_update []
       (map (\<lambda>(idx, name). (name, stride (length names) (drop idx values))) (enumerate 0 names))"

definition walk_DataCmd :: "data_node \<Rightarrow> walker \<Rightarrow> exn + walker" where
  "walk_DataCmd node w =
     (let table = dc_table node; names = dc_name node; values = dc_value node in
      if length names = 0 then Inl (ZeroDivisionError ''integer modulo by zero'')
      else if length values mod length names \<noteq> 0
      then Inl (ValueError (''The number of elements per parameter do not match (line: ''
                              @ dc_line node @ '')''))
      else
        (let parameters = DataCmd_parameters names values
         in case DataStatement table parameters of
              Inl e \<Rightarrow> Inl e
            | Inr statement \<Rightarrow> Inr (w\<lparr>w_root := appendData statement (w_root w)\<rparr>)))"

definition walk_ModelCmd :: "model_node \<Rightarrow> walker \<Rightarrow> exn + walker" where
  "walk_ModelCmd node w =
     (let parameters = (case mc_parameters node of Some parameters \<Rightarrow> parameters | None \<Rightarrow> [])
      in case ModelStatement (mc_name node) (mc_type node) parameters of
           Inl e \<Rightarrow> Inl e
         | Inr statement \<Rightarrow> Inr (on_present (scope_appendModel statement) w))"

definition walk_ParamCmd :: "kwargs option \<Rightarrow> walker \<Rightarrow> exn + walker" where
  "walk_ParamCmd node_parameters w =
     (let parameters = (case node_parameters of Some parameters \<Rightarrow> parameters | None \<Rightarrow> [])
      in case ParamStatement parameters of
           Inl e \<Rightarrow> Inl e
         | Inr statement \<Rightarrow> Inr (on_present (scope_appendParam statement) w))"

text \<open>
  The check of \<^verbatim>\<open>walk_SubcktCmd\<close> on a name given twice (\<^verbatim>\<open>isinstance(name, list) and
  len(name) == 2\<close>); the prefix is the text before the two names in the message.
\<close>

definition same_names :: "string \<Rightarrow> entry_names \<Rightarrow> exn + string" where
  "same_names prefix names =
     (case names of
        Single name \<Rightarrow> Inr name
      | Begin_End b e \<Rightarrow> if b \<noteq> e then Inl (NameError (prefix @ b @ '' != '' @ e)) else Inr b)"

text \<open>
  The check of \<^verbatim>\<open>walk_LibBlock\<close> and \<^verbatim>\<open>walk_LibCall\<close>, which is \<^verbatim>\<open>len(entries) == 2\<close>
  alone: an entry that is one name of two characters has the length 2 as well, its two
  characters are compared, and the first of them is what stays as the entry.
\<close>

definition same_entries :: "entry_names \<Rightarrow> exn + string" where
  "same_entries entries =
     (case entries of
        Begin_End b e \<Rightarrow>
          if b \<noteq> e
          then Inl (NameError (''Begin and end library entries differ: '' @ b @ '' != '' @ e))
          else Inr b
      | Single name \<Rightarrow>
          (case name of
             [b, e] \<Rightarrow>
               if b \<noteq> e
               then Inl (NameError (''Begin and end library entries differ: '' @ [b] @ '' != '' @ [e]))
               else Inr [b]
           | other \<Rightarrow> Inr name))"

definition walk_LibCall :: "libcall_node \<Rightarrow> walker \<Rightarrow> exn + walker" where
  "walk_LibCall node w =
     (case same_entries (lcn_entry node) of
        Inl e \<Rightarrow> Inl e
      | Inr entries \<Rightarrow>
          try_on_present (scope_appendLibraryCall
            \<lparr>lc_library = lcn_filename node, lc_entry = entries\<rparr>) w)"

text \<open>
  What \<^verbatim>\<open>walk_SubcktCmd\<close> does before it opens the block: the check of the name, the
  walk of \<^verbatim>\<open>node.node\<close> and of the parameters, and the call of \<^verbatim>\<open>SubCircuitStatement\<close>.
  When the line has no nodes, \<^verbatim>\<open>node.node\<close> is \<^verbatim>\<open>None\<close> and \<^verbatim>\<open>self.walk(None)\<close> raises as it
  does in the controlled sources: the test \<^verbatim>\<open>nodes is None\<close> that follows never holds.
\<close>

definition walk_SubcktCmd_statement ::
  "string \<Rightarrow> entry_names \<Rightarrow> string \<Rightarrow> string list option \<Rightarrow> kwargs option \<Rightarrow> exn + subckt" where
  "walk_SubcktCmd_statement path names line node_node node_parameters =
     (case same_names (''Begin and end library entries differ (file:'' @ path @ '', line:''
                         @ line @ ''): '') names of
        Inl e \<Rightarrow> Inl e
      | Inr name \<Rightarrow>
          (case node_node of
             None \<Rightarrow> Inl (ParseError ''No walker defined for the node: None'')
           | Some nodes \<Rightarrow>
               (case node_parameters of
                  None \<Rightarrow> SubCircuitStatement_init name nodes []
                | Some parameters \<Rightarrow> SubCircuitStatement_init name nodes parameters)))"

text \<open>
  The walk of the lines. \<^verbatim>\<open>walk_SubcktCmd\<close> and \<^verbatim>\<open>walk_LibBlock\<close> push \<^verbatim>\<open>_present\<close>, walk
  the lines of the block with the new definition as \<^verbatim>\<open>_present\<close>, pop the parent and
  append the definition to it. After the lines of a block \<^verbatim>\<open>_present\<close> is the block's
  own definition again and the stack is as it was left (\<open>walk_keeps_stack\<close> below), so
  the branches that answer \<open>unreachable\<close> are never taken.
\<close>

definition unreachable :: exn where
  "unreachable = AttributeError ''_present''"

fun walk :: "line \<Rightarrow> walker \<Rightarrow> exn + walker"
  and walk_lines :: "line list \<Rightarrow> walker \<Rightarrow> exn + walker" where
  "walk (BJT node) w = walk_BJT node w"
| "walk (Switch node) w = walk_Switch node w"
| "walk (VoltageControlledVoltageSource node) w = walk_VoltageControlledVoltageSource node w"
| "walk (VoltageControlledCurrentSource node) w = walk_VoltageControlledCurrentSource node w"
| "walk (CurrentControlledCurrentSource node) w = walk_CurrentControlledCurrentSource node w"
| "walk (CurrentControlledVoltageSource node) w = walk_CurrentControlledVoltageSource node w"
| "walk (Subcircuit node) w = walk_Subcircuit node w"
| "walk (MOSFET node) w = walk_MOSFET node w"
| "walk (DataCmd node) w = walk_DataCmd node w"
| "walk (ModelCmd node) w = walk_ModelCmd node w"
| "walk (ParamCmd node) w = walk_ParamCmd node w"
| "walk (LibCall node) w = walk_LibCall node w"
| "walk (SubcktCmd names line nodes parameters lines) w =
     (case walk_SubcktCmd_statement (w_path w) names line nodes parameters of
        Inl e \<Rightarrow> Inl e
      | Inr subckt \<Rightarrow>
          (case walk_lines lines (w\<lparr>w_context := w_present w # w_context w, w_present := Sub subckt\<rparr>) of
             Inl e \<Rightarrow> Inl e
           | Inr w' \<Rightarrow>
               (case (w_context w', w_present w') of
                  (tmp # context, Sub present) \<Rightarrow>
                    (case scope_appendSubCircuit present tmp (w_root w') of
                       (tmp, root) \<Rightarrow>
                         Inr (w'\<lparr>w_root := root, w_present := tmp, w_context := context\<rparr>))
                | other \<Rightarrow> Inl unreachable)))"
| "walk (LibBlock entry lines) w =
     (case same_entries entry of
        Inl e \<Rightarrow> Inl e
      | Inr entries \<Rightarrow>
          (let library = \<lparr>lib_entry = entries, lib_statements = [], lib_subcircuits = [],
                          lib_models = [], lib_params = []\<rparr>
           in case walk_lines lines (w\<lparr>w_context := w_present w # w_context w, w_present := Lib library\<rparr>) of
                Inl e \<Rightarrow> Inl e
              | Inr w' \<Rightarrow>
                  (case (w_context w', w_present w') of
                     (tmp # context, Lib present) \<Rightarrow>
                       (case scope_appendLibrary present tmp (w_root w') of
                          Inl e \<Rightarrow> Inl e
                        | Inr (tmp, root) \<Rightarrow>
                            Inr (w'\<lparr>w_root := root, w_present := tmp, w_context := context\<rparr>))
                   | other \<Rightarrow> Inl unreachable)))"
| "walk_lines [] w = Inr w"
| "walk_lines (l # ls) w =
     (case walk l w of
        Inl e \<Rightarrow> Inl e
      | Inr w' \<Rightarrow> walk_lines ls w')"

text \<open>
  \<^verbatim>\<open>walk_Circuit\<close> on a fresh walker (\<^verbatim>\<open>_root\<close> is \<^verbatim>\<open>None\<close>: the constructor makes one
  walker for one tree).
\<close>

definition walk_Circuit :: "string \<Rightarrow> circuit_node \<Rightarrow> exn + circuit" where
  "walk_Circuit path node =
     (case walk_lines (cn_lines node)
             \<lparr>w_path = path, w_root = CircuitStatement (cn_title node) path,
              w_present = Root, w_context = []\<rparr> of
        Inl e \<Rightarrow> Inl e
      | Inr w \<Rightarrow>
          if length (w_context w) \<noteq> 0 then Inl (ParseError (''Not closed hierarchy: '' @ path))
          else Inr (w_root w))"

section \<open>The parser object\<close>

text \<open>
  What the constructor takes from outside this file: the file system (\<^verbatim>\<open>open\<close> and
  \<^verbatim>\<open>read\<close>, with the error \<^verbatim>\<open>open\<close> raises), the generated grammar parser (with the
  exception it raises on a text it rejects), \<^verbatim>\<open>os.getcwd()\<close>, and the order in which
  the interpreter iterates a set of strings in this run.
\<close>

record environment =
  env_read :: "string \<Rightarrow> exn + string"
  env_parse :: "string \<Rightarrow> exn + circuit_node"
  env_getcwd :: string
  env_iterate :: iteration

record spice_parser =
  p_path :: string
  p_circuit :: circuit

text \<open>
  \<^verbatim>\<open>SpiceParser._check_models(self._circuit)\<close> and
  \<^verbatim>\<open>SpiceParser._sort_subcircuits(self._circuit)\<close> on the root, both with the default
  empty set; the sort assigns the root's \<^verbatim>\<open>_subcircuits\<close>.
\<close>

definition check_models_circuit :: "iteration \<Rightarrow> circuit \<Rightarrow> exn + unit" where
  "check_models_circuit iterate c = check_models iterate (scope_of c) []"

definition sort_subcircuits_circuit :: "iteration \<Rightarrow> circuit \<Rightarrow> exn + circuit" where
  "sort_subcircuits_circuit iterate c =
     (case sort_subcircuits iterate (scope_of c) [] of
        Inl e \<Rightarrow> Inl e
      | Inr (scope, required) \<Rightarrow> Inr (c\<lparr>c_subcircuits := sc_subcircuits scope\<rparr>))"

text \<open>
  \<^verbatim>\<open>SpiceParser.__init__(path, source, library)\<close>. Only the grammar parse and the two
  resolver passes stand inside a \<^verbatim>\<open>try\<close>; \<^verbatim>\<open>str(e)\<close> is the message of the exception.
\<close>

definition SpiceParser ::
  "environment \<Rightarrow> string option \<Rightarrow> string option \<Rightarrow> bool \<Rightarrow> exn + spice_parser" where
  "SpiceParser env path source library =
     (case (case path of
              Some p \<Rightarrow> env_read env p
            | None \<Rightarrow>
                (case source of
                   Some src \<Rightarrow> Inr src
                 | None \<Rightarrow> Inl (ValueError ''No path or source''))) of
        Inl e \<Rightarrow> Inl e
      | Inr raw_code \<Rightarrow>
          (case env_parse env raw_code of
             Inl e \<Rightarrow>
               (case path of
                  Some p \<Rightarrow> Inl (ParseError (p @ '': '' @ message e))
                | None \<Rightarrow> Inl (ParseError (message e)))
           | Inr model \<Rightarrow>
               (let self_path = (case path of Some p \<Rightarrow> p | None \<Rightarrow> env_getcwd env) in
                case walk_Circuit self_path model of
                  Inl e \<Rightarrow> Inl e
                | Inr circuit \<Rightarrow>
                    (let circuit =
                           (if library
                            then circuit
                                   \<lparr>c_required_models :=
                                      remdups (map (\<lambda>model. lower (m_name model)) (c_models circuit)),
                                    c_required_subcircuits :=
                                      remdups (map (\<lambda>subckt. lower (sc_name subckt)) (c_subcircuits circuit))\<rparr>
                            else circuit)
                     in case (case check_models_circuit (env_iterate env) circuit of
                                Inl e \<Rightarrow> Inl e
                              | Inr u \<Rightarrow> sort_subcircuits_circuit (env_iterate env) circuit) of
                          Inl e \<Rightarrow> Inl (ParseError (self_path @ '': '' @ message e))
                        | Inr circuit \<Rightarrow> Inr \<lparr>p_path = self_path, p_circuit = circuit\<rparr>))))"

text \<open>
  Truth values. \<^verbatim>\<open>CircuitStatement\<close> defines neither \<^verbatim>\<open>__bool__\<close> nor \<^verbatim>\<open>__len__\<close>, and
  \<^verbatim>\<open>Statement\<close>, its base, neither: an instance is true. A list is true when it is not
  empty. \<^verbatim>\<open>x and y\<close> is \<^verbatim>\<open>x\<close> when \<^verbatim>\<open>x\<close> is false, else \<^verbatim>\<open>y\<close>.
\<close>

definition truth_CircuitStatement :: "circuit \<Rightarrow> bool" where
  "truth_CircuitStatement c = True"

definition truth_list :: "'a list \<Rightarrow> bool" where
  "truth_list xs = (xs \<noteq> [])"

definition is_only_subcircuit :: "spice_parser \<Rightarrow> bool" where
  "is_only_subcircuit self =
     (if \<not> truth_CircuitStatement (p_circuit self)
      then truth_list (c_subcircuits (p_circuit self))
      else False)"

definition is_only_model :: "spice_parser \<Rightarrow> bool" where
  "is_only_model self =
     (if \<not> truth_CircuitStatement (p_circuit self)
      then (if \<not> truth_list (c_subcircuits (p_circuit self))
            then truth_list (c_models (p_circuit self))
            else False)
      else False)"

section \<open>Building the netlist\<close>

text \<open>A node handed to an element: a string, or an integer such as the ground \<open>0\<close>.\<close>

datatype pynode = NodeStr string | NodeInt int

fun str_nat :: "nat \<Rightarrow> string" where
  "str_nat n = (if n < 10 then [''0123456789'' ! n] else str_nat (n div 10) @ [''0123456789'' ! (n mod 10)])"

declare str_nat.simps [simp del]

definition str :: "pynode \<Rightarrow> string" where
  "str node =
     (case node of
        NodeStr s \<Rightarrow> s
      | NodeInt i \<Rightarrow> if i < 0 then ''-'' @ str_nat (nat (- i)) else str_nat (nat i))"

text \<open>
  \<^verbatim>\<open>ElementStatement.translate_ground_node\<close>. The list \<^verbatim>\<open>nodes\<close> it returns is never
  appended to, and the assignment in the loop is to \<^verbatim>\<open>self._node\<close>, an attribute no
  \<^verbatim>\<open>ElementStatement\<close> has.
\<close>

definition translate_ground_node :: "element \<Rightarrow> pynode \<Rightarrow> exn + pynode list" where
  "translate_ground_node self ground =
     (if \<exists>node \<in> set (el_nodes self). str (NodeStr node) = str ground
      then Inl (AttributeError ''_node'')
      else Inr [])"

text \<open>
  Modelled from the spec: the sink of \<^verbatim>\<open>build\<close>, the classes \<^verbatim>\<open>Circuit\<close> and \<^verbatim>\<open>SubCircuit\<close>
  of \<^verbatim>\<open>Netlist\<close> and the element classes of \<^verbatim>\<open>BasicElement\<close>, which are not in this file.
  The spec has the sink take \<^verbatim>\<open>parameter(name, expr)\<close>, \<^verbatim>\<open>model(name, type, **params)\<close>,
  \<^verbatim>\<open>subcircuit(result)\<close> and the instantiation of an element with its class and
  arguments; the netlist records what it was given, in order.
\<close>

record element_instance =
  i_class :: device_class
  i_name :: string
  i_nodes :: "pynode list"
  i_params :: kwargs

datatype netlist = Netlist
  (n_name: string)
  (n_nodes: "string list")
  (n_kwargs: kwargs)
  (n_parameters: "(string \<times> val) list")
  (n_models: "model_statement list")
  (n_subcircuits: "netlist list")
  (n_elements: "element_instance list")

fun netlist_parameter :: "string \<times> val \<Rightarrow> netlist \<Rightarrow> netlist" where
  "netlist_parameter kv (Netlist name nodes kwargs parameters models subcircuits elements) =
     Netlist name nodes kwargs (parameters @ [kv]) models subcircuits elements"

fun netlist_model :: "model_statement \<Rightarrow> netlist \<Rightarrow> netlist" where
  "netlist_model m (Netlist name nodes kwargs parameters models subcircuits elements) =
     Netlist name nodes kwargs parameters (models @ [m]) subcircuits elements"

fun netlist_subcircuit :: "netlist \<Rightarrow> netlist \<Rightarrow> netlist" where
  "netlist_subcircuit s (Netlist name nodes kwargs parameters models subcircuits elements) =
     Netlist name nodes kwargs parameters models (subcircuits @ [s]) elements"

fun netlist_element :: "element_instance \<Rightarrow> netlist \<Rightarrow> netlist" where
  "netlist_element i (Netlist name nodes kwargs parameters models subcircuits elements) =
     Netlist name nodes kwargs parameters models subcircuits (elements @ [i])"

text \<open>
  \<^verbatim>\<open>ElementStatement.build(circuit, ground)\<close>: the element class is called with
  \<^verbatim>\<open>self._name\<close>, \<^verbatim>\<open>*self._nodes\<close> and \<^verbatim>\<open>**self._params\<close>; \<^verbatim>\<open>ground\<close> is not read.
\<close>

definition ElementStatement_build :: "element \<Rightarrow> netlist \<Rightarrow> pynode \<Rightarrow> netlist" where
  "ElementStatement_build self circuit ground =
     netlist_element
       \<lparr>i_class = el_statement self, i_name = el_name self,
        i_nodes = map NodeStr (el_nodes self), i_params = el_params self\<rparr> circuit"

definition ParamStatement_build :: "kwargs \<Rightarrow> netlist \<Rightarrow> netlist" where
  "ParamStatement_build self circuit = fold netlist_parameter self circuit"

definition ModelStatement_build :: "model_statement \<Rightarrow> netlist \<Rightarrow> netlist" where
  "ModelStatement_build self circuit = netlist_model self circuit"

text \<open>\<^verbatim>\<open>SubCircuitStatement.build(ground, parent)\<close>.\<close>

fun SubCircuitStatement_build :: "subckt \<Rightarrow> pynode \<Rightarrow> netlist" where
  "SubCircuitStatement_build (SubCircuitStatement name nodes parameters statements subcircuits
       models required_subcircuits required_models params) ground =
     (let subcircuit = Netlist name nodes parameters [] [] [] [];
          subcircuit = fold ParamStatement_build params subcircuit;
          subcircuit = fold ModelStatement_build models subcircuit;
          subcircuit = fold (\<lambda>statement. netlist_subcircuit (SubCircuitStatement_build statement ground))
                         subcircuits subcircuit
      in fold (\<lambda>statement circuit. ElementStatement_build statement circuit ground) statements subcircuit)"

text \<open>
  \<^verbatim>\<open>LibCallStatement.build(circuit, libraries)\<close>: the subcircuits of the library are built
  and the results dropped.
\<close>

definition LibCallStatement_build ::
  "libcall_statement \<Rightarrow> netlist \<Rightarrow> (string \<times> library_statement) list \<Rightarrow> exn + netlist" where
  "LibCallStatement_build self circuit libraries =
     (case map_of libraries (lc_entry self) of
        None \<Rightarrow> Inl (KeyError (lc_entry self))
      | Some library \<Rightarrow>
          Inr (fold ModelStatement_build (lib_models library)
                 (fold ParamStatement_build (lib_params library) circuit)))"

fun build_library_calls ::
  "libcall_statement list \<Rightarrow> netlist \<Rightarrow> (string \<times> library_statement) list \<Rightarrow> exn + netlist" where
  "build_library_calls [] circuit libraries = Inr circuit"
| "build_library_calls (statement # rest) circuit libraries =
     (case LibCallStatement_build statement circuit libraries of
        Inl e \<Rightarrow> Inl e
      | Inr circuit \<Rightarrow> build_library_calls rest circuit libraries)"

text \<open>\<^verbatim>\<open>CircuitStatement.build(ground)\<close>.\<close>

definition CircuitStatement_build :: "circuit \<Rightarrow> pynode \<Rightarrow> exn + netlist" where
  "CircuitStatement_build self ground =
     (case build_library_calls (c_library_calls self) (Netlist (c_title self) [] [] [] [] [] [])
             (c_libraries self) of
        Inl e \<Rightarrow> Inl e
      | Inr circuit \<Rightarrow>
          (let circuit = fold ParamStatement_build (c_params self) circuit;
               circuit = fold ModelStatement_build (c_models self) circuit;
               circuit = fold (\<lambda>statement. netlist_subcircuit (SubCircuitStatement_build statement ground))
                           (c_subcircuits self) circuit
           in Inr (fold (\<lambda>statement circuit. ElementStatement_build statement circuit ground)
                     (c_statements self) circuit)))"

text \<open>\<^verbatim>\<open>SpiceParser.build_circuit(ground)\<close> passes \<^verbatim>\<open>str(ground)\<close> on.\<close>

definition build_circuit :: "spice_parser \<Rightarrow> pynode \<Rightarrow> exn + netlist" where
  "build_circuit self ground = CircuitStatement_build (p_circuit self) (NodeStr (str ground))"

section \<open>Order of the subcircuits\<close>

text \<open>
  What a subcircuit waits for in the sort of its parent: the names it requires that are
  not those of its own subcircuits (the value \<^verbatim>\<open>_sort_subcircuits\<close> returns for it).
\<close>

definition depends_on :: "subckt \<Rightarrow> string list" where
  "depends_on s =
     filter (\<lambda>n. n \<notin> set (map (\<lambda>c. lower (sc_name c)) (sc_subcircuits s))) (sc_required_subcircuits s)"

text \<open>
  \<open>ordered_after seen subs\<close>: every member of \<open>subs\<close> depends only on names in \<open>seen\<close>
  and on the lowercased names of the members before it.
\<close>

fun ordered_after :: "string list \<Rightarrow> subckt list \<Rightarrow> bool" where
  "ordered_after seen [] = True"
| "ordered_after seen (s # ss) =
     (list_all (\<lambda>n. n \<in> set seen) (depends_on s) \<and> ordered_after (seen @ [lower (sc_name s)]) ss)"

fun resolved :: "subckt \<Rightarrow> bool" where
  "resolved (SubCircuitStatement name nodes parameters statements subcircuits models
       required_subcircuits required_models params) =
     (ordered_after [] subcircuits \<and> (\<forall>c \<in> set subcircuits. resolved c))"

text \<open>A scope and all the scopes nested in it.\<close>

fun scopes :: "subckt \<Rightarrow> subckt list" where
  "scopes (SubCircuitStatement name nodes parameters statements subcircuits models
       required_subcircuits required_models params) =
     SubCircuitStatement name nodes parameters statements subcircuits models
       required_subcircuits required_models params # concat (map scopes subcircuits)"

text \<open>
  The subcircuits that the statements of a scope instantiate: the lowercased name of
  the subcircuit of each \<^verbatim>\<open>X\<close> element, which \<^verbatim>\<open>walk_Subcircuit\<close> puts in front of the
  nodes of the element.
\<close>

fun instance_names :: "element list \<Rightarrow> string list" where
  "instance_names [] = []"
| "instance_names (el # els) =
     (if el_statement el = SubCircuitElement \<and> el_nodes el \<noteq> []
      then lower (hd (el_nodes el)) # instance_names els
      else instance_names els)"

definition instantiated :: "subckt \<Rightarrow> string list" where
  "instantiated s = instance_names (sc_statements s)"

text \<open>
  What the walker keeps true of every subcircuit it builds, at every depth: the names
  its statements instantiate are in its \<^verbatim>\<open>_required_subcircuits\<close>.
\<close>

fun instances_recorded :: "subckt \<Rightarrow> bool" where
  "instances_recorded (SubCircuitStatement name nodes parameters statements subcircuits models
       required_subcircuits required_models params) =
     (set (instance_names statements) \<subseteq> set required_subcircuits
      \<and> (\<forall>c \<in> set subcircuits. instances_recorded c))"

section \<open>Example inputs\<close>

text \<open>
  An environment whose grammar parser answers every text with the tree of the given
  lines under the title \<open>t\<close>, that has no files, and where a set iterates in the
  order its members were added.
\<close>

definition example_environment :: "line list \<Rightarrow> environment" where
  "example_environment lines =
     \<lparr>env_read = (\<lambda>p. Inl (OSError p)),
      env_parse = (\<lambda>text. Inr \<lparr>cn_title = ''t'', cn_lines = lines\<rparr>),
      env_getcwd = ''/'',
      env_iterate = (\<lambda>members. members)\<rparr>"

text \<open>
  Three subcircuits in the order \<^verbatim>\<open>A\<close>, \<^verbatim>\<open>B\<close>, \<^verbatim>\<open>C\<close>: \<^verbatim>\<open>B\<close> holds \<^verbatim>\<open>X1 1 2 A\<close> and \<^verbatim>\<open>C\<close>
  holds \<^verbatim>\<open>X1 1 2 B\<close>.
\<close>

definition abc_lines :: "line list" where
  "abc_lines =
     [SubcktCmd (Single ''A'') ''2'' (Some [''1'', ''2'']) None [],
      SubcktCmd (Single ''B'') ''4'' (Some [''1'', ''2'']) None
        [Subcircuit \<lparr>x_dev = ''X1'', x_node = [''1'', ''2'', ''A''], x_params = False, x_parameters = None\<rparr>],
      SubcktCmd (Single ''C'') ''7'' (Some [''1'', ''2'']) None
        [Subcircuit \<lparr>x_dev = ''X1'', x_node = [''1'', ''2'', ''B''], x_params = False, x_parameters = None\<rparr>]]"

section \<open>The walker keeps its stack\<close>

text \<open>
  The class of the object a reference points to, and what a walker method leaves as it
  found it: the stack \<^verbatim>\<open>_context\<close> and the class of \<^verbatim>\<open>_present\<close>.
\<close>

fun kind :: "scope_ref \<Rightarrow> nat" where
  "kind Root = 0"
| "kind (Sub s) = 1"
| "kind (Lib l) = 2"

definition same_frame :: "walker \<Rightarrow> walker \<Rightarrow> bool" where
  "same_frame w w' = (w_context w' = w_context w \<and> kind (w_present w') = kind (w_present w))"

text \<open>
  The same of the subcircuits a walker holds: those of the root, the one that is open
  and those that wait on the stack.
\<close>

fun ref_recorded :: "scope_ref \<Rightarrow> bool" where
  "ref_recorded Root = True"
| "ref_recorded (Sub s) = instances_recorded s"
| "ref_recorded (Lib l) = True"

definition walker_recorded :: "walker \<Rightarrow> bool" where
  "walker_recorded w =
     ((\<forall>c \<in> set (c_subcircuits (w_root w)). instances_recorded c)
      \<and> ref_recorded (w_present w)
      \<and> (\<forall>r \<in> set (w_context w). ref_recorded r))"

section \<open>More example inputs\<close>

text \<open>The statements of the scope \<^verbatim>\<open>_present\<close> points to.\<close>

definition present_statements :: "walker \<Rightarrow> element list" where
  "present_statements w =
     (case w_present w of
        Root \<Rightarrow> c_statements (w_root w)
      | Sub s \<Rightarrow> sc_statements s
      | Lib l \<Rightarrow> lib_statements l)"

text \<open>The walker as \<^verbatim>\<open>walk_Circuit\<close> starts it, for the title \<open>t\<close> and the path \<open>/\<close>.\<close>

definition fresh_walker :: walker where
  "fresh_walker =
     \<lparr>w_path = ''/'', w_root = CircuitStatement ''t'' ''/'', w_present = Root, w_context = []\<rparr>"

text \<open>A file of nothing but a \<^verbatim>\<open>.model\<close> statement.\<close>

definition model_only_lines :: "line list" where
  "model_only_lines = [ModelCmd \<lparr>mc_name = ''NMOD'', mc_type = ''NMOS'', mc_parameters = None\<rparr>]"

text \<open>
  \<^verbatim>\<open>S1 out 0 ctl 0 SW\<close>, the same with only the positive and with only the negative
  control node, and \<^verbatim>\<open>S1 out 0 SW\<close>.
\<close>

definition switch_line :: "string option \<Rightarrow> string option \<Rightarrow> switch_node" where
  "switch_line control_p control_n =
     \<lparr>sw_dev = ''S1'', sw_model = Some ''SW'', sw_initial_state = None,
      sw_positive = ''out'', sw_negative = ''0'',
      sw_control_p = control_p, sw_control_n = control_n\<rparr>"

text \<open>
  \<^verbatim>\<open>Q1 c b e\<close> followed by the given positional arguments, with the value of \<^verbatim>\<open>area=\<close>
  when the line has one.
\<close>

definition bjt_line :: "string list \<Rightarrow> expr option \<Rightarrow> bjt_node" where
  "bjt_line args area =
     \<lparr>bjt_dev = ''Q1'', bjt_args = args, bjt_collector = ''c'', bjt_base = ''b'',
      bjt_emitter = ''e'', bjt_substrate = None, bjt_area = area, bjt_parameters = None\<rparr>"

text \<open>\<^verbatim>\<open>S1 in gnd SW\<close> with its \<^verbatim>\<open>.model\<close>: a circuit whose ground node is called \<^verbatim>\<open>gnd\<close>.\<close>

definition ground_lines :: "line list" where
  "ground_lines =
     [Switch \<lparr>sw_dev = ''S1'', sw_model = Some ''SW'', sw_initial_state = None,
              sw_positive = ''in'', sw_negative = ''gnd'',
              sw_control_p = None, sw_control_n = None\<rparr>,
      ModelCmd \<lparr>mc_name = ''SW'', mc_type = ''SW'', mc_parameters = None\<rparr>]"

text \<open>
  \<^verbatim>\<open>E1 out 0 cp cn 2\<close>, the state of the walker after it and the element it puts there.
\<close>

definition vcvs_line :: vcvs_node where
  "vcvs_line =
     \<lparr>e_dev = ''E1'', e_controller = None, e_control_positive = Some ''cp'',
      e_control_negative = Some ''cn'', e_gain = Some (Walked ''2''),
      e_positive = ''out'', e_negative = ''0''\<rparr>"

definition vcvs_element :: element where
  "vcvs_element =
     \<lparr>el_statement = BehavioralSource, el_prefix = CHR ''B'', el_name = ''E1'',
      el_nodes = [''out'', ''0''],
      el_params = [(''V'', Expression (Mul (V (Some ''cp'') (Some ''cn'')) (Walked ''2'')))]\<rparr>"

definition vcvs_walked :: walker where
  "vcvs_walked = fresh_walker\<lparr>w_root := (w_root fresh_walker)\<lparr>c_statements := [vcvs_element]\<rparr>\<rparr>"

text \<open>A keyword parameter of an element is populated when the dict has the key.\<close>

definition populated :: "string \<Rightarrow> element \<Rightarrow> bool" where
  "populated key el = (map_of (el_params el) key \<noteq> None)"

text \<open>\<^verbatim>\<open>M1 d g s b UNKMOD\<close> in a file with no \<^verbatim>\<open>.model\<close>.\<close>

definition unkmod_lines :: "line list" where
  "unkmod_lines =
     [MOSFET \<lparr>mos_dev = ''M1'', mos_model = Some ''UNKMOD'', mos_param = None,
              mos_drain = ''d'', mos_gate = ''g'', mos_source = ''s'', mos_bulk = ''b''\<rparr>]"

section \<open>What the model check asks for\<close>

text \<open>
  The scopes that the model check visits from a scope, each with the set of models it
  has accumulated: the lowercased names of the models inherited from the enclosing
  scopes and of the models defined in the scope itself. The subcircuits inherit what
  the scope has accumulated.
\<close>

fun model_scopes :: "subckt \<Rightarrow> string list \<Rightarrow> (subckt \<times> string list) list" where
  "model_scopes (SubCircuitStatement name nodes parameters statements subcircuits models
       required_subcircuits required_models params) inherited =
     (let accumulated = map lower inherited @ map (\<lambda>model. lower (m_name model)) models
      in (SubCircuitStatement name nodes parameters statements subcircuits models
            required_subcircuits required_models params, accumulated)
         # concat (map (\<lambda>subcircuit. model_scopes subcircuit accumulated) subcircuits))"

text \<open>An order of iteration is fair when a loop over a set meets the members of the set.\<close>

definition fair :: "iteration \<Rightarrow> bool" where
  "fair iterate = (\<forall>members. set (iterate members) = set members)"

text \<open>The circuit that the walk of \<open>unkmod_lines\<close> gives.\<close>

definition unkmod_circuit :: circuit where
  "unkmod_circuit =
     (CircuitStatement ''t'' ''/'')
       \<lparr>c_statements :=
          [\<lparr>el_statement = Mosfet, el_prefix = CHR ''M'', el_name = ''1'',
            el_nodes = [''d'', ''g'', ''s'', ''b''], el_params = [(''model'', Str ''UNKMOD'')]\<rparr>],
        c_required_models := [''unkmod'']\<rparr>"

text \<open>
  Two subcircuits that instantiate each other, and a file with no cycle: \<^verbatim>\<open>X\<close> at the
  top, and \<^verbatim>\<open>P\<close> with a nested \<^verbatim>\<open>Q\<close> that holds \<^verbatim>\<open>X1 a b X\<close> and is instantiated by
  \<^verbatim>\<open>X2 a b Q\<close> in \<^verbatim>\<open>P\<close>. The third has the same \<^verbatim>\<open>Q\<close> beside \<^verbatim>\<open>X\<close> at the top.
\<close>

definition instance_of :: "string \<Rightarrow> string \<Rightarrow> line" where
  "instance_of dev name =
     Subcircuit \<lparr>x_dev = dev, x_node = [''a'', ''b'', name], x_params = False, x_parameters = None\<rparr>"

definition cyclic_lines :: "line list" where
  "cyclic_lines =
     [SubcktCmd (Single ''A'') ''2'' (Some [''a'', ''b'']) None [instance_of ''X1'' ''B''],
      SubcktCmd (Single ''B'') ''5'' (Some [''a'', ''b'']) None [instance_of ''X1'' ''A'']]"

definition nested_lines :: "line list" where
  "nested_lines =
     [SubcktCmd (Single ''X'') ''2'' (Some [''a'', ''b'']) None [],
      SubcktCmd (Single ''P'') ''4'' (Some [''a'', ''b'']) None
        [SubcktCmd (Single ''Q'') ''5'' (Some [''a'', ''b'']) None [instance_of ''X1'' ''X''],
         instance_of ''X2'' ''Q'']]"

definition flat_lines :: "line list" where
  "flat_lines =
     [SubcktCmd (Single ''X'') ''2'' (Some [''a'', ''b'']) None [],
      SubcktCmd (Single ''Q'') ''4'' (Some [''a'', ''b'']) None [instance_of ''X1'' ''X'']]"



text \<open>
  \<^verbatim>\<open>.subckt A\<close> closed by \<^verbatim>\<open>.ends B\<close>, \<^verbatim>\<open>.lib L\<close> closed by \<^verbatim>\<open>.endl M\<close>, and a switch with
  one control node.
\<close>

definition subckt_mismatch_lines :: "line list" where
  "subckt_mismatch_lines = [SubcktCmd (Begin_End ''A'' ''B'') ''2'' (Some [''a'', ''b'']) None []]"

definition lib_mismatch_lines :: "line list" where
  "lib_mismatch_lines = [LibBlock (Begin_End ''L'' ''M'') []]"

definition half_switch_lines :: "line list" where
  "half_switch_lines = [Switch (switch_line (Some ''ctl'') None)]"

text \<open>
  What a parser holds when it was constructed: the subcircuits of the root, and those
  kept in its \<^verbatim>\<open>.lib\<close> blocks.
\<close>

definition parsed_subcircuits :: "exn + spice_parser \<Rightarrow> subckt list" where
  "parsed_subcircuits r =
     (case r of
        Inl e \<Rightarrow> []
      | Inr self \<Rightarrow> c_subcircuits (p_circuit self))"

definition parsed_library_subcircuits :: "exn + spice_parser \<Rightarrow> subckt list" where
  "parsed_library_subcircuits r =
     (case r of
        Inl e \<Rightarrow> []
      | Inr self \<Rightarrow> concat (map (\<lambda>(entry, library). lib_subcircuits library) (c_libraries (p_circuit self))))"

text \<open>
  A subcircuit \<^verbatim>\<open>S\<close> that defines \<^verbatim>\<open>B\<close>, which holds \<^verbatim>\<open>X1 a b A\<close>, and then \<^verbatim>\<open>A\<close>; the
  file that has \<^verbatim>\<open>S\<close> at the top, and the file that has it in the block \<^verbatim>\<open>.lib typ\<close>.
\<close>

definition unsorted_subckt :: line where
  "unsorted_subckt =
     SubcktCmd (Single ''S'') ''2'' (Some [''a'', ''b'']) None
       [SubcktCmd (Single ''B'') ''3'' (Some [''a'', ''b'']) None [instance_of ''X1'' ''A''],
        SubcktCmd (Single ''A'') ''6'' (Some [''a'', ''b'']) None []]"

definition top_unsorted_lines :: "line list" where
  "top_unsorted_lines = [unsorted_subckt]"

definition lib_unsorted_lines :: "line list" where
  "lib_unsorted_lines = [LibBlock (Single ''typ'') [unsorted_subckt]]"

text \<open>
  \<^verbatim>\<open>M1 d g s b NOPE\<close> in a subcircuit \<^verbatim>\<open>S\<close>, in a file with no \<^verbatim>\<open>.model\<close>: \<^verbatim>\<open>S\<close> at the
  top, and \<^verbatim>\<open>S\<close> in the block \<^verbatim>\<open>.lib typ\<close>.
\<close>

definition nope_subckt :: line where
  "nope_subckt =
     SubcktCmd (Single ''S'') ''2'' (Some [''a'', ''b'']) None
       [MOSFET \<lparr>mos_dev = ''M1'', mos_model = Some ''NOPE'', mos_param = None,
                mos_drain = ''d'', mos_gate = ''g'', mos_source = ''s'', mos_bulk = ''b''\<rparr>]"

definition top_nope_lines :: "line list" where
  "top_nope_lines = [nope_subckt]"

definition lib_nope_lines :: "line list" where
  "lib_nope_lines = [LibBlock (Single ''typ'') [nope_subckt]]"

text \<open>
  \<^verbatim>\<open>.model SW SW\<close> and \<^verbatim>\<open>S1 out 0 ctl 0 SW\<close> (or \<^verbatim>\<open>S1 out 0 SW\<close>): at the top of the
  file, in a \<^verbatim>\<open>.subckt\<close> block, and in the block \<^verbatim>\<open>.lib typ\<close>.
\<close>

definition switch_with_model :: "string option \<Rightarrow> string option \<Rightarrow> line list" where
  "switch_with_model control_p control_n =
     [ModelCmd \<lparr>mc_name = ''SW'', mc_type = ''SW'', mc_parameters = None\<rparr>,
      Switch (switch_line control_p control_n)]"

definition top_switch_lines :: "string option \<Rightarrow> string option \<Rightarrow> line list" where
  "top_switch_lines control_p control_n = switch_with_model control_p control_n"

definition subckt_switch_lines :: "string option \<Rightarrow> string option \<Rightarrow> line list" where
  "subckt_switch_lines control_p control_n =
     [SubcktCmd (Single ''S'') ''2'' (Some [''a'', ''b'']) None (switch_with_model control_p control_n)]"

definition lib_switch_lines :: "string option \<Rightarrow> string option \<Rightarrow> line list" where
  "lib_switch_lines control_p control_n =
     [LibBlock (Single ''typ'') (switch_with_model control_p control_n)]"

text \<open>
  \<^verbatim>\<open>G1 out 0 cp cn 2\<close>, \<^verbatim>\<open>F1 out 0 Vs 2\<close> and \<^verbatim>\<open>H1 out 0 Vs 2\<close>, and \<^verbatim>\<open>e1 out 0 cp cn 2\<close>
  with a small letter.
\<close>

definition vccs_line :: vccs_node where
  "vccs_line =
     \<lparr>g_dev = ''G1'', g_controller = None, g_control_positive = Some ''cp'',
      g_control_negative = Some ''cn'', g_transconductance = Some (Walked ''2''),
      g_positive = ''out'', g_negative = ''0''\<rparr>"

definition cccs_line :: cccs_node where
  "cccs_line =
     \<lparr>f_dev = ''F1'', f_controller = None, f_gain = Some (Walked ''2''),
      f_positive = ''out'', f_negative = ''0''\<rparr>"

definition ccvs_line :: ccvs_node where
  "ccvs_line =
     \<lparr>h_dev = ''H1'', h_controller = None, h_gain = None, h_transresistance = Some (Walked ''2''),
      h_positive = ''out'', h_negative = ''0''\<rparr>"

definition lower_vcvs_line :: vcvs_node where
  "lower_vcvs_line = vcvs_line\<lparr>e_dev := ''e1''\<rparr>"


section \<open>The subcircuit sort is sound\<close>

lemma ordered_after_append:
  "ordered_after seen (xs @ [s]) =
     (ordered_after seen xs \<and> list_all (\<lambda>n. n \<in> set (seen @ map (\<lambda>c. lower (sc_name c)) xs)) (depends_on s))"
  by (induction xs arbitrary: seen) auto

lemma sort_pass_invariant:
  assumes "sort_pass items result names = (kept, result', names')"
    and "\<forall>(s, d) \<in> set items. d = depends_on s"
    and "names = map (\<lambda>c. lower (sc_name c)) result"
    and "ordered_after [] result"
  shows "names' = map (\<lambda>c. lower (sc_name c)) result' \<and> ordered_after [] result'
       \<and> set kept \<subseteq> set items
       \<and> mset (map fst kept) + mset result' = mset (map fst items) + mset result
       \<and> length kept \<le> length items"
  using assms
proof (induction items arbitrary: result names kept result' names')
  case Nil
  then show ?case by auto
next
  case (Cons it items)
  obtain s d where it: "it = (s, d)" by (cases it)
  show ?case
  proof (cases "list_all (\<lambda>name. name \<in> set names) d")
    case True
    with Cons.prems it have run: "sort_pass items (result @ [s]) (names @ [lower (sc_name s)]) = (kept, result', names')"
      by simp
    from Cons.prems it have d: "d = depends_on s" by simp
    have ord: "ordered_after [] (result @ [s])"
      using True d Cons.prems(3,4) by (simp add: ordered_after_append)
    have "names' = map (\<lambda>c. lower (sc_name c)) result' \<and> ordered_after [] result'
       \<and> set kept \<subseteq> set items
       \<and> mset (map fst kept) + mset result' = mset (map fst items) + mset (result @ [s])
       \<and> length kept \<le> length items"
      using Cons.IH [OF run _ _ ord] Cons.prems(2,3) by simp
    then show ?thesis using it by auto
  next
    case False
    obtain k r n where rec: "sort_pass items result names = (k, r, n)"
      by (cases "sort_pass items result names") auto
    with False Cons.prems it have eqs: "kept = (s, d) # k" "result' = r" "names' = n"
      by simp_all
    have "n = map (\<lambda>c. lower (sc_name c)) r \<and> ordered_after [] r
       \<and> set k \<subseteq> set items
       \<and> mset (map fst k) + mset r = mset (map fst items) + mset result
       \<and> length k \<le> length items"
      using Cons.IH [OF rec _ Cons.prems(3,4)] Cons.prems(2) by simp
    then show ?thesis using it eqs by auto
  qed
qed

lemma sort_loop_invariant:
  assumes "sort_loop items previous result names = (items', result')"
    and "\<forall>(s, d) \<in> set items. d = depends_on s"
    and "names = map (\<lambda>c. lower (sc_name c)) result"
    and "ordered_after [] result"
  shows "ordered_after [] result'
       \<and> set items' \<subseteq> set items
       \<and> mset (map fst items') + mset result' = mset (map fst items) + mset result"
  using assms
proof (induction items previous result names rule: sort_loop.induct)
  case (1 items previous result names)
  show ?case
  proof (cases "0 < length items \<and> length items < previous")
    case True
    obtain k r n where pass: "sort_pass items result names = (k, r, n)"
      by (cases "sort_pass items result names") auto
    from sort_pass_invariant [OF pass "1.prems"(2,3,4)]
    have inv: "n = map (\<lambda>c. lower (sc_name c)) r" "ordered_after [] r" "set k \<subseteq> set items"
      "mset (map fst k) + mset r = mset (map fst items) + mset result"
      by simp_all
    from True pass "1.prems"(1) have run: "sort_loop k (length items) r n = (items', result')"
      by (simp add: sort_loop.simps [of items])
    have kd: "\<forall>(s, d) \<in> set k. d = depends_on s"
      using inv(3) "1.prems"(2) by blast
    from "1.IH" [OF True pass [symmetric] refl run kd inv(1,2)] inv(3,4)
    show ?thesis by auto
  next
    case False
    with "1.prems" show ?thesis by (auto simp add: sort_loop.simps [of items])
  qed
qed

lemma sort_subcircuits_sound:
  "(\<forall>s' r. sort_subcircuits iterate s av = Inr (s', r) \<longrightarrow>
      resolved s' \<and> r = depends_on s' \<and> sc_name s' = sc_name s
      \<and> mset (map (\<lambda>c. lower (sc_name c)) (sc_subcircuits s')) = mset (map (\<lambda>c. lower (sc_name c)) (sc_subcircuits s))
      \<and> (instances_recorded s \<longrightarrow> instances_recorded s'))"
  "(\<forall>deps. sort_subcircuits_each iterate ss av = Inr deps \<longrightarrow>
      (\<forall>(s', d) \<in> set deps. resolved s' \<and> d = depends_on s'
          \<and> ((\<forall>c \<in> set ss. instances_recorded c) \<longrightarrow> instances_recorded s'))
      \<and> map (\<lambda>it. lower (sc_name (fst it))) deps = map (\<lambda>c. lower (sc_name c)) ss)"
proof (induction iterate s av and iterate ss av rule: sort_subcircuits_sort_subcircuits_each.induct)
  case (1 iterate name nodes parameters statements subcircuits models required_subcircuits required_models params available_subcircuits)
  let ?names = "map (\<lambda>c. lower (sc_name c)) subcircuits"
  let ?avail = "map lower available_subcircuits @ ?names"
  let ?self = "SubCircuitStatement name nodes parameters statements subcircuits
        models required_subcircuits required_models params"
  show ?case
  proof (intro allI impI)
    fix s' r
    assume ok: "sort_subcircuits iterate ?self available_subcircuits = Inr (s', r)"
    then obtain deps where deps: "sort_subcircuits_each iterate subcircuits ?avail = Inr deps"
      by (auto simp: Let_def split: sum.splits)
    let ?items = "sort_key (\<lambda>item. length (remdups (snd item))) deps"
    obtain items' result where loop: "sort_loop ?items (length ?items + 1) [] [] = (items', result)"
      by (cases "sort_loop ?items (length ?items + 1) [] []") auto
    from ok deps loop have empty: "items' = []"
      and s': "s' = SubCircuitStatement name nodes parameters statements result models
                 required_subcircuits required_models params"
      and r: "r = filter (\<lambda>n. n \<notin> set ?names) required_subcircuits"
      by (auto simp: Let_def split: sum.splits option.splits if_splits)
    from "1.IH" [OF refl refl] deps
    have each: "\<forall>(c, d) \<in> set deps. resolved c \<and> d = depends_on c
                  \<and> ((\<forall>c \<in> set subcircuits. instances_recorded c) \<longrightarrow> instances_recorded c)"
      and names: "map (\<lambda>it. lower (sc_name (fst it))) deps = ?names"
      by blast+
    have items_dep: "\<forall>(c, d) \<in> set ?items. d = depends_on c"
      using each by auto
    from sort_loop_invariant [OF loop items_dep] empty
    have ord: "ordered_after [] result" and ms: "mset result = mset (map fst ?items)"
      by simp_all
    have ms': "mset result = mset (map fst deps)"
      using ms by simp
    have "mset (map (\<lambda>c. lower (sc_name c)) result) = mset (map (\<lambda>c. lower (sc_name c)) (map fst deps))"
      using ms' by (metis mset_map)
    also have "map (\<lambda>c. lower (sc_name c)) (map fst deps) = ?names"
      using names by (simp add: comp_def)
    finally have nm: "mset (map (\<lambda>c. lower (sc_name c)) result) = mset ?names" .
    then have setnm: "set (map (\<lambda>c. lower (sc_name c)) result) = set ?names"
      by (metis set_mset_mset)
    have mem: "\<And>c. c \<in> set result \<Longrightarrow> c \<in> set (map fst deps)"
      using ms' by (metis set_mset_mset)
    have res: "\<forall>c \<in> set result. resolved c"
    proof
      fix c assume "c \<in> set result"
      from mem [OF this] show "resolved c" using each by auto
    qed
    have rec: "instances_recorded ?self \<longrightarrow> instances_recorded s'"
    proof
      assume a: "instances_recorded ?self"
      then have all: "\<forall>c \<in> set subcircuits. instances_recorded c" by simp
      have "\<forall>c \<in> set result. instances_recorded c"
      proof
        fix c assume "c \<in> set result"
        from mem [OF this] show "instances_recorded c" using each all by auto
      qed
      with a show "instances_recorded s'" by (simp add: s')
    qed
    have "resolved s' \<and> r = depends_on s' \<and> sc_name s' = sc_name ?self \<and>
          mset (map (\<lambda>c. lower (sc_name c)) (sc_subcircuits s')) =
          mset (map (\<lambda>c. lower (sc_name c)) (sc_subcircuits ?self))"
      using s' r ord res nm setnm by (simp add: depends_on_def)
    with rec show "resolved s' \<and> r = depends_on s' \<and> sc_name s' = sc_name ?self \<and>
          mset (map (\<lambda>c. lower (sc_name c)) (sc_subcircuits s')) =
          mset (map (\<lambda>c. lower (sc_name c)) (sc_subcircuits ?self)) \<and>
          (instances_recorded ?self \<longrightarrow> instances_recorded s')"
      by blast
  qed
next
  case (2 iterate available_subcircuits)
  then show ?case by simp
next
  case (3 iterate subcircuit rest available_subcircuits)
  show ?case
  proof (intro allI impI)
    fix deps
    assume ok: "sort_subcircuits_each iterate (subcircuit # rest) available_subcircuits = Inr deps"
    then obtain c' r' deps' where
      c: "sort_subcircuits iterate subcircuit available_subcircuits = Inr (c', r')"
      and d: "sort_subcircuits_each iterate rest available_subcircuits = Inr deps'"
      and eq: "deps = (c', r') # deps'"
      by (auto split: sum.splits)
    from "3.IH"(1) c have h1: "resolved c' \<and> r' = depends_on c' \<and> sc_name c' = sc_name subcircuit
        \<and> (instances_recorded subcircuit \<longrightarrow> instances_recorded c')"
      by blast
    from "3.IH"(2) [OF c refl] d
    have h2: "(\<forall>(s', d) \<in> set deps'. resolved s' \<and> d = depends_on s'
          \<and> ((\<forall>c \<in> set rest. instances_recorded c) \<longrightarrow> instances_recorded s'))
      \<and> map (\<lambda>it. lower (sc_name (fst it))) deps' = map (\<lambda>c. lower (sc_name c)) rest"
      by blast
    show "(\<forall>(s', d) \<in> set deps. resolved s' \<and> d = depends_on s'
          \<and> ((\<forall>c \<in> set (subcircuit # rest). instances_recorded c) \<longrightarrow> instances_recorded s'))
      \<and> map (\<lambda>it. lower (sc_name (fst it))) deps = map (\<lambda>c. lower (sc_name c)) (subcircuit # rest)"
      using h1 h2 eq by auto
  qed
qed

lemma ordered_after_index:
  "ordered_after seen subs \<Longrightarrow> i < length subs \<Longrightarrow> n \<in> set (depends_on (subs ! i)) \<Longrightarrow>
     n \<in> set seen \<or> (\<exists>j < i. lower (sc_name (subs ! j)) = n)"
proof (induction subs arbitrary: seen i)
  case Nil
  then show ?case by simp
next
  case (Cons s subs)
  show ?case
  proof (cases i)
    case 0
    with Cons.prems show ?thesis by (auto simp: list_all_iff)
  next
    case (Suc k)
    with Cons.prems have "ordered_after (seen @ [lower (sc_name s)]) subs" "k < length subs"
      "n \<in> set (depends_on (subs ! k))"
      by simp_all
    from Cons.IH [OF this]
    have "n \<in> set seen \<or> n = lower (sc_name s) \<or> (\<exists>j<k. lower (sc_name (subs ! j)) = n)"
      by auto
    then show ?thesis
    proof (elim disjE)
      assume "n \<in> set seen" then show ?thesis by simp
    next
      assume "n = lower (sc_name s)"
      then have "0 < i \<and> lower (sc_name ((s # subs) ! 0)) = n" using Suc by simp
      then show ?thesis by blast
    next
      assume "\<exists>j<k. lower (sc_name (subs ! j)) = n"
      then obtain j where "j < k" "lower (sc_name (subs ! j)) = n" by blast
      then have "Suc j < i \<and> lower (sc_name ((s # subs) ! Suc j)) = n" using Suc by simp
      then show ?thesis by blast
    qed
  qed
qed

lemma resolved_scopes:
  "resolved s \<Longrightarrow> t \<in> set (scopes s) \<Longrightarrow> ordered_after [] (sc_subcircuits t)"
proof (induction s arbitrary: t rule: resolved.induct)
  case (1 name nodes parameters statements subcircuits models required_subcircuits required_models params)
  from "1.prems"(2) consider
    "t = SubCircuitStatement name nodes parameters statements subcircuits models
       required_subcircuits required_models params"
    | c where "c \<in> set subcircuits" "t \<in> set (scopes c)"
    by auto
  then show ?case
  proof cases
    case 1
    then show ?thesis using "1.prems"(1) by simp
  next
    case 2
    then show ?thesis using "1.IH" [of c t] "1.prems"(1) by simp
  qed
qed

lemma sort_subcircuits_fields:
  assumes "sort_subcircuits iterate s av = Inr (s', r)"
  shows "s' = SubCircuitStatement (sc_name s) (sc_nodes s) (sc_parameters s) (sc_statements s)
               (sc_subcircuits s') (sc_models s) (sc_required_subcircuits s) (sc_required_models s)
               (sc_params s)"
  using assms by (cases s) (auto simp: Let_def split: sum.splits option.splits prod.splits if_splits)

lemma sort_subcircuits_circuit_resolved:
  assumes "sort_subcircuits_circuit iterate c = Inr c'"
  shows "resolved (scope_of c')"
    and "(\<forall>s \<in> set (c_subcircuits c). instances_recorded s) \<Longrightarrow>
           (\<forall>s \<in> set (c_subcircuits c'). instances_recorded s)"
proof -
  from assms obtain s r where s: "sort_subcircuits iterate (scope_of c) [] = Inr (s, r)"
    and c': "c' = c\<lparr>c_subcircuits := sc_subcircuits s\<rparr>"
    by (auto simp: sort_subcircuits_circuit_def split: sum.splits)
  from sort_subcircuits_sound(1) [of iterate "scope_of c" "[]"] s have "resolved s" by blast
  moreover from sort_subcircuits_fields [OF s] c' have eq: "scope_of c' = s"
    by (simp add: scope_of_def)
  ultimately show "resolved (scope_of c')" by simp
  assume all: "\<forall>s \<in> set (c_subcircuits c). instances_recorded s"
  obtain deps where deps: "sort_subcircuits_each iterate (c_subcircuits c)
      (map lower [] @ map (\<lambda>subcircuit. lower (sc_name subcircuit)) (c_subcircuits c)) = Inr deps"
    using s by (auto simp: scope_of_def Let_def split: sum.splits)
  let ?items = "sort_key (\<lambda>item. length (remdups (snd item))) deps"
  obtain items' result where loop: "sort_loop ?items (length ?items + 1) [] [] = (items', result)"
    by (cases "sort_loop ?items (length ?items + 1) [] []") auto
  from s deps loop have empty: "items' = []" and res: "sc_subcircuits s = result"
    by (auto simp: scope_of_def Let_def split: sum.splits option.splits if_splits)
  from sort_subcircuits_sound(2) [of iterate "c_subcircuits c"] deps all
  have each: "\<forall>(s', d) \<in> set deps. d = depends_on s' \<and> instances_recorded s'"
    by blast
  then have items_dep: "\<forall>(c, d) \<in> set ?items. d = depends_on c"
    by auto
  from sort_loop_invariant [OF loop items_dep] empty
  have "mset result = mset (map fst ?items)" by simp
  then have "mset result = mset (map fst deps)" by simp
  then have mem: "\<And>x. x \<in> set result \<Longrightarrow> x \<in> set (map fst deps)"
    by (metis set_mset_mset)
  show "\<forall>s \<in> set (c_subcircuits c'). instances_recorded s"
  proof
    fix x assume "x \<in> set (c_subcircuits c')"
    then have "x \<in> set result" using c' res by simp
    from mem [OF this] show "instances_recorded x" using each by auto
  qed
qed

lemma SpiceParser_sorted:
  assumes "SpiceParser env path source library = Inr self"
  shows "\<exists>c c0 p tree. sort_subcircuits_circuit (env_iterate env) c = Inr (p_circuit self)
           \<and> walk_Circuit p tree = Inr c0 \<and> c_subcircuits c = c_subcircuits c0"
proof -
  let ?p = "case path of Some p \<Rightarrow> p | None \<Rightarrow> env_getcwd env"
  let ?raw = "case path of
                Some p \<Rightarrow> env_read env p
              | None \<Rightarrow> (case source of
                           Some src \<Rightarrow> Inr src
                         | None \<Rightarrow> Inl (ValueError ''No path or source''))"
  from assms obtain raw where raw: "?raw = Inr raw"
    by (cases ?raw) (simp_all add: SpiceParser_def)
  from assms raw obtain tree where tree: "env_parse env raw = Inr tree"
    by (cases "env_parse env raw") (auto simp: SpiceParser_def split: option.splits)
  from assms raw tree obtain c0 where c0: "walk_Circuit ?p tree = Inr c0"
    by (cases "walk_Circuit ?p tree") (simp_all add: SpiceParser_def Let_def)
  let ?c = "if library
            then c0\<lparr>c_required_models := remdups (map (\<lambda>model. lower (m_name model)) (c_models c0)),
                    c_required_subcircuits := remdups (map (\<lambda>subckt. lower (sc_name subckt)) (c_subcircuits c0))\<rparr>
            else c0"
  from assms raw tree c0 have "sort_subcircuits_circuit (env_iterate env) ?c = Inr (p_circuit self)"
    by (auto simp: SpiceParser_def Let_def split: sum.splits if_splits)
  moreover have "c_subcircuits ?c = c_subcircuits c0" by simp
  ultimately show ?thesis using c0 by blast
qed

lemmas walker_defs = walk_Circuit_def walk_SubcktCmd_statement_def SubCircuitStatement_init_def
  same_names_def walk_Subcircuit_def walk_Device_def
  try_on_present_def on_present_def append_element_def ElementStatement_def given_twice_def
  dict_update_def set_add_def CircuitStatement_def lower_def lower_char_def Let_def

lemma abc_walk:
  "walk_Circuit p \<lparr>cn_title = t, cn_lines = abc_lines\<rparr> =
     Inr ((CircuitStatement t p)\<lparr>c_subcircuits :=
       [SubCircuitStatement ''A'' [''1'', ''2''] [] [] [] [] [] [] [],
        SubCircuitStatement ''B'' [''1'', ''2''] []
          [\<lparr>el_statement = SubCircuitElement, el_prefix = CHR ''X'', el_name = ''1'',
            el_nodes = [''A'', ''1'', ''2''], el_params = []\<rparr>] [] [] [''a''] [] [],
        SubCircuitStatement ''C'' [''1'', ''2''] []
          [\<lparr>el_statement = SubCircuitElement, el_prefix = CHR ''X'', el_name = ''1'',
            el_nodes = [''B'', ''1'', ''2''], el_params = []\<rparr>] [] [] [''b''] [] []]\<rparr>)"
  by (simp add: abc_lines_def walker_defs)

lemma abc_sorted:
  assumes "env_parse env = (\<lambda>text. Inr \<lparr>cn_title = t, cn_lines = abc_lines\<rparr>)"
    and "SpiceParser env path source library = Inr self"
  shows "map sc_name (c_subcircuits (p_circuit self)) = [''A'', ''B'', ''C'']"
  using assms
  by (cases library)
     (auto simp: SpiceParser_def abc_walk Let_def check_models_circuit_def
        sort_subcircuits_circuit_def scope_of_def CircuitStatement_def lower_def lower_char_def
        sort_loop.simps
        split: sum.splits option.splits if_splits)

lemma abc_constructed:
  "\<exists>self. SpiceParser (example_environment abc_lines) None (Some ''src'') False = Inr self"
proof -
  have "case SpiceParser (example_environment abc_lines) None (Some ''src'') False of
          Inl e \<Rightarrow> False
        | Inr self \<Rightarrow> True"
    by code_simp
  then show ?thesis
    by (cases "SpiceParser (example_environment abc_lines) None (Some ''src'') False") simp_all
qed

section \<open>The stack discipline of the walker\<close>

lemma same_frame_refl [simp]: "same_frame w w"
  by (simp add: same_frame_def)

lemma same_frame_trans: "same_frame w w' \<Longrightarrow> same_frame w' w'' \<Longrightarrow> same_frame w w''"
  by (simp add: same_frame_def)

lemma on_present_frame:
  assumes "\<And>r c. kind (fst (m r c)) = kind r"
  shows "same_frame w (on_present m w)"
  using assms [of "w_present w" "w_root w"]
  by (auto simp: on_present_def same_frame_def split: prod.splits)

lemma try_on_present_frame:
  assumes "\<And>r c r' c'. m r c = Inr (r', c') \<Longrightarrow> kind r' = kind r"
    and "try_on_present m w = Inr w'"
  shows "same_frame w w'"
  using assms
  by (auto simp: try_on_present_def same_frame_def split: sum.splits prod.splits)

lemma try_on_present_error:
  assumes "\<And>r c. m r c \<noteq> Inl unreachable"
  shows "try_on_present m w \<noteq> Inl unreachable"
  using assms [of "w_present w" "w_root w"]
  by (auto simp: try_on_present_def split: sum.splits prod.splits)

lemma kind_scope_append [simp]: "kind (fst (scope_append e r c)) = kind r"
  by (cases r) simp_all

lemma kind_scope_appendModel [simp]: "kind (fst (scope_appendModel e r c)) = kind r"
  by (cases r) simp_all

lemma kind_scope_appendParam [simp]: "kind (fst (scope_appendParam e r c)) = kind r"
  by (cases r) simp_all

lemma kind_scope_require_model: "scope_require_model m r c = Inr (r', c') \<Longrightarrow> kind r' = kind r"
  by (cases r) auto

lemma kind_scope_require_subcircuit: "scope_require_subcircuit m r c = Inr (r', c') \<Longrightarrow> kind r' = kind r"
  by (cases r) auto

lemma kind_scope_appendLibraryCall: "scope_appendLibraryCall m r c = Inr (r', c') \<Longrightarrow> kind r' = kind r"
  by (cases r) auto

lemma scope_require_model_error [simp]: "scope_require_model m r c \<noteq> Inl unreachable"
  by (cases r) (simp_all add: unreachable_def)

lemma scope_require_subcircuit_error [simp]: "scope_require_subcircuit m r c \<noteq> Inl unreachable"
  by (cases r) (simp_all add: unreachable_def)

lemma scope_appendLibraryCall_error [simp]: "scope_appendLibraryCall m r c \<noteq> Inl unreachable"
  by (cases r) (simp_all add: unreachable_def)

lemma scope_appendLibrary_error [simp]: "scope_appendLibrary m r c \<noteq> Inl unreachable"
  by (cases r) (simp_all add: unreachable_def)

lemma require_model_frame:
  "try_on_present (scope_require_model m) w = Inr w' \<Longrightarrow> same_frame w w'"
  by (erule try_on_present_frame [rotated]) (rule kind_scope_require_model)

lemma require_model_error [simp]:
  "try_on_present (scope_require_model m) w \<noteq> Inl unreachable"
  by (rule try_on_present_error) simp

lemma require_subcircuit_frame:
  "try_on_present (scope_require_subcircuit m) w = Inr w' \<Longrightarrow> same_frame w w'"
  by (erule try_on_present_frame [rotated]) (rule kind_scope_require_subcircuit)

lemma require_subcircuit_error [simp]:
  "try_on_present (scope_require_subcircuit m) w \<noteq> Inl unreachable"
  by (rule try_on_present_error) simp

lemma append_element_frame:
  "append_element cls device nodes kwargs w = Inr w' \<Longrightarrow> same_frame w w'"
  by (auto simp: append_element_def intro!: on_present_frame split: sum.splits)

lemma append_element_error [simp]:
  "append_element cls device nodes kwargs w \<noteq> Inl unreachable"
  by (auto simp: append_element_def ElementStatement_def unreachable_def
      split: sum.splits list.splits if_splits)

lemma walk_Device_error [simp]: "walk_Device d \<noteq> Inl unreachable"
  by (auto simp: walk_Device_def unreachable_def split: list.splits)

lemma walk_BJT_args_error [simp]: "walk_BJT_args d a ar s n \<noteq> Inl unreachable"
  by (auto simp: walk_BJT_args_def unreachable_def Let_def split: sum.splits prod.splits if_splits)

lemma walk_BJT_frame:
  "(walk_BJT node w = Inr w' \<longrightarrow> same_frame w w') \<and> walk_BJT node w \<noteq> Inl unreachable"
proof -
  have "walk_BJT node w \<noteq> Inl unreachable"
    by (auto simp: walk_BJT_def Let_def split: sum.splits prod.splits option.splits)
       (simp_all add: unreachable_def)
  moreover have "walk_BJT node w = Inr w' \<longrightarrow> same_frame w w'"
    by (auto simp: walk_BJT_def Let_def
        dest!: require_model_frame append_element_frame intro: same_frame_trans
        split: sum.splits prod.splits option.splits)
  ultimately show ?thesis by blast
qed

lemma walk_Switch_frame:
  "(walk_Switch node w = Inr w' \<longrightarrow> same_frame w w') \<and> walk_Switch node w \<noteq> Inl unreachable"
proof -
  have "walk_Switch node w \<noteq> Inl unreachable"
    by (auto simp: walk_Switch_def Let_def split: sum.splits prod.splits option.splits)
       (simp_all add: unreachable_def)
  moreover have "walk_Switch node w = Inr w' \<longrightarrow> same_frame w w'"
    by (auto simp: walk_Switch_def Let_def
        dest!: require_model_frame append_element_frame intro: same_frame_trans
        split: sum.splits prod.splits option.splits)
  ultimately show ?thesis by blast
qed

lemma walk_value_error [simp]: "walk_value v \<noteq> Inl unreachable"
  by (simp add: walk_value_def unreachable_def split: option.splits)

lemma walk_VoltageControlledVoltageSource_frame:
  "(walk_VoltageControlledVoltageSource node w = Inr w' \<longrightarrow> same_frame w w')
   \<and> walk_VoltageControlledVoltageSource node w \<noteq> Inl unreachable"
proof -
  have "walk_VoltageControlledVoltageSource node w \<noteq> Inl unreachable"
    by (auto simp: walk_VoltageControlledVoltageSource_def split: sum.splits option.splits)
       (simp_all add: unreachable_def)
  moreover have "walk_VoltageControlledVoltageSource node w = Inr w' \<longrightarrow> same_frame w w'"
    by (auto simp: walk_VoltageControlledVoltageSource_def
        dest!: append_element_frame split: sum.splits option.splits if_splits)
  ultimately show ?thesis by blast
qed

lemma walk_VoltageControlledCurrentSource_frame:
  "(walk_VoltageControlledCurrentSource node w = Inr w' \<longrightarrow> same_frame w w')
   \<and> walk_VoltageControlledCurrentSource node w \<noteq> Inl unreachable"
proof -
  have "walk_VoltageControlledCurrentSource node w \<noteq> Inl unreachable"
    by (auto simp: walk_VoltageControlledCurrentSource_def split: sum.splits option.splits)
       (simp_all add: unreachable_def)
  moreover have "walk_VoltageControlledCurrentSource node w = Inr w' \<longrightarrow> same_frame w w'"
    by (auto simp: walk_VoltageControlledCurrentSource_def
        dest!: append_element_frame split: sum.splits option.splits if_splits)
  ultimately show ?thesis by blast
qed

lemma walk_CurrentControlledCurrentSource_frame:
  "(walk_CurrentControlledCurrentSource node w = Inr w' \<longrightarrow> same_frame w w')
   \<and> walk_CurrentControlledCurrentSource node w \<noteq> Inl unreachable"
proof -
  have "walk_CurrentControlledCurrentSource node w \<noteq> Inl unreachable"
    by (auto simp: walk_CurrentControlledCurrentSource_def split: sum.splits option.splits)
  moreover have "walk_CurrentControlledCurrentSource node w = Inr w' \<longrightarrow> same_frame w w'"
    by (auto simp: walk_CurrentControlledCurrentSource_def
        dest!: append_element_frame split: sum.splits option.splits if_splits)
  ultimately show ?thesis by blast
qed

lemma walk_CurrentControlledVoltageSource_frame:
  "(walk_CurrentControlledVoltageSource node w = Inr w' \<longrightarrow> same_frame w w')
   \<and> walk_CurrentControlledVoltageSource node w \<noteq> Inl unreachable"
proof -
  have "walk_CurrentControlledVoltageSource node w \<noteq> Inl unreachable"
    by (auto simp: walk_CurrentControlledVoltageSource_def split: sum.splits option.splits)
  moreover have "walk_CurrentControlledVoltageSource node w = Inr w' \<longrightarrow> same_frame w w'"
    by (auto simp: walk_CurrentControlledVoltageSource_def
        dest!: append_element_frame split: sum.splits option.splits if_splits)
  ultimately show ?thesis by blast
qed

lemma walk_Subcircuit_frame:
  "(walk_Subcircuit node w = Inr w' \<longrightarrow> same_frame w w') \<and> walk_Subcircuit node w \<noteq> Inl unreachable"
proof -
  have "walk_Subcircuit node w \<noteq> Inl unreachable"
    by (auto simp: walk_Subcircuit_def Let_def split: sum.splits option.splits)
       (simp_all add: unreachable_def)
  moreover have "walk_Subcircuit node w = Inr w' \<longrightarrow> same_frame w w'"
    by (auto simp: walk_Subcircuit_def Let_def
        dest!: require_subcircuit_frame append_element_frame intro: same_frame_trans
        split: sum.splits option.splits if_splits)
  ultimately show ?thesis by blast
qed

lemma walk_MOSFET_frame:
  "(walk_MOSFET node w = Inr w' \<longrightarrow> same_frame w w') \<and> walk_MOSFET node w \<noteq> Inl unreachable"
proof -
  have "walk_MOSFET node w \<noteq> Inl unreachable"
    by (auto simp: walk_MOSFET_def Let_def split: sum.splits option.splits)
       (simp_all add: unreachable_def)
  moreover have "walk_MOSFET node w = Inr w' \<longrightarrow> same_frame w w'"
    by (auto simp: walk_MOSFET_def Let_def
        dest!: require_model_frame append_element_frame intro: same_frame_trans
        split: sum.splits option.splits if_splits)
  ultimately show ?thesis by blast
qed

lemma walk_DataCmd_frame:
  "(walk_DataCmd node w = Inr w' \<longrightarrow> same_frame w w') \<and> walk_DataCmd node w \<noteq> Inl unreachable"
  by (auto simp: walk_DataCmd_def DataStatement_def Let_def same_frame_def unreachable_def
      split: if_splits sum.splits)

lemma walk_ModelCmd_frame:
  "(walk_ModelCmd node w = Inr w' \<longrightarrow> same_frame w w') \<and> walk_ModelCmd node w \<noteq> Inl unreachable"
  by (auto simp: walk_ModelCmd_def ModelStatement_def Let_def unreachable_def
      intro!: on_present_frame split: if_splits sum.splits)

lemma walk_ParamCmd_frame:
  "(walk_ParamCmd node w = Inr w' \<longrightarrow> same_frame w w') \<and> walk_ParamCmd node w \<noteq> Inl unreachable"
  by (auto simp: walk_ParamCmd_def ParamStatement_def Let_def unreachable_def
      intro!: on_present_frame split: if_splits sum.splits)

lemma same_names_error [simp]: "same_names p n \<noteq> Inl unreachable"
  by (auto simp: same_names_def unreachable_def split: entry_names.splits)

lemma same_entries_error [simp]: "same_entries n \<noteq> Inl unreachable"
  by (auto simp: same_entries_def unreachable_def split: entry_names.splits list.splits)

lemma walk_SubcktCmd_statement_error [simp]:
  "walk_SubcktCmd_statement p names line nodes parameters \<noteq> Inl unreachable"
  by (auto simp: walk_SubcktCmd_statement_def SubCircuitStatement_init_def same_names_def
      unreachable_def split: sum.splits option.splits entry_names.splits if_splits)

lemma walk_LibCall_frame:
  "(walk_LibCall node w = Inr w' \<longrightarrow> same_frame w w') \<and> walk_LibCall node w \<noteq> Inl unreachable"
proof -
  have "walk_LibCall node w \<noteq> Inl unreachable"
    by (auto simp: walk_LibCall_def intro!: try_on_present_error split: sum.splits)
  moreover have "walk_LibCall node w = Inr w' \<longrightarrow> same_frame w w'"
    by (auto simp: walk_LibCall_def split: sum.splits
        elim!: try_on_present_frame [rotated] dest: kind_scope_appendLibraryCall)
  ultimately show ?thesis by blast
qed


lemma kind_scope_appendSubCircuit [simp]: "kind (fst (scope_appendSubCircuit e r c)) = kind r"
  by (cases r) simp_all

lemma kind_scope_appendLibrary: "scope_appendLibrary m r c = Inr (r', c') \<Longrightarrow> kind r' = kind r"
  by (cases r) auto

lemma kind_Sub: "kind r = 1 \<Longrightarrow> \<exists>s. r = Sub s"
  by (cases r) simp_all

lemma kind_Lib: "kind r = 2 \<Longrightarrow> \<exists>l. r = Lib l"
  by (cases r) simp_all

lemma walk_frame:
  "(\<forall>w'. walk l w = Inr w' \<longrightarrow> same_frame w w') \<and> walk l w \<noteq> Inl unreachable"
  "(\<forall>w'. walk_lines ls w = Inr w' \<longrightarrow> same_frame w w') \<and> walk_lines ls w \<noteq> Inl unreachable"
proof (induction l w and ls w rule: walk_walk_lines.induct)
  case (13 names line nodes parameters lines w)
  show ?case
  proof (cases "walk_SubcktCmd_statement (w_path w) names line nodes parameters")
    case (Inl e)
    then show ?thesis
      using walk_SubcktCmd_statement_error [of "w_path w" names line nodes parameters] by auto
  next
    case (Inr subckt)
    let ?w1 = "w\<lparr>w_context := w_present w # w_context w, w_present := Sub subckt\<rparr>"
    from "13.IH" [OF Inr]
    have ih: "\<forall>w'. walk_lines lines ?w1 = Inr w' \<longrightarrow> same_frame ?w1 w'"
      and ne: "walk_lines lines ?w1 \<noteq> Inl unreachable"
      by blast+
    show ?thesis
    proof (cases "walk_lines lines ?w1")
      case (Inl e)
      with Inr ne show ?thesis by (simp add: Let_def)
    next
      case inner: (Inr w1')
      with ih have fr: "w_context w1' = w_present w # w_context w" "kind (w_present w1') = 1"
        by (simp_all add: same_frame_def)
      from kind_Sub [OF fr(2)] obtain p where p: "w_present w1' = Sub p" by blast
      obtain tmp root where app: "scope_appendSubCircuit p (w_present w) (w_root w1') = (tmp, root)"
        by (cases "scope_appendSubCircuit p (w_present w) (w_root w1')") auto
      have k: "kind tmp = kind (w_present w)"
        using kind_scope_appendSubCircuit [of p "w_present w" "w_root w1'"] app by simp
      from Inr inner fr(1) p app
      have "walk (SubcktCmd names line nodes parameters lines) w =
              Inr (w1'\<lparr>w_root := root, w_present := tmp, w_context := w_context w\<rparr>)"
        by (simp add: Let_def)
      then show ?thesis using k by (simp add: same_frame_def)
    qed
  qed
next
  case (14 entry lines w)
  show ?case
  proof (cases "same_entries entry")
    case (Inl e)
    then show ?thesis using same_entries_error [of entry] by auto
  next
    case (Inr entries)
    let ?library = "\<lparr>lib_entry = entries, lib_statements = [], lib_subcircuits = [],
                      lib_models = [], lib_params = []\<rparr>"
    let ?w1 = "w\<lparr>w_context := w_present w # w_context w, w_present := Lib ?library\<rparr>"
    from "14.IH" [OF Inr refl]
    have ih: "\<forall>w'. walk_lines lines ?w1 = Inr w' \<longrightarrow> same_frame ?w1 w'"
      and ne: "walk_lines lines ?w1 \<noteq> Inl unreachable"
      by blast+
    show ?thesis
    proof (cases "walk_lines lines ?w1")
      case (Inl e)
      with Inr ne show ?thesis by (simp add: Let_def)
    next
      case inner: (Inr w1')
      with ih have fr: "w_context w1' = w_present w # w_context w" "kind (w_present w1') = 2"
        by (simp_all add: same_frame_def)
      from kind_Lib [OF fr(2)] obtain p where p: "w_present w1' = Lib p" by blast
      show ?thesis
      proof (cases "scope_appendLibrary p (w_present w) (w_root w1')")
        case (Inl e)
        with Inr inner fr(1) p
        have "walk (LibBlock entry lines) w = Inl e" by (simp add: Let_def)
        moreover from Inl have "e \<noteq> unreachable"
          using scope_appendLibrary_error [of p "w_present w" "w_root w1'"] by auto
        ultimately show ?thesis by simp
      next
        case app: (Inr res)
        obtain tmp root where res: "res = (tmp, root)" by (cases res)
        with app have k: "kind tmp = kind (w_present w)"
          by (auto dest: kind_scope_appendLibrary)
        from Inr inner fr(1) p app res
        have "walk (LibBlock entry lines) w =
                Inr (w1'\<lparr>w_root := root, w_present := tmp, w_context := w_context w\<rparr>)"
          by (simp add: Let_def)
        then show ?thesis using k by (simp add: same_frame_def)
      qed
    qed
  qed
next
  case (15 w)
  then show ?case by simp
next
  case (16 l ls w)
  show ?case
  proof (cases "walk l w")
    case (Inl e)
    with "16.IH"(1) show ?thesis by auto
  next
    case (Inr w1)
    with "16.IH"(1) have f1: "same_frame w w1" by blast
    from "16.IH"(2) [OF Inr]
    have "(\<forall>w'. walk_lines ls w1 = Inr w' \<longrightarrow> same_frame w1 w') \<and> walk_lines ls w1 \<noteq> Inl unreachable" .
    with Inr f1 show ?thesis by (auto intro: same_frame_trans)
  qed
qed (simp_all add: walk_BJT_frame walk_Switch_frame walk_VoltageControlledVoltageSource_frame
      walk_VoltageControlledCurrentSource_frame walk_CurrentControlledCurrentSource_frame
      walk_CurrentControlledVoltageSource_frame walk_Subcircuit_frame walk_MOSFET_frame
      walk_DataCmd_frame walk_ModelCmd_frame walk_ParamCmd_frame walk_LibCall_frame)


text \<open>
  The lines of a block leave the stack and the class of \<^verbatim>\<open>_present\<close> as they were, so
  no walk ever takes a branch marked \<open>unreachable\<close>.
\<close>

lemma walk_keeps_stack:
  "walk_lines ls w \<noteq> Inl unreachable"
  "walk_lines ls w = Inr w' \<Longrightarrow> w_context w' = w_context w \<and> kind (w_present w') = kind (w_present w)"
  using walk_frame(2) [of ls w] by (auto simp: same_frame_def)

section \<open>The walker records what is instantiated\<close>

lemma instance_names_append:
  "instance_names (xs @ ys) = instance_names xs @ instance_names ys"
  by (induction xs) simp_all

lemma instances_recorded_required:
  "instances_recorded s \<Longrightarrow> set (instantiated s) \<subseteq> set (sc_required_subcircuits s)"
  by (cases s) (simp add: instantiated_def)

lemma recorded_append_other:
  assumes "el_statement el \<noteq> SubCircuitElement" and "walker_recorded w"
  shows "walker_recorded (on_present (scope_append el) w)"
proof (cases "w_present w")
  case Root
  with assms show ?thesis by (simp add: walker_recorded_def on_present_def)
next
  case (Sub s)
  with assms show ?thesis
    by (cases s) (simp add: walker_recorded_def on_present_def instance_names_append)
next
  case (Lib l)
  with assms show ?thesis by (simp add: walker_recorded_def on_present_def)
qed

lemma recorded_append_instance:
  assumes "el_nodes el = n # ns"
    and "\<forall>s. w_present w = Sub s \<longrightarrow> lower n \<in> set (sc_required_subcircuits s)"
    and "walker_recorded w"
  shows "walker_recorded (on_present (scope_append el) w)"
proof (cases "w_present w")
  case Root
  with assms show ?thesis by (simp add: walker_recorded_def on_present_def)
next
  case (Sub s)
  with assms show ?thesis
    by (cases s) (simp add: walker_recorded_def on_present_def instance_names_append)
next
  case (Lib l)
  with assms show ?thesis by (simp add: walker_recorded_def on_present_def)
qed

lemma recorded_require_model:
  assumes "try_on_present (scope_require_model m) w = Inr w'" and "walker_recorded w"
  shows "walker_recorded w'"
proof (cases "w_present w")
  case Root
  with assms show ?thesis by (auto simp: walker_recorded_def try_on_present_def)
next
  case (Sub s)
  with assms show ?thesis
    by (cases s) (auto simp: walker_recorded_def try_on_present_def)
next
  case (Lib l)
  with assms show ?thesis by (auto simp: walker_recorded_def try_on_present_def)
qed

lemma recorded_require_subcircuit:
  assumes "try_on_present (scope_require_subcircuit n) w = Inr w'" and "walker_recorded w"
  shows "walker_recorded w' \<and> (\<forall>s. w_present w' = Sub s \<longrightarrow> n \<in> set (sc_required_subcircuits s))"
proof (cases "w_present w")
  case Root
  with assms show ?thesis by (auto simp: walker_recorded_def try_on_present_def)
next
  case (Sub s)
  with assms show ?thesis
    by (cases s) (auto simp: walker_recorded_def try_on_present_def set_add_def)
next
  case (Lib l)
  with assms show ?thesis by (auto simp: walker_recorded_def try_on_present_def)
qed

lemma recorded_appendModel:
  assumes "walker_recorded w"
  shows "walker_recorded (on_present (scope_appendModel m) w)"
proof (cases "w_present w")
  case Root
  with assms show ?thesis by (simp add: walker_recorded_def on_present_def)
next
  case (Sub s)
  with assms show ?thesis by (cases s) (simp add: walker_recorded_def on_present_def)
next
  case (Lib l)
  with assms show ?thesis by (simp add: walker_recorded_def on_present_def)
qed

lemma recorded_appendParam:
  assumes "walker_recorded w"
  shows "walker_recorded (on_present (scope_appendParam m) w)"
proof (cases "w_present w")
  case Root
  with assms show ?thesis by (simp add: walker_recorded_def on_present_def)
next
  case (Sub s)
  with assms show ?thesis by (cases s) (simp add: walker_recorded_def on_present_def)
next
  case (Lib l)
  with assms show ?thesis by (simp add: walker_recorded_def on_present_def)
qed

lemma recorded_appendLibraryCall:
  assumes "try_on_present (scope_appendLibraryCall c) w = Inr w'" and "walker_recorded w"
  shows "walker_recorded w'"
  using assms
  by (cases "w_present w") (auto simp: walker_recorded_def try_on_present_def)

lemma append_element_recorded:
  assumes "append_element cls device nodes kwargs w = Inr w'"
    and "cls \<noteq> SubCircuitElement" and "walker_recorded w"
  shows "walker_recorded w'"
proof -
  from assms(1) obtain el where el: "ElementStatement cls device nodes kwargs = Inr el"
    and w': "w' = on_present (scope_append el) w"
    by (auto simp: append_element_def split: sum.splits)
  from el have "el_statement el = cls"
    by (auto simp: ElementStatement_def split: if_splits list.splits)
  with assms(2,3) show ?thesis unfolding w' by (intro recorded_append_other) simp_all
qed

lemma append_instance_recorded:
  assumes "append_element cls device (n # ns) kwargs w = Inr w'"
    and "\<forall>s. w_present w = Sub s \<longrightarrow> lower n \<in> set (sc_required_subcircuits s)"
    and "walker_recorded w"
  shows "walker_recorded w'"
proof -
  from assms(1) obtain el where el: "ElementStatement cls device (n # ns) kwargs = Inr el"
    and w': "w' = on_present (scope_append el) w"
    by (auto simp: append_element_def split: sum.splits)
  from el have "el_nodes el = n # ns"
    by (auto simp: ElementStatement_def split: if_splits list.splits)
  from recorded_append_instance [OF this assms(2,3)] show ?thesis unfolding w' .
qed

lemma walk_BJT_recorded:
  assumes "walk_BJT node w = Inr w'" and "walker_recorded w"
  shows "walker_recorded w'"
proof -
  from assms(1) obtain m w1 device nodes kwargs where
    "try_on_present (scope_require_model m) w = Inr w1"
    "append_element BipolarJunctionTransistor device nodes kwargs w1 = Inr w'"
    by (auto simp: walk_BJT_def Let_def split: sum.splits prod.splits option.splits)
  then show ?thesis
    using assms(2) by (auto dest!: recorded_require_model intro: append_element_recorded)
qed

lemma walk_Switch_recorded:
  assumes "walk_Switch node w = Inr w'" and "walker_recorded w"
  shows "walker_recorded w'"
proof (cases "sw_model node")
  case None
  with assms(1) obtain device nodes kwargs where
    "append_element VoltageControlledSwitch device nodes kwargs w = Inr w'"
    by (auto simp: walk_Switch_def Let_def split: sum.splits prod.splits option.splits)
  then show ?thesis
    using assms(2) by (auto intro: append_element_recorded)
next
  case (Some m)
  with assms(1) obtain w1 device nodes kwargs where
    "try_on_present (scope_require_model (lower m)) w = Inr w1"
    "append_element VoltageControlledSwitch device nodes kwargs w1 = Inr w'"
    by (auto simp: walk_Switch_def Let_def split: sum.splits prod.splits option.splits)
  then show ?thesis
    using assms(2) by (auto dest!: recorded_require_model intro: append_element_recorded)
qed

lemma walk_VoltageControlledVoltageSource_recorded:
  assumes "walk_VoltageControlledVoltageSource node w = Inr w'" and "walker_recorded w"
  shows "walker_recorded w'"
proof -
  from assms(1) obtain device nodes kwargs where
    "append_element BehavioralSource device nodes kwargs w = Inr w'"
    by (auto simp: walk_VoltageControlledVoltageSource_def split: sum.splits option.splits if_splits)
  then show ?thesis using assms(2) by (auto intro: append_element_recorded)
qed

lemma walk_VoltageControlledCurrentSource_recorded:
  assumes "walk_VoltageControlledCurrentSource node w = Inr w'" and "walker_recorded w"
  shows "walker_recorded w'"
proof -
  from assms(1) obtain device nodes kwargs where
    "append_element BehavioralSource device nodes kwargs w = Inr w'"
    by (auto simp: walk_VoltageControlledCurrentSource_def split: sum.splits option.splits if_splits)
  then show ?thesis using assms(2) by (auto intro: append_element_recorded)
qed

lemma walk_CurrentControlledCurrentSource_recorded:
  assumes "walk_CurrentControlledCurrentSource node w = Inr w'" and "walker_recorded w"
  shows "walker_recorded w'"
proof -
  from assms(1) obtain device nodes kwargs where
    "append_element BehavioralSource device nodes kwargs w = Inr w'"
    by (auto simp: walk_CurrentControlledCurrentSource_def split: sum.splits option.splits if_splits)
  then show ?thesis using assms(2) by (auto intro: append_element_recorded)
qed

lemma walk_CurrentControlledVoltageSource_recorded:
  assumes "walk_CurrentControlledVoltageSource node w = Inr w'" and "walker_recorded w"
  shows "walker_recorded w'"
proof -
  from assms(1) obtain device nodes kwargs where
    "append_element BehavioralSource device nodes kwargs w = Inr w'"
    by (auto simp: walk_CurrentControlledVoltageSource_def split: sum.splits option.splits if_splits)
  then show ?thesis using assms(2) by (auto intro: append_element_recorded)
qed

lemma walk_Subcircuit_recorded:
  assumes "walk_Subcircuit node w = Inr w'" and "walker_recorded w"
  shows "walker_recorded w'"
proof -
  from assms(1) obtain n w1 device ns kwargs where
    req: "try_on_present (scope_require_subcircuit (lower n)) w = Inr w1"
    and app: "append_element SubCircuitElement device (n # ns) kwargs w1 = Inr w'"
    by (auto simp: walk_Subcircuit_def Let_def split: sum.splits option.splits if_splits)
  from recorded_require_subcircuit [OF req assms(2)]
  have "walker_recorded w1" "\<forall>s. w_present w1 = Sub s \<longrightarrow> lower n \<in> set (sc_required_subcircuits s)"
    by simp_all
  from append_instance_recorded [OF app this(2,1)] show ?thesis .
qed

lemma walk_MOSFET_recorded:
  assumes "walk_MOSFET node w = Inr w'" and "walker_recorded w"
  shows "walker_recorded w'"
proof -
  from assms(1) obtain m w1 device nodes kwargs where
    "try_on_present (scope_require_model m) w = Inr w1"
    "append_element Mosfet device nodes kwargs w1 = Inr w'"
    by (auto simp: walk_MOSFET_def Let_def split: sum.splits option.splits)
  then show ?thesis
    using assms(2) by (auto dest!: recorded_require_model intro: append_element_recorded)
qed

lemma walk_DataCmd_recorded:
  assumes "walk_DataCmd node w = Inr w'" and "walker_recorded w"
  shows "walker_recorded w'"
  using assms
  by (auto simp: walk_DataCmd_def Let_def walker_recorded_def appendData_def
      split: if_splits sum.splits)

lemma walk_ModelCmd_recorded:
  assumes "walk_ModelCmd node w = Inr w'" and "walker_recorded w"
  shows "walker_recorded w'"
  using assms
  by (auto simp: walk_ModelCmd_def Let_def intro: recorded_appendModel split: sum.splits)

lemma walk_ParamCmd_recorded:
  assumes "walk_ParamCmd node w = Inr w'" and "walker_recorded w"
  shows "walker_recorded w'"
  using assms
  by (auto simp: walk_ParamCmd_def Let_def intro: recorded_appendParam split: sum.splits)

lemma walk_LibCall_recorded:
  assumes "walk_LibCall node w = Inr w'" and "walker_recorded w"
  shows "walker_recorded w'"
  using assms
  by (auto simp: walk_LibCall_def dest: recorded_appendLibraryCall split: sum.splits)

lemma walk_SubcktCmd_statement_recorded:
  assumes "walk_SubcktCmd_statement p names line nodes parameters = Inr subckt"
  shows "instances_recorded subckt"
  using assms
  by (auto simp: walk_SubcktCmd_statement_def SubCircuitStatement_init_def
      split: sum.splits option.splits if_splits)

lemma appendSubCircuit_recorded:
  assumes "scope_appendSubCircuit p r c = (tmp, root)"
    and "instances_recorded p" and "ref_recorded r"
    and "\<forall>x \<in> set (c_subcircuits c). instances_recorded x"
  shows "ref_recorded tmp \<and> (\<forall>x \<in> set (c_subcircuits root). instances_recorded x)"
proof (cases r)
  case Root
  with assms show ?thesis by auto
next
  case (Sub s)
  with assms show ?thesis by (cases s) auto
next
  case (Lib l)
  with assms show ?thesis by auto
qed

lemma appendLibrary_recorded:
  assumes "scope_appendLibrary p r c = Inr (tmp, root)"
    and "\<forall>x \<in> set (c_subcircuits c). instances_recorded x"
  shows "ref_recorded tmp \<and> (\<forall>x \<in> set (c_subcircuits root). instances_recorded x)"
  using assms by (cases r) auto

lemma walk_recorded:
  "\<forall>w'. walk l w = Inr w' \<longrightarrow> walker_recorded w \<longrightarrow> walker_recorded w'"
  "\<forall>w'. walk_lines ls w = Inr w' \<longrightarrow> walker_recorded w \<longrightarrow> walker_recorded w'"
proof (induction l w and ls w rule: walk_walk_lines.induct)
  case (13 names line nodes parameters lines w)
  show ?case
  proof (intro allI impI)
    fix w'
    assume ok: "walk (SubcktCmd names line nodes parameters lines) w = Inr w'"
      and rec: "walker_recorded w"
    from ok obtain subckt where
      st: "walk_SubcktCmd_statement (w_path w) names line nodes parameters = Inr subckt"
      by (cases "walk_SubcktCmd_statement (w_path w) names line nodes parameters") simp_all
    let ?w1 = "w\<lparr>w_context := w_present w # w_context w, w_present := Sub subckt\<rparr>"
    from ok st obtain w1' where inner: "walk_lines lines ?w1 = Inr w1'"
      by (cases "walk_lines lines ?w1") simp_all
    have "walker_recorded ?w1"
      using rec walk_SubcktCmd_statement_recorded [OF st] by (simp add: walker_recorded_def)
    with "13.IH" [OF st] inner have rec1: "walker_recorded w1'" by blast
    from walk_keeps_stack(2) [OF inner]
    have fr: "w_context w1' = w_present w # w_context w" "kind (w_present w1') = 1"
      by simp_all
    from kind_Sub [OF fr(2)] obtain p where p: "w_present w1' = Sub p" by blast
    obtain tmp root where app: "scope_appendSubCircuit p (w_present w) (w_root w1') = (tmp, root)"
      by (cases "scope_appendSubCircuit p (w_present w) (w_root w1')") auto
    from ok st inner fr(1) p app
    have w': "w' = w1'\<lparr>w_root := root, w_present := tmp, w_context := w_context w\<rparr>"
      by simp
    from rec1 p have "instances_recorded p" "\<forall>x \<in> set (c_subcircuits (w_root w1')). instances_recorded x"
      by (simp_all add: walker_recorded_def)
    moreover from rec have "ref_recorded (w_present w)" "\<forall>r \<in> set (w_context w). ref_recorded r"
      by (simp_all add: walker_recorded_def)
    ultimately show "walker_recorded w'"
      using appendSubCircuit_recorded [OF app] by (simp add: w' walker_recorded_def)
  qed
next
  case (14 entry lines w)
  show ?case
  proof (intro allI impI)
    fix w'
    assume ok: "walk (LibBlock entry lines) w = Inr w'"
      and rec: "walker_recorded w"
    from ok obtain entries where st: "same_entries entry = Inr entries"
      by (cases "same_entries entry") simp_all
    let ?library = "\<lparr>lib_entry = entries, lib_statements = [], lib_subcircuits = [],
                      lib_models = [], lib_params = []\<rparr>"
    let ?w1 = "w\<lparr>w_context := w_present w # w_context w, w_present := Lib ?library\<rparr>"
    from ok st obtain w1' where inner: "walk_lines lines ?w1 = Inr w1'"
      by (cases "walk_lines lines ?w1") (simp_all add: Let_def)
    have "walker_recorded ?w1"
      using rec by (simp add: walker_recorded_def)
    with "14.IH" [OF st refl] inner have rec1: "walker_recorded w1'" by blast
    from walk_keeps_stack(2) [OF inner]
    have fr: "w_context w1' = w_present w # w_context w" "kind (w_present w1') = 2"
      by simp_all
    from kind_Lib [OF fr(2)] obtain p where p: "w_present w1' = Lib p" by blast
    from ok st inner fr(1) p obtain tmp root where
      app: "scope_appendLibrary p (w_present w) (w_root w1') = Inr (tmp, root)"
      and w': "w' = w1'\<lparr>w_root := root, w_present := tmp, w_context := w_context w\<rparr>"
      by (cases "scope_appendLibrary p (w_present w) (w_root w1')") (auto simp: Let_def)
    from rec1 have "\<forall>x \<in> set (c_subcircuits (w_root w1')). instances_recorded x"
      by (simp add: walker_recorded_def)
    from appendLibrary_recorded [OF app this] rec
    show "walker_recorded w'"
      by (simp add: w' walker_recorded_def)
  qed
next
  case (15 w)
  then show ?case by simp
next
  case (16 l ls w)
  show ?case
  proof (intro allI impI)
    fix w'
    assume ok: "walk_lines (l # ls) w = Inr w'" and rec: "walker_recorded w"
    from ok obtain w1 where first: "walk l w = Inr w1" and rest: "walk_lines ls w1 = Inr w'"
      by (cases "walk l w") simp_all
    from "16.IH"(1) first rec have "walker_recorded w1" by blast
    with "16.IH"(2) [OF first] rest show "walker_recorded w'" by blast
  qed
qed (auto intro: walk_BJT_recorded walk_Switch_recorded
      walk_VoltageControlledVoltageSource_recorded walk_VoltageControlledCurrentSource_recorded
      walk_CurrentControlledCurrentSource_recorded walk_CurrentControlledVoltageSource_recorded
      walk_Subcircuit_recorded walk_MOSFET_recorded walk_DataCmd_recorded walk_ModelCmd_recorded
      walk_ParamCmd_recorded walk_LibCall_recorded)

lemma walk_Circuit_recorded:
  assumes "walk_Circuit p tree = Inr c"
  shows "\<forall>s \<in> set (c_subcircuits c). instances_recorded s"
proof -
  let ?w = "\<lparr>w_path = p, w_root = CircuitStatement (cn_title tree) p,
             w_present = Root, w_context = []\<rparr>"
  from assms obtain w where w: "walk_lines (cn_lines tree) ?w = Inr w" and c: "c = w_root w"
    by (auto simp: walk_Circuit_def split: sum.splits if_splits)
  have "walker_recorded ?w" by (simp add: walker_recorded_def CircuitStatement_def)
  with walk_recorded(2) w have "walker_recorded w" by blast
  then show ?thesis by (simp add: c walker_recorded_def)
qed

lemma recorded_scopes:
  "\<forall>c \<in> set (sc_subcircuits s). instances_recorded c \<Longrightarrow> t \<in> set (scopes s) \<Longrightarrow>
     \<forall>c \<in> set (sc_subcircuits t). instances_recorded c"
proof (induction s arbitrary: t rule: scopes.induct)
  case (1 name nodes parameters statements subcircuits models required_subcircuits required_models params)
  from "1.prems"(2) consider
    "t = SubCircuitStatement name nodes parameters statements subcircuits models
       required_subcircuits required_models params"
    | c where "c \<in> set subcircuits" "t \<in> set (scopes c)"
    by auto
  then show ?case
  proof cases
    case 1
    then show ?thesis using "1.prems"(1) by simp
  next
    case 2
    from 2(1) "1.prems"(1) have "instances_recorded c" by simp
    then have "\<forall>x \<in> set (sc_subcircuits c). instances_recorded x" by (cases c) simp
    from "1.IH" [OF 2(1) this 2(2)] show ?thesis .
  qed
qed

lemma abc_instances:
  "case SpiceParser (example_environment abc_lines) None (Some ''src'') False of
     Inl e \<Rightarrow> False
   | Inr self \<Rightarrow>
       map instantiated (c_subcircuits (p_circuit self)) = [[], [''a''], [''b'']]
       \<and> map (\<lambda>s. map sc_name (sc_subcircuits s)) (c_subcircuits (p_circuit self)) = [[], [], []]"
  by code_simp

text \<open>
  C1 as stated fails for the subcircuits kept in a \<^verbatim>\<open>.lib\<close> block, which the sort never
  visits. \<^verbatim>\<open>S\<close> defines \<^verbatim>\<open>B\<close>, which instantiates \<^verbatim>\<open>A\<close>, and then \<^verbatim>\<open>A\<close>. With \<^verbatim>\<open>S\<close> in the
  block \<^verbatim>\<open>.lib typ\<close> the parser is constructed and the subcircuit list of \<^verbatim>\<open>S\<close> is still
  \<^verbatim>\<open>[B, A]\<close>: \<^verbatim>\<open>A\<close> stands after the \<^verbatim>\<open>B\<close> that depends on it. With \<^verbatim>\<open>S\<close> at the top of
  the file the list of \<^verbatim>\<open>S\<close> is \<^verbatim>\<open>[A, B]\<close>.
\<close>

theorem library_subcircuits_unsorted:
  "map (\<lambda>s. map sc_name (sc_subcircuits s))
       (parsed_library_subcircuits
          (SpiceParser (example_environment lib_unsorted_lines) None (Some ''src'') False))
     = [[''B'', ''A'']]
   \<and> map (\<lambda>s. map instantiated (sc_subcircuits s))
       (parsed_library_subcircuits
          (SpiceParser (example_environment lib_unsorted_lines) None (Some ''src'') False))
     = [[[''a''], []]]
   \<and> map (\<lambda>s. map sc_name (sc_subcircuits s))
       (parsed_subcircuits
          (SpiceParser (example_environment top_unsorted_lines) None (Some ''src'') False))
     = [[''A'', ''B'']]"
  by code_simp

text \<open>
  C1, amended. After a successful construction of the parser, in the root and in every
  subcircuit scope reached from it through the lists of subcircuits (the subcircuits
  kept in \<^verbatim>\<open>.lib\<close> blocks are not among them), the list of subcircuits is in topological
  order: whatever subcircuit the one at position \<open>i\<close> instantiates by an \<^verbatim>\<open>X\<close> element,
  unless it is one of its own nested definitions, is the subcircuit at a position
  \<open>j < i\<close> of the same list (names compared in lower case). In particular, when the
  source defines \<^verbatim>\<open>A\<close>, then \<^verbatim>\<open>B\<close> which instantiates \<^verbatim>\<open>A\<close>, then \<^verbatim>\<open>C\<close> which instantiates
  \<^verbatim>\<open>B\<close>, the resolved list is \<^verbatim>\<open>[A, B, C]\<close>.
\<close>

theorem subcircuits_topologically_ordered:
  assumes "SpiceParser env path source library = Inr self"
  shows "(\<forall>s \<in> set (scopes (scope_of (p_circuit self))).
            \<forall>i < length (sc_subcircuits s).
              \<forall>n \<in> set (instantiated (sc_subcircuits s ! i)).
                n \<in> set (map (\<lambda>c. lower (sc_name c)) (sc_subcircuits (sc_subcircuits s ! i)))
                \<or> (\<exists>j < i. lower (sc_name (sc_subcircuits s ! j)) = n))
       \<and> (env_parse env = (\<lambda>text. Inr \<lparr>cn_title = t, cn_lines = abc_lines\<rparr>) \<longrightarrow>
            map sc_name (c_subcircuits (p_circuit self)) = [''A'', ''B'', ''C''])"
proof (intro conjI ballI allI impI)
  fix s i n
  assume s: "s \<in> set (scopes (scope_of (p_circuit self)))"
    and i: "i < length (sc_subcircuits s)"
    and n: "n \<in> set (instantiated (sc_subcircuits s ! i))"
  from SpiceParser_sorted [OF assms] obtain c c0 p tree where
    srt: "sort_subcircuits_circuit (env_iterate env) c = Inr (p_circuit self)"
    and walk: "walk_Circuit p tree = Inr c0" and subs: "c_subcircuits c = c_subcircuits c0"
    by blast
  from walk_Circuit_recorded [OF walk] subs
  have "\<forall>x \<in> set (c_subcircuits c). instances_recorded x" by simp
  from sort_subcircuits_circuit_resolved(2) [OF srt this]
  have "\<forall>x \<in> set (sc_subcircuits (scope_of (p_circuit self))). instances_recorded x"
    by (simp add: scope_of_def)
  from recorded_scopes [OF this s] i have "instances_recorded (sc_subcircuits s ! i)"
    by simp
  from instances_recorded_required [OF this] n
  have req: "n \<in> set (sc_required_subcircuits (sc_subcircuits s ! i))" by blast
  from sort_subcircuits_circuit_resolved(1) [OF srt]
  have "resolved (scope_of (p_circuit self))" .
  from resolved_scopes [OF this s] have ord: "ordered_after [] (sc_subcircuits s)" .
  show "n \<in> set (map (\<lambda>c. lower (sc_name c)) (sc_subcircuits (sc_subcircuits s ! i)))
        \<or> (\<exists>j < i. lower (sc_name (sc_subcircuits s ! j)) = n)"
  proof (cases "n \<in> set (map (\<lambda>c. lower (sc_name c)) (sc_subcircuits (sc_subcircuits s ! i)))")
    case True
    then show ?thesis by simp
  next
    case False
    with req have "n \<in> set (depends_on (sc_subcircuits s ! i))"
      by (simp add: depends_on_def)
    from ordered_after_index [OF ord i this] show ?thesis by simp
  qed
next
  assume "env_parse env = (\<lambda>text. Inr \<lparr>cn_title = t, cn_lines = abc_lines\<rparr>)"
  from abc_sorted [OF this assms]
  show "map sc_name (c_subcircuits (p_circuit self)) = [''A'', ''B'', ''C'']" .
qed

theorem subcircuits_topologically_ordered_witness:
  "\<exists>self. SpiceParser (example_environment abc_lines) None (Some ''src'') False = Inr self
     \<and> map sc_name (c_subcircuits (p_circuit self)) = [''A'', ''B'', ''C'']
     \<and> map instantiated (c_subcircuits (p_circuit self)) = [[], [''a''], [''b'']]
     \<and> (\<exists>j < 1. lower (sc_name (c_subcircuits (p_circuit self) ! j)) = ''a'')
     \<and> (\<exists>j < 2. lower (sc_name (c_subcircuits (p_circuit self) ! j)) = ''b'')"
proof -
  from abc_instances obtain self where
    self: "SpiceParser (example_environment abc_lines) None (Some ''src'') False = Inr self"
    and inst: "map instantiated (c_subcircuits (p_circuit self)) = [[], [''a''], [''b'']]"
    and own: "map (\<lambda>s. map sc_name (sc_subcircuits s)) (c_subcircuits (p_circuit self)) = [[], [], []]"
    by (cases "SpiceParser (example_environment abc_lines) None (Some ''src'') False") simp_all
  let ?subs = "c_subcircuits (p_circuit self)"
  have "env_parse (example_environment abc_lines) = (\<lambda>text. Inr \<lparr>cn_title = ''t'', cn_lines = abc_lines\<rparr>)"
    by (simp add: example_environment_def)
  with subcircuits_topologically_ordered [OF self, of "''t''"]
  have names: "map sc_name ?subs = [''A'', ''B'', ''C'']"
    by simp
  have len: "length ?subs = 3"
    using arg_cong [OF inst, of length] by simp
  have at: "instantiated (?subs ! 1) = [''a'']" "instantiated (?subs ! 2) = [''b'']"
    using arg_cong [OF inst, of "\<lambda>l. l ! 1"] arg_cong [OF inst, of "\<lambda>l. l ! 2"] len by simp_all
  have none: "sc_subcircuits (?subs ! 1) = []" "sc_subcircuits (?subs ! 2) = []"
    using arg_cong [OF own, of "\<lambda>l. l ! 1"] arg_cong [OF own, of "\<lambda>l. l ! 2"] len by simp_all
  have root: "scope_of (p_circuit self) \<in> set (scopes (scope_of (p_circuit self)))"
    by (simp add: scope_of_def)
  have nested: "sc_subcircuits (scope_of (p_circuit self)) = ?subs"
    by (simp add: scope_of_def)
  note main = subcircuits_topologically_ordered [OF self, of "''t''", THEN conjunct1,
      THEN bspec, OF root, unfolded nested]
  have first: "\<exists>j < 1. lower (sc_name (?subs ! j)) = ''a''"
    using main [rule_format, of 1 "''a''"] len at none by simp
  have second: "\<exists>j < 2. lower (sc_name (?subs ! j)) = ''b''"
    using main [rule_format, of 2 "''b''"] len at none by simp
  from self names inst first second show ?thesis
    by (intro exI [of _ self]) simp
qed

section \<open>The predicates on the parser\<close>

lemma abc_constructed_again:
  "\<exists>self. SpiceParser (example_environment abc_lines) None (Some ''src'') False = Inr self
     \<and> c_subcircuits (p_circuit self) \<noteq> [] \<and> c_statements (p_circuit self) = []
     \<and> c_models (p_circuit self) = []"
proof -
  have "case SpiceParser (example_environment abc_lines) None (Some ''src'') False of
          Inl e \<Rightarrow> False
        | Inr self \<Rightarrow> c_subcircuits (p_circuit self) \<noteq> [] \<and> c_statements (p_circuit self) = []
            \<and> c_models (p_circuit self) = []"
    by code_simp
  then show ?thesis
    by (cases "SpiceParser (example_environment abc_lines) None (Some ''src'') False") simp_all
qed

lemma model_only_constructed:
  "\<exists>self. SpiceParser (example_environment model_only_lines) None (Some ''src'') False = Inr self
     \<and> c_models (p_circuit self) \<noteq> [] \<and> c_subcircuits (p_circuit self) = []
     \<and> c_statements (p_circuit self) = []"
proof -
  have "case SpiceParser (example_environment model_only_lines) None (Some ''src'') False of
          Inl e \<Rightarrow> False
        | Inr self \<Rightarrow> c_models (p_circuit self) \<noteq> [] \<and> c_subcircuits (p_circuit self) = []
            \<and> c_statements (p_circuit self) = []"
    by code_simp
  then show ?thesis
    by (cases "SpiceParser (example_environment model_only_lines) None (Some ''src'') False") simp_all
qed

text \<open>
  C9. For every parser that was constructed, \<^verbatim>\<open>is_only_subcircuit()\<close> and
  \<^verbatim>\<open>is_only_model()\<close> are both \<^verbatim>\<open>False\<close>, whatever the input was: the root circuit
  object is true, and both predicates ask for it to be false.
\<close>

theorem is_only_predicates_false:
  assumes "SpiceParser env path source library = Inr self"
  shows "is_only_subcircuit self = False \<and> is_only_model self = False"
  by (simp add: is_only_subcircuit_def is_only_model_def truth_CircuitStatement_def)

theorem is_only_predicates_false_witness:
  "(\<exists>self. SpiceParser (example_environment abc_lines) None (Some ''src'') False = Inr self
      \<and> c_subcircuits (p_circuit self) \<noteq> [] \<and> c_statements (p_circuit self) = []
      \<and> c_models (p_circuit self) = [] \<and> is_only_subcircuit self = False)
   \<and> (\<exists>self. SpiceParser (example_environment model_only_lines) None (Some ''src'') False = Inr self
      \<and> c_models (p_circuit self) \<noteq> [] \<and> c_subcircuits (p_circuit self) = []
      \<and> c_statements (p_circuit self) = [] \<and> is_only_model self = False)"
proof (intro conjI)
  from abc_constructed_again obtain self where
    self: "SpiceParser (example_environment abc_lines) None (Some ''src'') False = Inr self"
      "c_subcircuits (p_circuit self) \<noteq> []" "c_statements (p_circuit self) = []"
      "c_models (p_circuit self) = []"
    by blast
  from is_only_predicates_false [OF self(1)] have "is_only_subcircuit self = False" by simp
  with self show "\<exists>self. SpiceParser (example_environment abc_lines) None (Some ''src'') False = Inr self
      \<and> c_subcircuits (p_circuit self) \<noteq> [] \<and> c_statements (p_circuit self) = []
      \<and> c_models (p_circuit self) = [] \<and> is_only_subcircuit self = False"
    by (intro exI [of _ self]) simp
next
  from model_only_constructed obtain self where
    self: "SpiceParser (example_environment model_only_lines) None (Some ''src'') False = Inr self"
      "c_models (p_circuit self) \<noteq> []" "c_subcircuits (p_circuit self) = []"
      "c_statements (p_circuit self) = []"
    by blast
  from is_only_predicates_false [OF self(1)] have "is_only_model self = False" by simp
  with self show "\<exists>self. SpiceParser (example_environment model_only_lines) None (Some ''src'') False = Inr self
      \<and> c_models (p_circuit self) \<noteq> [] \<and> c_subcircuits (p_circuit self) = []
      \<and> c_statements (p_circuit self) = [] \<and> is_only_model self = False"
    by (intro exI [of _ self]) simp
qed

section \<open>Switches\<close>

lemma present_statements_append:
  "present_statements (on_present (scope_append el) w) = present_statements w @ [el]"
proof (cases "w_present w")
  case Root
  then show ?thesis by (simp add: present_statements_def on_present_def)
next
  case (Sub s)
  then show ?thesis by (cases s) (simp add: present_statements_def on_present_def)
next
  case (Lib l)
  then show ?thesis by (simp add: present_statements_def on_present_def)
qed

lemma present_statements_require_model:
  assumes "try_on_present (scope_require_model m) w = Inr w'"
  shows "present_statements w' = present_statements w"
proof (cases "w_present w")
  case Root
  with assms show ?thesis by (auto simp: present_statements_def try_on_present_def)
next
  case (Sub s)
  with assms show ?thesis by (cases s) (auto simp: present_statements_def try_on_present_def)
next
  case (Lib l)
  with assms show ?thesis by (auto simp: present_statements_def try_on_present_def)
qed

lemma require_model_succeeds:
  assumes "kind (w_present w) \<noteq> 2"
  shows "\<exists>w'. try_on_present (scope_require_model m) w = Inr w'"
  using assms by (cases "w_present w") (auto simp: try_on_present_def)

lemma append_element_statements:
  assumes "device \<noteq> []" and "\<not> given_twice [''self'', ''statement'', ''name''] kwargs"
  shows "\<exists>w' el. append_element cls device nodes kwargs w = Inr w'
           \<and> present_statements w' = present_statements w @ [el]
           \<and> el_statement el = cls \<and> el_nodes el = nodes \<and> el_params el = kwargs
           \<and> el_prefix el # el_name el = device"
  using assms
  by (cases device) (auto simp: append_element_def ElementStatement_def present_statements_append)

lemma switch_kwargs_once:
  assumes "fst ` set kwargs \<subseteq> {''model'', ''initial_state''}"
  shows "\<not> given_twice [''self'', ''statement'', ''name''] kwargs"
  using assms by (auto simp: given_twice_def)

lemma walk_Device_nonempty:
  assumes "dev \<noteq> []"
  shows "\<exists>device. walk_Device dev = Inr device \<and> device \<noteq> []"
  using assms by (cases dev) (auto simp: walk_Device_def)

lemma walk_Switch_half:
  assumes "(sw_control_p node = None) \<noteq> (sw_control_n node = None)"
  shows "isl (walk_Switch node w)"
  using assms
  by (auto simp: walk_Switch_def Let_def split: sum.splits option.splits prod.splits)

lemma walk_Switch_shape:
  assumes dev: "sw_dev node \<noteq> []"
    and scope: "sw_model node = None \<or> kind (w_present w) \<noteq> 2"
  shows "walk_Switch node w =
           (case (sw_control_p node, sw_control_n node) of
              (Some cp, None) \<Rightarrow> Inl (ValueError ''Only one control node defined'')
            | (None, Some cn) \<Rightarrow> Inl (UnboundLocalError ''nodes'')
            | (Some cp, Some cn) \<Rightarrow> walk_Switch node w
            | (None, None) \<Rightarrow> walk_Switch node w)"
    and "(sw_control_p node = None) = (sw_control_n node = None) \<Longrightarrow>
          \<exists>w' el. walk_Switch node w = Inr w'
            \<and> present_statements w' = present_statements w @ [el]
            \<and> el_statement el = VoltageControlledSwitch
            \<and> el_nodes el =
                (case (sw_control_p node, sw_control_n node) of
                   (Some cp, Some cn) \<Rightarrow> [sw_positive node, sw_negative node, cp, cn]
                 | other \<Rightarrow> [sw_positive node, sw_negative node])"
proof -
  from walk_Device_nonempty [OF dev] obtain device where
    device: "walk_Device (sw_dev node) = Inr device" "device \<noteq> []"
    by blast
  have model: "\<exists>kwargs w1. (case sw_model node of
                   Some model_name \<Rightarrow>
                     (case try_on_present (scope_require_model (lower model_name)) w of
                        Inl e \<Rightarrow> Inl e
                      | Inr w \<Rightarrow> Inr ([(''model'', Str model_name)], w))
                 | None \<Rightarrow> Inr ([], w)) = Inr (kwargs, w1) \<and> present_statements w1 = present_statements w
                 \<and> fst ` set kwargs \<subseteq> {''model''}"
  proof (cases "sw_model node")
    case None
    then show ?thesis by simp
  next
    case (Some m)
    with scope have "kind (w_present w) \<noteq> 2" by simp
    from require_model_succeeds [OF this] obtain w1 where
      w1: "try_on_present (scope_require_model (lower m)) w = Inr w1" by blast
    from present_statements_require_model [OF w1] Some w1 show ?thesis by simp
  qed
  then obtain kwargs w1 where
    m: "(case sw_model node of
                   Some model_name \<Rightarrow>
                     (case try_on_present (scope_require_model (lower model_name)) w of
                        Inl e \<Rightarrow> Inl e
                      | Inr w \<Rightarrow> Inr ([(''model'', Str model_name)], w))
                 | None \<Rightarrow> Inr ([], w)) = Inr (kwargs, w1)"
    and st: "present_statements w1 = present_statements w"
    and keys: "fst ` set kwargs \<subseteq> {''model''}"
    by blast
  show "walk_Switch node w =
           (case (sw_control_p node, sw_control_n node) of
              (Some cp, None) \<Rightarrow> Inl (ValueError ''Only one control node defined'')
            | (None, Some cn) \<Rightarrow> Inl (UnboundLocalError ''nodes'')
            | (Some cp, Some cn) \<Rightarrow> walk_Switch node w
            | (None, None) \<Rightarrow> walk_Switch node w)"
    by (cases "sw_control_p node"; cases "sw_control_n node")
       (simp_all add: walk_Switch_def device m Let_def)
  assume both: "(sw_control_p node = None) = (sw_control_n node = None)"
  let ?kwargs = "case sw_initial_state node of
                   Some initial_state \<Rightarrow> AList.update ''initial_state'' (Str initial_state) kwargs
                 | None \<Rightarrow> kwargs"
  let ?nodes = "case (sw_control_p node, sw_control_n node) of
                   (Some cp, Some cn) \<Rightarrow> [sw_positive node, sw_negative node, cp, cn]
                 | other \<Rightarrow> [sw_positive node, sw_negative node]"
  have "fst ` set ?kwargs \<subseteq> {''model'', ''initial_state''}"
    using keys by (cases "sw_initial_state node") (auto simp: dom_update)
  from append_element_statements [OF device(2) switch_kwargs_once [OF this],
      of VoltageControlledSwitch ?nodes w1]
  obtain w' el where
    el: "append_element VoltageControlledSwitch device ?nodes ?kwargs w1 = Inr w'"
      "present_statements w' = present_statements w1 @ [el]"
      "el_statement el = VoltageControlledSwitch" "el_nodes el = ?nodes"
    by blast
  have "walk_Switch node w = Inr w'"
    using both el(1)
    by (cases "sw_control_p node"; cases "sw_control_n node")
       (simp_all add: walk_Switch_def device m Let_def)
  with el st show "\<exists>w' el. walk_Switch node w = Inr w'
            \<and> present_statements w' = present_statements w @ [el]
            \<and> el_statement el = VoltageControlledSwitch
            \<and> el_nodes el = ?nodes"
    by auto
qed

text \<open>
  With exactly one control node the walk of the line fails in every state of the
  walker; with both or neither, a line with a device name is accepted wherever the
  scope can record its model, that is in the root and in a \<^verbatim>\<open>.subckt\<close> block
  (\<open>walk_Switch_half\<close>, \<open>walk_Switch_shape\<close>).

  C8 (the code does otherwise). \<^verbatim>\<open>S1 out 0 ctl 0 SW\<close> and \<^verbatim>\<open>S1 out 0 SW\<close>, each behind
  \<^verbatim>\<open>.model SW SW\<close>: at the top of the file and in a \<^verbatim>\<open>.subckt\<close> block they are accepted,
  with four nodes and with two; in the block \<^verbatim>\<open>.lib typ\<close> the same lines, with both
  control nodes and with neither, end in the \<^verbatim>\<open>AttributeError\<close> of
  \<^verbatim>\<open>_required_models\<close>, which \<^verbatim>\<open>LibraryStatement\<close> does not have. The lines with one
  control node are refused.
\<close>

theorem switch_in_library_refused:
  "SpiceParser (example_environment (lib_switch_lines (Some ''ctl'') (Some ''0''))) None (Some ''src'') False
     = Inl (AttributeError ''_required_models'')
   \<and> SpiceParser (example_environment (lib_switch_lines None None)) None (Some ''src'') False
     = Inl (AttributeError ''_required_models'')
   \<and> (case SpiceParser (example_environment (top_switch_lines (Some ''ctl'') (Some ''0''))) None (Some ''src'') False of
         Inl e \<Rightarrow> False
       | Inr self \<Rightarrow> map el_nodes (c_statements (p_circuit self)) = [[''out'', ''0'', ''ctl'', ''0'']])
   \<and> (case SpiceParser (example_environment (top_switch_lines None None)) None (Some ''src'') False of
         Inl e \<Rightarrow> False
       | Inr self \<Rightarrow> map el_nodes (c_statements (p_circuit self)) = [[''out'', ''0'']])
   \<and> (case SpiceParser (example_environment (subckt_switch_lines (Some ''ctl'') (Some ''0''))) None (Some ''src'') False of
         Inl e \<Rightarrow> False
       | Inr self \<Rightarrow> map (\<lambda>s. map el_nodes (sc_statements s)) (c_subcircuits (p_circuit self))
                       = [[[''out'', ''0'', ''ctl'', ''0'']]])
   \<and> (case SpiceParser (example_environment (subckt_switch_lines None None)) None (Some ''src'') False of
         Inl e \<Rightarrow> False
       | Inr self \<Rightarrow> map (\<lambda>s. map el_nodes (sc_statements s)) (c_subcircuits (p_circuit self))
                       = [[[''out'', ''0'']]])
   \<and> SpiceParser (example_environment (top_switch_lines (Some ''ctl'') None)) None (Some ''src'') False
     = Inl (ValueError ''Only one control node defined'')
   \<and> SpiceParser (example_environment (top_switch_lines None (Some ''0''))) None (Some ''src'') False
     = Inl (UnboundLocalError ''nodes'')"
  by code_simp

section \<open>The ground node\<close>

lemma SubCircuitStatement_build_ground:
  "SubCircuitStatement_build s ground = SubCircuitStatement_build s ground'"
proof (induction s ground rule: SubCircuitStatement_build.induct)
  case (1 name nodes parameters statements subcircuits models required_subcircuits required_models
      params ground)
  have "\<And>acc. fold (\<lambda>statement. netlist_subcircuit (SubCircuitStatement_build statement ground))
           subcircuits acc
       = fold (\<lambda>statement. netlist_subcircuit (SubCircuitStatement_build statement ground'))
           subcircuits acc"
    using "1.IH" by (intro fold_cong) auto
  then show ?case
    by (simp add: ElementStatement_build_def Let_def)
qed

text \<open>
  What is built does not depend on the ground argument, and a node is handed to the
  element as the string it is.
\<close>

lemma build_ignores_ground:
  "CircuitStatement_build self ground = CircuitStatement_build self ground'"
proof -
  have "(\<lambda>statement. netlist_subcircuit (SubCircuitStatement_build statement ground))
       = (\<lambda>statement. netlist_subcircuit (SubCircuitStatement_build statement ground'))"
    by (rule ext) (simp add: SubCircuitStatement_build_ground [of _ ground ground'])
  then show ?thesis
    by (simp add: CircuitStatement_build_def ElementStatement_build_def Let_def split: sum.splits)
qed

text \<open>
  C6 (the code does otherwise). \<^verbatim>\<open>S1 in gnd SW\<close>, built with the ground \<^verbatim>\<open>gnd\<close>: the
  element gets the nodes \<^verbatim>\<open>in\<close> and \<^verbatim>\<open>gnd\<close> as they are, and not \<^verbatim>\<open>in\<close> and the integer
  \<open>0\<close>; \<^verbatim>\<open>translate_ground_node\<close>, which \<^verbatim>\<open>build\<close> does not call, raises on that element.
\<close>

theorem build_keeps_ground_name:
  "(case SpiceParser (example_environment ground_lines) None (Some ''src'') False of
      Inl e \<Rightarrow> False
    | Inr self \<Rightarrow>
        (case build_circuit self (NodeStr ''gnd'') of
           Inl e \<Rightarrow> False
         | Inr netlist \<Rightarrow>
             map i_nodes (n_elements netlist) = [[NodeStr ''in'', NodeStr ''gnd'']]
             \<and> map i_nodes (n_elements netlist) \<noteq> [[NodeStr ''in'', NodeInt 0]])
        \<and> map (\<lambda>statement. translate_ground_node statement (NodeStr ''gnd''))
              (c_statements (p_circuit self)) = [Inl (AttributeError ''_node'')])"
  by code_simp

section \<open>Bipolar transistors\<close>

text \<open>
  C2 (the code does otherwise). \<^verbatim>\<open>Q1 c b e sub 2N2222 1.5\<close>: the last argument is a
  number, and the line is refused. \<^verbatim>\<open>Q1 c b e 2N2222 1.5 area=2\<close>: with the keyword the
  walk ends in the \<^verbatim>\<open>UnboundLocalError\<close> of \<^verbatim>\<open>model_name\<close>. The same lines without the
  trailing number or without the keyword are accepted.
\<close>

theorem bjt_trailing_area_refused:
  "walk_BJT (bjt_line [''sub'', ''2N2222'', ''1.5''] None) fresh_walker
     = Inl (ValueError ''Present device not compatible with BJT definition: Q1'')
   \<and> walk_BJT (bjt_line [''2N2222'', ''1.5''] (Some (Walked ''2''))) fresh_walker
     = Inl (UnboundLocalError ''model_name'')
   \<and> isl (walk_BJT (bjt_line [''sub'', ''2N2222'', ''1.5''] (Some (Walked ''2''))) fresh_walker)
   \<and> (case walk_BJT (bjt_line [''sub'', ''therm'', ''2N2222''] None) fresh_walker of
         Inl e \<Rightarrow> False
       | Inr w \<Rightarrow> map el_nodes (c_statements (w_root w)) = [[''c'', ''b'', ''e'', ''sub'', ''therm'']])
   \<and> (case walk_BJT (bjt_line [''2N2222'', ''1.5''] None) fresh_walker of
         Inl e \<Rightarrow> False
       | Inr w \<Rightarrow> map el_params (c_statements (w_root w))
           = [[(''area'', Num (PyFloat ''1.5'')), (''model'', Str ''2N2222'')]])"
  by code_simp

section \<open>Controlled sources\<close>

lemma append_element_result:
  assumes "append_element cls device nodes kwargs w = Inr w'"
  shows "\<exists>el. present_statements w' = present_statements w @ [el]
           \<and> el_statement el = cls \<and> el_nodes el = nodes \<and> el_params el = kwargs
           \<and> el_prefix el # el_name el = device"
  using assms
  by (cases device)
     (auto simp: append_element_def ElementStatement_def present_statements_append split: if_splits)

lemma walk_Device_letter:
  assumes "walk_Device dev = Inr device"
  shows "device \<noteq> [] \<and> (\<forall>c cs. dev = c # cs \<and> c \<in> set ''EFGH'' \<longrightarrow> device = CHR ''B'' # dev)"
  using assms by (cases dev) (auto simp: walk_Device_def split: if_splits)

lemma behavioral_element:
  assumes dev: "walk_Device dev = Inr device"
    and app: "append_element BehavioralSource device nodes [(key, value)] w = Inr w'"
  shows "\<exists>el. present_statements w' = present_statements w @ [el]
           \<and> el_statement el = BehavioralSource \<and> el_nodes el = nodes
           \<and> map fst (el_params el) = [key]
           \<and> (\<forall>c cs. dev = c # cs \<and> c \<in> set ''EFGH'' \<longrightarrow> el_prefix el = CHR ''B'' \<and> el_name el = dev)"
proof -
  from append_element_result [OF app] obtain el where
    el: "present_statements w' = present_statements w @ [el]" "el_statement el = BehavioralSource"
      "el_nodes el = nodes" "el_params el = [(key, value)]" "el_prefix el # el_name el = device"
    by blast
  from walk_Device_letter [OF dev] el(5)
  have "\<forall>c cs. dev = c # cs \<and> c \<in> set ''EFGH'' \<longrightarrow> el_prefix el = CHR ''B'' \<and> el_name el = dev"
    by auto
  with el show ?thesis by auto
qed

lemma walk_VoltageControlledVoltageSource_result:
  assumes "walk_VoltageControlledVoltageSource node w = Inr w'"
  shows "\<exists>el. present_statements w' = present_statements w @ [el]
           \<and> el_statement el = BehavioralSource \<and> el_nodes el = [e_positive node, e_negative node]
           \<and> map fst (el_params el) = [''V'']
           \<and> (\<forall>c cs. e_dev node = c # cs \<and> c \<in> set ''EFGH'' \<longrightarrow>
                 el_prefix el = CHR ''B'' \<and> el_name el = e_dev node)"
proof -
  from assms obtain device v where
    "walk_Device (e_dev node) = Inr device"
    "append_element BehavioralSource device [e_positive node, e_negative node] [(''V'', v)] w = Inr w'"
    by (auto simp: walk_VoltageControlledVoltageSource_def split: sum.splits option.splits if_splits)
  from behavioral_element [OF this] show ?thesis .
qed

lemma walk_VoltageControlledCurrentSource_result:
  assumes "walk_VoltageControlledCurrentSource node w = Inr w'"
  shows "\<exists>el. present_statements w' = present_statements w @ [el]
           \<and> el_statement el = BehavioralSource \<and> el_nodes el = [g_positive node, g_negative node]
           \<and> map fst (el_params el) = [''I'']
           \<and> (\<forall>c cs. g_dev node = c # cs \<and> c \<in> set ''EFGH'' \<longrightarrow>
                 el_prefix el = CHR ''B'' \<and> el_name el = g_dev node)"
proof -
  from assms obtain device v where
    "walk_Device (g_dev node) = Inr device"
    "append_element BehavioralSource device [g_positive node, g_negative node] [(''I'', v)] w = Inr w'"
    by (auto simp: walk_VoltageControlledCurrentSource_def split: sum.splits option.splits if_splits)
  from behavioral_element [OF this] show ?thesis .
qed

lemma walk_CurrentControlledCurrentSource_result:
  assumes "walk_CurrentControlledCurrentSource node w = Inr w'"
  shows "\<exists>el. present_statements w' = present_statements w @ [el]
           \<and> el_statement el = BehavioralSource \<and> el_nodes el = [f_positive node, f_negative node]
           \<and> map fst (el_params el) = [''I'']
           \<and> (\<forall>c cs. f_dev node = c # cs \<and> c \<in> set ''EFGH'' \<longrightarrow>
                 el_prefix el = CHR ''B'' \<and> el_name el = f_dev node)"
proof -
  from assms obtain device v where
    "walk_Device (f_dev node) = Inr device"
    "append_element BehavioralSource device [f_positive node, f_negative node] [(''I'', v)] w = Inr w'"
    by (auto simp: walk_CurrentControlledCurrentSource_def split: sum.splits option.splits if_splits)
  from behavioral_element [OF this] show ?thesis .
qed

lemma walk_CurrentControlledVoltageSource_result:
  assumes "walk_CurrentControlledVoltageSource node w = Inr w'"
  shows "\<exists>el. present_statements w' = present_statements w @ [el]
           \<and> el_statement el = BehavioralSource \<and> el_nodes el = [h_positive node, h_negative node]
           \<and> map fst (el_params el) = [''V'']
           \<and> (\<forall>c cs. h_dev node = c # cs \<and> c \<in> set ''EFGH'' \<longrightarrow>
                 el_prefix el = CHR ''B'' \<and> el_name el = h_dev node)"
proof -
  from assms obtain device v where
    "walk_Device (h_dev node) = Inr device"
    "append_element BehavioralSource device [h_positive node, h_negative node] [(''V'', v)] w = Inr w'"
    by (auto simp: walk_CurrentControlledVoltageSource_def split: sum.splits option.splits if_splits)
  from behavioral_element [OF this] show ?thesis .
qed

lemma vcvs_line_walk:
  "walk_VoltageControlledVoltageSource vcvs_line fresh_walker = Inr vcvs_walked"
  by (simp add: walk_VoltageControlledVoltageSource_def vcvs_line_def fresh_walker_def
      vcvs_walked_def vcvs_element_def walk_Device_def walk_value_def append_element_def
      ElementStatement_def given_twice_def on_present_def CircuitStatement_def)

text \<open>
  C5 as stated fails. The element that \<^verbatim>\<open>E1 out 0 cp cn 2\<close> leaves in the circuit has
  neither \<^verbatim>\<open>voltage_expression\<close> nor \<^verbatim>\<open>current_expression\<close> among its keyword parameters
  (its one parameter is \<^verbatim>\<open>V\<close>). And the name is rewritten for a capital letter only:
  \<^verbatim>\<open>walk_Device\<close> compares with \<^verbatim>\<open>E\<close>, \<^verbatim>\<open>F\<close>, \<^verbatim>\<open>G\<close>, \<^verbatim>\<open>H\<close>, so that \<^verbatim>\<open>e1 out 0 cp cn 2\<close>
  leaves an element with the prefix \<^verbatim>\<open>e\<close> and the name \<^verbatim>\<open>1\<close>, no \<^verbatim>\<open>B\<close> in front.
\<close>

theorem controlled_source_keyword_counterexample:
  "walk_VoltageControlledVoltageSource vcvs_line fresh_walker = Inr vcvs_walked
   \<and> c_statements (w_root vcvs_walked) = [vcvs_element]
   \<and> \<not> populated ''voltage_expression'' vcvs_element
   \<and> \<not> populated ''current_expression'' vcvs_element
   \<and> populated ''V'' vcvs_element
   \<and> (case walk_VoltageControlledVoltageSource lower_vcvs_line fresh_walker of
         Inl e \<Rightarrow> False
       | Inr w \<Rightarrow> map el_statement (c_statements (w_root w)) = [BehavioralSource]
                  \<and> map el_prefix (c_statements (w_root w)) = ''e''
                  \<and> map el_name (c_statements (w_root w)) = [''1''])"
proof -
  have "case walk_VoltageControlledVoltageSource lower_vcvs_line fresh_walker of
         Inl e \<Rightarrow> False
       | Inr w \<Rightarrow> map el_statement (c_statements (w_root w)) = [BehavioralSource]
                  \<and> map el_prefix (c_statements (w_root w)) = ''e''
                  \<and> map el_name (c_statements (w_root w)) = [''1'']"
    by code_simp
  moreover have "c_statements (w_root vcvs_walked) = [vcvs_element]
   \<and> \<not> populated ''voltage_expression'' vcvs_element
   \<and> \<not> populated ''current_expression'' vcvs_element
   \<and> populated ''V'' vcvs_element"
    by (simp add: vcvs_walked_def vcvs_element_def populated_def)
  ultimately show ?thesis using vcvs_line_walk by simp
qed

text \<open>
  C5, amended. Whenever the walker accepts an \<^verbatim>\<open>E\<close>, \<^verbatim>\<open>F\<close>, \<^verbatim>\<open>G\<close> or \<^verbatim>\<open>H\<close> line, it
  appends to the present scope one element of class \<^verbatim>\<open>BehavioralSource\<close>, on the two
  output nodes, with exactly one keyword parameter: \<^verbatim>\<open>V\<close> for \<^verbatim>\<open>E\<close> and \<^verbatim>\<open>H\<close>, \<^verbatim>\<open>I\<close> for
  \<^verbatim>\<open>F\<close> and \<^verbatim>\<open>G\<close>. When the device name starts with the capital \<^verbatim>\<open>E\<close>, \<^verbatim>\<open>F\<close>, \<^verbatim>\<open>G\<close> or
  \<^verbatim>\<open>H\<close>, the name of the element is that name behind the letter \<^verbatim>\<open>B\<close>.
\<close>

theorem controlled_sources_behavioral:
  "(walk_VoltageControlledVoltageSource e w = Inr w' \<longrightarrow>
      (\<exists>el. present_statements w' = present_statements w @ [el]
         \<and> el_statement el = BehavioralSource \<and> el_nodes el = [e_positive e, e_negative e]
         \<and> map fst (el_params el) = [''V'']
         \<and> (\<forall>c cs. e_dev e = c # cs \<and> c \<in> set ''EFGH'' \<longrightarrow>
               el_prefix el = CHR ''B'' \<and> el_name el = e_dev e)))
   \<and> (walk_CurrentControlledVoltageSource h w = Inr w' \<longrightarrow>
      (\<exists>el. present_statements w' = present_statements w @ [el]
         \<and> el_statement el = BehavioralSource \<and> el_nodes el = [h_positive h, h_negative h]
         \<and> map fst (el_params el) = [''V'']
         \<and> (\<forall>c cs. h_dev h = c # cs \<and> c \<in> set ''EFGH'' \<longrightarrow>
               el_prefix el = CHR ''B'' \<and> el_name el = h_dev h)))
   \<and> (walk_CurrentControlledCurrentSource f w = Inr w' \<longrightarrow>
      (\<exists>el. present_statements w' = present_statements w @ [el]
         \<and> el_statement el = BehavioralSource \<and> el_nodes el = [f_positive f, f_negative f]
         \<and> map fst (el_params el) = [''I'']
         \<and> (\<forall>c cs. f_dev f = c # cs \<and> c \<in> set ''EFGH'' \<longrightarrow>
               el_prefix el = CHR ''B'' \<and> el_name el = f_dev f)))
   \<and> (walk_VoltageControlledCurrentSource g w = Inr w' \<longrightarrow>
      (\<exists>el. present_statements w' = present_statements w @ [el]
         \<and> el_statement el = BehavioralSource \<and> el_nodes el = [g_positive g, g_negative g]
         \<and> map fst (el_params el) = [''I'']
         \<and> (\<forall>c cs. g_dev g = c # cs \<and> c \<in> set ''EFGH'' \<longrightarrow>
               el_prefix el = CHR ''B'' \<and> el_name el = g_dev g)))"
  using walk_VoltageControlledVoltageSource_result [of e w w']
    walk_CurrentControlledVoltageSource_result [of h w w']
    walk_CurrentControlledCurrentSource_result [of f w w']
    walk_VoltageControlledCurrentSource_result [of g w w']
  by blast

lemma controlled_lines_walk:
  "\<exists>w'. walk_CurrentControlledVoltageSource ccvs_line fresh_walker = Inr w'"
  "\<exists>w'. walk_CurrentControlledCurrentSource cccs_line fresh_walker = Inr w'"
  "\<exists>w'. walk_VoltageControlledCurrentSource vccs_line fresh_walker = Inr w'"
proof -
  have "case walk_CurrentControlledVoltageSource ccvs_line fresh_walker of
          Inl e \<Rightarrow> False | Inr w \<Rightarrow> True"
    by code_simp
  then show "\<exists>w'. walk_CurrentControlledVoltageSource ccvs_line fresh_walker = Inr w'"
    by (cases "walk_CurrentControlledVoltageSource ccvs_line fresh_walker") simp_all
  have "case walk_CurrentControlledCurrentSource cccs_line fresh_walker of
          Inl e \<Rightarrow> False | Inr w \<Rightarrow> True"
    by code_simp
  then show "\<exists>w'. walk_CurrentControlledCurrentSource cccs_line fresh_walker = Inr w'"
    by (cases "walk_CurrentControlledCurrentSource cccs_line fresh_walker") simp_all
  have "case walk_VoltageControlledCurrentSource vccs_line fresh_walker of
          Inl e \<Rightarrow> False | Inr w \<Rightarrow> True"
    by code_simp
  then show "\<exists>w'. walk_VoltageControlledCurrentSource vccs_line fresh_walker = Inr w'"
    by (cases "walk_VoltageControlledCurrentSource vccs_line fresh_walker") simp_all
qed

theorem controlled_sources_behavioral_witness:
  "(\<exists>w' el. walk_VoltageControlledVoltageSource vcvs_line fresh_walker = Inr w'
         \<and> present_statements w' = present_statements fresh_walker @ [el]
         \<and> el_statement el = BehavioralSource \<and> el_nodes el = [''out'', ''0'']
         \<and> map fst (el_params el) = [''V'']
         \<and> el_prefix el = CHR ''B'' \<and> el_name el = ''E1'')
   \<and> (\<exists>w' el. walk_CurrentControlledVoltageSource ccvs_line fresh_walker = Inr w'
         \<and> present_statements w' = present_statements fresh_walker @ [el]
         \<and> el_statement el = BehavioralSource \<and> el_nodes el = [''out'', ''0'']
         \<and> map fst (el_params el) = [''V'']
         \<and> el_prefix el = CHR ''B'' \<and> el_name el = ''H1'')
   \<and> (\<exists>w' el. walk_CurrentControlledCurrentSource cccs_line fresh_walker = Inr w'
         \<and> present_statements w' = present_statements fresh_walker @ [el]
         \<and> el_statement el = BehavioralSource \<and> el_nodes el = [''out'', ''0'']
         \<and> map fst (el_params el) = [''I'']
         \<and> el_prefix el = CHR ''B'' \<and> el_name el = ''F1'')
   \<and> (\<exists>w' el. walk_VoltageControlledCurrentSource vccs_line fresh_walker = Inr w'
         \<and> present_statements w' = present_statements fresh_walker @ [el]
         \<and> el_statement el = BehavioralSource \<and> el_nodes el = [''out'', ''0'']
         \<and> map fst (el_params el) = [''I'']
         \<and> el_prefix el = CHR ''B'' \<and> el_name el = ''G1'')"
proof (intro conjI)
  have sel: "e_dev vcvs_line = CHR ''E'' # ''1''" "e_positive vcvs_line = ''out''"
    "e_negative vcvs_line = ''0''"
    by (simp_all add: vcvs_line_def)
  from controlled_sources_behavioral [THEN conjunct1, THEN mp, OF vcvs_line_walk]
  show "\<exists>w' el. walk_VoltageControlledVoltageSource vcvs_line fresh_walker = Inr w'
         \<and> present_statements w' = present_statements fresh_walker @ [el]
         \<and> el_statement el = BehavioralSource \<and> el_nodes el = [''out'', ''0'']
         \<and> map fst (el_params el) = [''V'']
         \<and> el_prefix el = CHR ''B'' \<and> el_name el = ''E1''"
    using vcvs_line_walk by (auto simp: sel)
next
  have sel: "h_dev ccvs_line = CHR ''H'' # ''1''" "h_positive ccvs_line = ''out''"
    "h_negative ccvs_line = ''0''"
    by (simp_all add: ccvs_line_def)
  from controlled_lines_walk(1) obtain w' where
    w': "walk_CurrentControlledVoltageSource ccvs_line fresh_walker = Inr w'" by blast
  from controlled_sources_behavioral [THEN conjunct2, THEN conjunct1, THEN mp, OF w']
  show "\<exists>w' el. walk_CurrentControlledVoltageSource ccvs_line fresh_walker = Inr w'
         \<and> present_statements w' = present_statements fresh_walker @ [el]
         \<and> el_statement el = BehavioralSource \<and> el_nodes el = [''out'', ''0'']
         \<and> map fst (el_params el) = [''V'']
         \<and> el_prefix el = CHR ''B'' \<and> el_name el = ''H1''"
    using w' by (auto simp: sel)
next
  have sel: "f_dev cccs_line = CHR ''F'' # ''1''" "f_positive cccs_line = ''out''"
    "f_negative cccs_line = ''0''"
    by (simp_all add: cccs_line_def)
  from controlled_lines_walk(2) obtain w' where
    w': "walk_CurrentControlledCurrentSource cccs_line fresh_walker = Inr w'" by blast
  from controlled_sources_behavioral [THEN conjunct2, THEN conjunct2, THEN conjunct1, THEN mp, OF w']
  show "\<exists>w' el. walk_CurrentControlledCurrentSource cccs_line fresh_walker = Inr w'
         \<and> present_statements w' = present_statements fresh_walker @ [el]
         \<and> el_statement el = BehavioralSource \<and> el_nodes el = [''out'', ''0'']
         \<and> map fst (el_params el) = [''I'']
         \<and> el_prefix el = CHR ''B'' \<and> el_name el = ''F1''"
    using w' by (auto simp: sel)
next
  have sel: "g_dev vccs_line = CHR ''G'' # ''1''" "g_positive vccs_line = ''out''"
    "g_negative vccs_line = ''0''"
    by (simp_all add: vccs_line_def)
  from controlled_lines_walk(3) obtain w' where
    w': "walk_VoltageControlledCurrentSource vccs_line fresh_walker = Inr w'" by blast
  from controlled_sources_behavioral [THEN conjunct2, THEN conjunct2, THEN conjunct2, THEN mp, OF w']
  show "\<exists>w' el. walk_VoltageControlledCurrentSource vccs_line fresh_walker = Inr w'
         \<and> present_statements w' = present_statements fresh_walker @ [el]
         \<and> el_statement el = BehavioralSource \<and> el_nodes el = [''out'', ''0'']
         \<and> map fst (el_params el) = [''I'']
         \<and> el_prefix el = CHR ''B'' \<and> el_name el = ''G1''"
    using w' by (auto simp: sel)
qed

section \<open>The model check\<close>

lemma starts_with_append: "starts_with n (n @ b)"
  by (induction n) simp_all

lemma contains_append: "contains n (a @ n @ b)"
proof (induction a)
  case Nil
  show ?case by (cases "n @ b") (use starts_with_append [of n b] in auto)
next
  case (Cons x a)
  then show ?case by simp
qed

lemma find_none_subset: "(find (\<lambda>x. x \<notin> set ys) xs = None) = (set xs \<subseteq> set ys)"
  by (auto simp: find_None_iff)

lemma find_some: "find P xs = Some x \<Longrightarrow> x \<in> set xs \<and> P x"
  by (induction xs) (auto split: if_splits)

lemma check_models_iff:
  assumes "fair iterate"
  shows "(check_models iterate s inherited = Inr ())
           = (\<forall>(t, available) \<in> set (model_scopes s inherited). set (sc_required_models t) \<subseteq> set available)"
    and "(check_models_each iterate ss inherited = Inr ())
           = (\<forall>s \<in> set ss. \<forall>(t, available) \<in> set (model_scopes s inherited).
                 set (sc_required_models t) \<subseteq> set available)"
  using assms
proof (induction iterate s inherited and iterate ss inherited rule: check_models_check_models_each.induct)
  case (1 iterate name nodes parameters statements subcircuits models required_subcircuits required_models
      params available_models)
  let ?acc = "map lower available_models @ map (\<lambda>model. lower (m_name model)) models"
  let ?self = "SubCircuitStatement name nodes parameters statements subcircuits models
                 required_subcircuits required_models params"
  from "1.prems" have it: "set (iterate required_models) = set required_models"
    by (simp add: fair_def)
  have scopes: "set (model_scopes ?self available_models)
      = insert (?self, ?acc) (\<Union>c \<in> set subcircuits. set (model_scopes c ?acc))"
    by (simp add: Let_def)
  show ?case
  proof (cases "check_models_each iterate subcircuits ?acc")
    case (Inl e)
    with "1.IH" [OF refl "1.prems"]
    have "\<not> (\<forall>s \<in> set subcircuits. \<forall>(t, available) \<in> set (model_scopes s ?acc).
                 set (sc_required_models t) \<subseteq> set available)"
      by simp
    moreover have "check_models iterate ?self available_models \<noteq> Inr ()"
      using Inl by (simp add: Let_def)
    ultimately show ?thesis unfolding scopes by blast
  next
    case (Inr u)
    with "1.IH" [OF refl "1.prems"]
    have subs: "\<forall>s \<in> set subcircuits. \<forall>(t, available) \<in> set (model_scopes s ?acc).
                 set (sc_required_models t) \<subseteq> set available"
      by simp
    show ?thesis
    proof (cases "find (\<lambda>model. model \<notin> set ?acc) (iterate required_models)")
      case None
      then have "set required_models \<subseteq> set ?acc" using it by (simp only: find_none_subset)
      moreover have "check_models iterate ?self available_models = Inr ()"
        using Inr None by (simp add: Let_def)
      ultimately show ?thesis unfolding scopes using subs by auto
    next
      case (Some m)
      then have "m \<in> set required_models" "m \<notin> set ?acc" using it by (auto dest: find_some)
      then have "\<not> set required_models \<subseteq> set ?acc" by blast
      moreover have "check_models iterate ?self available_models \<noteq> Inr ()"
        using Inr Some by (simp add: Let_def)
      ultimately show ?thesis unfolding scopes by auto
    qed
  qed
next
  case (2 iterate available_models)
  show ?case by simp
next
  case (3 iterate subcircuit rest available_models)
  show ?case
  proof (cases "check_models iterate subcircuit available_models")
    case (Inl e)
    with "3.IH"(1) [OF "3.prems"] show ?thesis by auto
  next
    case (Inr u)
    with "3.IH"(1) [OF "3.prems"] "3.IH"(2) [OF Inr "3.prems"] show ?thesis by simp
  qed
qed

lemma check_models_error:
  assumes "fair iterate"
  shows "check_models iterate s inherited = Inl e \<Longrightarrow>
     \<exists>(t, available) \<in> set (model_scopes s inherited). \<exists>m \<in> set (sc_required_models t).
       m \<notin> set available
       \<and> e = ValueError (''Model ('' @ m @ '') not available in ('' @ sc_name t @ '')'')"
    and "check_models_each iterate ss inherited = Inl e \<Longrightarrow>
     \<exists>s \<in> set ss. \<exists>(t, available) \<in> set (model_scopes s inherited). \<exists>m \<in> set (sc_required_models t).
       m \<notin> set available
       \<and> e = ValueError (''Model ('' @ m @ '') not available in ('' @ sc_name t @ '')'')"
  using assms
proof (induction iterate s inherited and iterate ss inherited arbitrary: e and e
    rule: check_models_check_models_each.induct)
  case (1 iterate name nodes parameters statements subcircuits models required_subcircuits required_models
      params available_models)
  let ?acc = "map lower available_models @ map (\<lambda>model. lower (m_name model)) models"
  let ?self = "SubCircuitStatement name nodes parameters statements subcircuits models
                 required_subcircuits required_models params"
  from "1.prems"(2) have it: "set (iterate required_models) = set required_models"
    by (simp add: fair_def)
  have scopes: "set (model_scopes ?self available_models)
      = insert (?self, ?acc) (\<Union>c \<in> set subcircuits. set (model_scopes c ?acc))"
    by (simp add: Let_def)
  show ?case
  proof (cases "check_models_each iterate subcircuits ?acc")
    case (Inl e')
    with "1.prems"(1) have "e' = e" by (simp add: Let_def)
    with "1.IH" [OF refl _ "1.prems"(2)] Inl obtain s t available m where
      "s \<in> set subcircuits" "(t, available) \<in> set (model_scopes s ?acc)"
      "m \<in> set (sc_required_models t)" "m \<notin> set available"
      "e = ValueError (''Model ('' @ m @ '') not available in ('' @ sc_name t @ '')'')"
      by blast
    moreover then have "(t, available) \<in> set (model_scopes ?self available_models)"
      unfolding scopes by blast
    ultimately show ?thesis by blast
  next
    case (Inr u)
    with "1.prems"(1) obtain m where
      m: "find (\<lambda>model. model \<notin> set ?acc) (iterate required_models) = Some m"
      and e: "e = ValueError (''Model ('' @ m @ '') not available in ('' @ name @ '')'')"
      by (auto simp: Let_def split: option.splits)
    from m it have "m \<in> set required_models" "m \<notin> set ?acc" by (auto dest: find_some)
    moreover have "(?self, ?acc) \<in> set (model_scopes ?self available_models)"
      unfolding scopes by simp
    ultimately show ?thesis using e
      by (intro bexI [of _ "(?self, ?acc)"]) auto
  qed
next
  case (2 iterate available_models)
  then show ?case by simp
next
  case (3 iterate subcircuit rest available_models)
  show ?case
  proof (cases "check_models iterate subcircuit available_models")
    case (Inl e')
    with "3.prems"(1) have "e' = e" by simp
    with "3.IH"(1) [OF _ "3.prems"(2)] Inl show ?thesis by auto
  next
    case (Inr u)
    with "3.prems"(1) have "check_models_each iterate rest available_models = Inl e" by simp
    from "3.IH"(2) [OF Inr this "3.prems"(2)] show ?thesis by auto
  qed
qed

lemma unkmod_walk:
  "walk_Circuit ''/'' \<lparr>cn_title = ''t'', cn_lines = unkmod_lines\<rparr> = Inr unkmod_circuit"
  by (simp add: walk_Circuit_def unkmod_lines_def unkmod_circuit_def walk_MOSFET_def walk_Device_def
      try_on_present_def on_present_def append_element_def ElementStatement_def given_twice_def
      set_add_def CircuitStatement_def lower_def lower_char_def Let_def)

lemma unkmod_check:
  "check_models_circuit (\<lambda>members. members) unkmod_circuit
     = Inl (ValueError ''Model (unkmod) not available in (t)'')"
  by (simp add: check_models_circuit_def scope_of_def unkmod_circuit_def CircuitStatement_def)

lemma unkmod_parse:
  "SpiceParser (example_environment unkmod_lines) None (Some ''src'') False
     = Inl (ParseError ''/: Model (unkmod) not available in (t)'')"
  by (simp add: SpiceParser_def example_environment_def unkmod_walk unkmod_check)

lemma lib_nope_parse:
  "case SpiceParser (example_environment lib_nope_lines) None (Some ''src'') False of
     Inl e \<Rightarrow> False
   | Inr self \<Rightarrow>
       c_models (p_circuit self) = []
       \<and> map (\<lambda>(entry, library). lib_models library) (c_libraries (p_circuit self)) = [[]]"
  by code_simp

lemma nope_parse:
  "map sc_required_models
       (parsed_library_subcircuits
          (SpiceParser (example_environment lib_nope_lines) None (Some ''src'') False))
     = [[''nope'']]
   \<and> map sc_models
       (parsed_library_subcircuits
          (SpiceParser (example_environment lib_nope_lines) None (Some ''src'') False))
     = [[]]
   \<and> SpiceParser (example_environment top_nope_lines) None (Some ''src'') False
     = Inl (ParseError ''/: Model (nope) not available in (S)'')"
  by code_simp

text \<open>
  C3 as stated fails twice. On the text of the message: for \<^verbatim>\<open>M1 d g s b UNKMOD\<close> with
  no \<^verbatim>\<open>.model\<close> the parser fails with \<^verbatim>\<open>Model (unkmod) not available in (t)\<close> behind the
  path, and \<^verbatim>\<open>Model unkmod not available\<close> does not occur in it. And on the scopes: a
  subcircuit \<^verbatim>\<open>S\<close> kept in a \<^verbatim>\<open>.lib\<close> block requires the model \<^verbatim>\<open>nope\<close>, no model is
  defined anywhere, and the parser is constructed; the same \<^verbatim>\<open>S\<close> at the top of the file
  is refused.
\<close>

theorem model_message_counterexample:
  "SpiceParser (example_environment unkmod_lines) None (Some ''src'') False
     = Inl (ParseError ''/: Model (unkmod) not available in (t)'')
   \<and> \<not> contains ''Model unkmod not available'' ''/: Model (unkmod) not available in (t)''
   \<and> (case SpiceParser (example_environment lib_nope_lines) None (Some ''src'') False of
         Inl e \<Rightarrow> False
       | Inr self \<Rightarrow>
           c_models (p_circuit self) = []
           \<and> map (\<lambda>(entry, library). lib_models library) (c_libraries (p_circuit self)) = [[]])
   \<and> map sc_required_models
       (parsed_library_subcircuits
          (SpiceParser (example_environment lib_nope_lines) None (Some ''src'') False))
     = [[''nope'']]
   \<and> map sc_models
       (parsed_library_subcircuits
          (SpiceParser (example_environment lib_nope_lines) None (Some ''src'') False))
     = [[]]
   \<and> SpiceParser (example_environment top_nope_lines) None (Some ''src'') False
     = Inl (ParseError ''/: Model (nope) not available in (S)'')"
  using lib_nope_parse nope_parse by (simp add: unkmod_parse)

text \<open>
  C3, amended. The scopes of the model check are the root and the subcircuits reached
  from it through the lists of subcircuits; what is kept in a \<^verbatim>\<open>.lib\<close> block is not
  among them. Whatever the order in which the interpreter iterates a set, the check
  succeeds exactly when, in every such scope, each name of \<^verbatim>\<open>required_models\<close> is among
  the lowercased names of the models defined in the scope and in the scopes that enclose
  it. When it fails, the error is the \<^verbatim>\<open>ValueError\<close> \<^verbatim>\<open>Model (m) not available in (n)\<close>
  for a scope named \<^verbatim>\<open>n\<close> and a model \<^verbatim>\<open>m\<close> that this scope requires and that is not among
  those available to it, and the constructor turns it into a \<^verbatim>\<open>ParseError\<close> whose
  message holds that text behind the path.
\<close>

theorem model_check_requires_models:
  assumes "fair (env_iterate env)"
  shows "((check_models_circuit (env_iterate env) c = Inr ())
            = (\<forall>(s, available) \<in> set (model_scopes (scope_of c) []).
                 set (sc_required_models s) \<subseteq> set available))
   \<and> (\<forall>e. check_models_circuit (env_iterate env) c = Inl e \<longrightarrow>
        (\<exists>(s, available) \<in> set (model_scopes (scope_of c) []). \<exists>m \<in> set (sc_required_models s).
           m \<notin> set available
           \<and> e = ValueError (''Model ('' @ m @ '') not available in ('' @ sc_name s @ '')'')))
   \<and> (\<forall>src tree e. env_parse env src = Inr tree \<and> walk_Circuit (env_getcwd env) tree = Inr c
          \<and> check_models_circuit (env_iterate env) c = Inl e \<longrightarrow>
        (\<exists>(s, available) \<in> set (model_scopes (scope_of c) []). \<exists>m \<in> set (sc_required_models s).
           m \<notin> set available
           \<and> SpiceParser env None (Some src) False
               = Inl (ParseError (env_getcwd env @ '': '' @ ''Model ('' @ m @ '') not available in (''
                                    @ sc_name s @ '')''))
           \<and> contains (''Model ('' @ m @ '') not available in ('' @ sc_name s @ '')'')
                (env_getcwd env @ '': '' @ ''Model ('' @ m @ '') not available in (''
                   @ sc_name s @ '')'')))"
proof (intro conjI allI impI)
  show "(check_models_circuit (env_iterate env) c = Inr ())
            = (\<forall>(s, available) \<in> set (model_scopes (scope_of c) []).
                 set (sc_required_models s) \<subseteq> set available)"
    unfolding check_models_circuit_def by (rule check_models_iff(1) [OF assms])
next
  fix e
  assume "check_models_circuit (env_iterate env) c = Inl e"
  then show "\<exists>(s, available) \<in> set (model_scopes (scope_of c) []). \<exists>m \<in> set (sc_required_models s).
           m \<notin> set available
           \<and> e = ValueError (''Model ('' @ m @ '') not available in ('' @ sc_name s @ '')'')"
    unfolding check_models_circuit_def by (rule check_models_error(1) [OF assms])
next
  fix src tree e
  assume a: "env_parse env src = Inr tree \<and> walk_Circuit (env_getcwd env) tree = Inr c
          \<and> check_models_circuit (env_iterate env) c = Inl e"
  then have "check_models (env_iterate env) (scope_of c) [] = Inl e"
    by (simp add: check_models_circuit_def)
  from check_models_error(1) [OF assms this] obtain s available m where
    sm: "(s, available) \<in> set (model_scopes (scope_of c) [])" "m \<in> set (sc_required_models s)"
      "m \<notin> set available"
      "e = ValueError (''Model ('' @ m @ '') not available in ('' @ sc_name s @ '')'')"
    by blast
  let ?text = "''Model ('' @ m @ '') not available in ('' @ sc_name s @ '')''"
  from a sm(4) have "SpiceParser env None (Some src) False
      = Inl (ParseError (env_getcwd env @ '': '' @ ?text))"
    by (simp add: SpiceParser_def)
  moreover have "contains ?text (env_getcwd env @ '': '' @ ?text)"
    using contains_append [of ?text "env_getcwd env @ '': ''" "[]"] by simp
  ultimately show "\<exists>(s, available) \<in> set (model_scopes (scope_of c) []). \<exists>m \<in> set (sc_required_models s).
           m \<notin> set available
           \<and> SpiceParser env None (Some src) False
               = Inl (ParseError (env_getcwd env @ '': '' @ ''Model ('' @ m @ '') not available in (''
                                    @ sc_name s @ '')''))
           \<and> contains (''Model ('' @ m @ '') not available in ('' @ sc_name s @ '')'')
                (env_getcwd env @ '': '' @ ''Model ('' @ m @ '') not available in (''
                   @ sc_name s @ '')'')"
    using sm(1,2,3) by (intro bexI [of _ "(s, available)"]) auto
qed

theorem model_check_requires_models_witness:
  "fair (env_iterate (example_environment unkmod_lines))
   \<and> walk_Circuit ''/'' \<lparr>cn_title = ''t'', cn_lines = unkmod_lines\<rparr> = Inr unkmod_circuit
   \<and> model_scopes (scope_of unkmod_circuit) [] = [(scope_of unkmod_circuit, [])]
   \<and> sc_required_models (scope_of unkmod_circuit) = [''unkmod'']
   \<and> check_models_circuit (env_iterate (example_environment unkmod_lines)) unkmod_circuit
       = Inl (ValueError ''Model (unkmod) not available in (t)'')
   \<and> SpiceParser (example_environment unkmod_lines) None (Some ''src'') False
       = Inl (ParseError ''/: Model (unkmod) not available in (t)'')
   \<and> contains ''Model (unkmod) not available in (t)'' ''/: Model (unkmod) not available in (t)''
   \<and> check_models_circuit (env_iterate (example_environment unkmod_lines))
       (unkmod_circuit\<lparr>c_models := [\<lparr>m_name = ''UNKMOD'', m_model_type = ''NMOS'', m_parameters = []\<rparr>]\<rparr>)
       = Inr ()"
proof -
  let ?env = "example_environment unkmod_lines"
  let ?ok = "unkmod_circuit\<lparr>c_models := [\<lparr>m_name = ''UNKMOD'', m_model_type = ''NMOS'', m_parameters = []\<rparr>]\<rparr>"
  have fair: "fair (env_iterate ?env)"
    by (simp add: fair_def example_environment_def)
  have it: "env_iterate ?env = (\<lambda>members. members)"
    by (simp add: example_environment_def)
  have sel: "env_parse ?env ''src'' = Inr \<lparr>cn_title = ''t'', cn_lines = unkmod_lines\<rparr>"
    "env_getcwd ?env = ''/''"
    by (simp_all add: example_environment_def)
  have scopes: "model_scopes (scope_of unkmod_circuit) [] = [(scope_of unkmod_circuit, [])]"
    "sc_required_models (scope_of unkmod_circuit) = [''unkmod'']"
    "sc_name (scope_of unkmod_circuit) = ''t''"
    by (simp_all add: scope_of_def unkmod_circuit_def CircuitStatement_def)
  have check: "check_models_circuit (env_iterate ?env) unkmod_circuit
       = Inl (ValueError ''Model (unkmod) not available in (t)'')"
    using unkmod_check by (simp add: it)
  have "env_parse ?env ''src'' = Inr \<lparr>cn_title = ''t'', cn_lines = unkmod_lines\<rparr>
      \<and> walk_Circuit (env_getcwd ?env) \<lparr>cn_title = ''t'', cn_lines = unkmod_lines\<rparr> = Inr unkmod_circuit
      \<and> check_models_circuit (env_iterate ?env) unkmod_circuit
          = Inl (ValueError ''Model (unkmod) not available in (t)'')"
    using sel unkmod_walk check by simp
  from model_check_requires_models [OF fair, of unkmod_circuit, THEN conjunct2, THEN conjunct2,
      THEN spec, THEN spec, THEN spec, THEN mp, OF this]
  have parse: "SpiceParser ?env None (Some ''src'') False
       = Inl (ParseError ''/: Model (unkmod) not available in (t)'')
     \<and> contains ''Model (unkmod) not available in (t)'' ''/: Model (unkmod) not available in (t)''"
    by (simp add: scopes sel)
  have "model_scopes (scope_of ?ok) [] = [(scope_of ?ok, [''unkmod''])]"
    "sc_required_models (scope_of ?ok) = [''unkmod'']"
    by (simp_all add: scope_of_def unkmod_circuit_def CircuitStatement_def lower_def lower_char_def)
  with model_check_requires_models [OF fair, of ?ok, THEN conjunct1]
  have ok: "check_models_circuit (env_iterate ?env) ?ok = Inr ()"
    by simp
  show ?thesis
    using fair unkmod_walk scopes(1,2) check parse ok by simp
qed

section \<open>Crossed dependencies\<close>

text \<open>
  C7 (the code does otherwise). The two subcircuits that instantiate each other are
  refused with \<^verbatim>\<open>Crossed dependencies\<close>, as they should be. So is the file with no
  cycle in which \<^verbatim>\<open>Q\<close>, nested in \<^verbatim>\<open>P\<close>, instantiates the top-level \<^verbatim>\<open>X\<close>: in the sort of
  the subcircuits of \<^verbatim>\<open>P\<close> the name \<^verbatim>\<open>x\<close> is never emitted, and \<^verbatim>\<open>Q\<close> is left over. The
  same \<^verbatim>\<open>Q\<close> beside \<^verbatim>\<open>X\<close> at the top is accepted.
\<close>

theorem nested_reference_crossed:
  "SpiceParser (example_environment cyclic_lines) None (Some ''src'') False
     = Inl (ParseError ''/: Crossed dependencies ([('A', {'b'}), ('B', {'a'})])'')
   \<and> SpiceParser (example_environment nested_lines) None (Some ''src'') False
     = Inl (ParseError ''/: Crossed dependencies ([('Q', {'x'})])'')
   \<and> (case SpiceParser (example_environment flat_lines) None (Some ''src'') False of
         Inl e \<Rightarrow> False
       | Inr self \<Rightarrow> map sc_name (c_subcircuits (p_circuit self)) = [''X'', ''Q''])"
  by code_simp

section \<open>The type of the exception\<close>

text \<open>
  C4 (the code does otherwise). The walk of the tree is outside both \<^verbatim>\<open>try\<close> blocks
  of the constructor: the \<^verbatim>\<open>NameError\<close> of a \<^verbatim>\<open>.subckt\<close> closed under another name, that of
  a \<^verbatim>\<open>.lib\<close> block, and the \<^verbatim>\<open>ValueError\<close> of a switch with one control node reach the
  caller as they are, and none of them is a \<^verbatim>\<open>ParseError\<close>.
\<close>

theorem walker_errors_not_wrapped:
  "SpiceParser (example_environment subckt_mismatch_lines) None (Some ''src'') False
     = Inl (NameError ''Begin and end library entries differ (file:/, line:2): A != B'')
   \<and> SpiceParser (example_environment lib_mismatch_lines) None (Some ''src'') False
     = Inl (NameError ''Begin and end library entries differ: L != M'')
   \<and> SpiceParser (example_environment half_switch_lines) None (Some ''src'') False
     = Inl (ValueError ''Only one control node defined'')
   \<and> \<not> is_ParseError (NameError ''Begin and end library entries differ: L != M'')
   \<and> \<not> is_ParseError (ValueError ''Only one control node defined'')"
  by code_simp

section \<open>Data tables\<close>












text \<open>
  Where a failure of the constructor comes from: it is a \<^verbatim>\<open>ParseError\<close> (the grammar
  parse, the two resolver passes, or a \<^verbatim>\<open>ParseError\<close> of the walker), or the error of
  reading the file, or the \<^verbatim>\<open>ValueError\<close> for neither path nor source, or the
  exception the walk of the tree raised, as it was raised.
\<close>

lemma SpiceParser_failure:
  assumes "SpiceParser env path source library = Inl e"
  shows "is_ParseError e
       \<or> (\<exists>p. path = Some p \<and> env_read env p = Inl e)
       \<or> (path = None \<and> source = None \<and> e = ValueError ''No path or source'')
       \<or> (\<exists>raw tree. env_parse env raw = Inr tree
            \<and> walk_Circuit (case path of Some p \<Rightarrow> p | None \<Rightarrow> env_getcwd env) tree = Inl e)"
  using assms
  by (auto simp: SpiceParser_def Let_def split: sum.splits option.splits if_splits)

text \<open>
  The walk that \<^verbatim>\<open>walk_Circuit\<close> starts comes back with an empty stack: its test for a
  hierarchy left open never fires.
\<close>

lemma walk_Circuit_closed:
  assumes "walk_lines ls \<lparr>w_path = path, w_root = root, w_present = Root, w_context = []\<rparr> = Inr w"
  shows "length (w_context w) = 0"
  using walk_keeps_stack(2) [OF assms] by simp

end
